(* ===== verification/Prelude.thy ===== *)
theory Prelude
  imports Main "HOL-Library.Word"
begin

text \<open>
  Shared vocabulary of the development: the machine integers of the C sources,
  the result of an operation that may end the process, C strings and the printf
  conversions the emulator uses, switch tables, and the lemmas about low-order
  bits that the processor theories share.
\<close>

unbundle bit_operations_syntax

subsection \<open>Machine integers\<close>

text \<open>\<open>unsigned\<close> and \<open>int\<close> are 32 bits wide on the hosts the emulator runs on.\<close>

type_synonym u8 = "8 word"
type_synonym u16 = "16 word"
type_synonym u32 = "32 word"

abbreviation minus_one :: u32 where
  "minus_one \<equiv> 0xFFFFFFFF"

subsection \<open>Results\<close>

text \<open>
  An operation either returns a value and the new state or ends the run of the
  current image: by \<open>exit(n)\<close>, by undefined behaviour of C (a read or write
  outside an array, a NULL or dangling pointer), by calling \<open>main\<close> again with a
  new argument list, as \<open>execve\<close> does, or by \<open>execv\<close> of a host program.
\<close>

datatype halt = Exit int | Fault | Main "string list" | Exec string "string list"

type_synonym ('s, 'a) res = "(halt \<times> 's) + ('a \<times> 's)"

definition bindr :: "('s, 'a) res \<Rightarrow> ('a \<Rightarrow> 's \<Rightarrow> ('s, 'b) res) \<Rightarrow> ('s, 'b) res" where
  "bindr m f = (case m of Inl e \<Rightarrow> Inl e | Inr (x, s) \<Rightarrow> f x s)"

abbreviation ok :: "'s \<Rightarrow> ('s, unit) res" where
  "ok s \<equiv> Inr ((), s)"

lemma bindr_Inl [simp]: "bindr (Inl e) f = Inl e"
  by (simp add: bindr_def)

lemma bindr_Inr [simp]: "bindr (Inr (x, s)) f = f x s"
  by (simp add: bindr_def)

lemma bindr_assoc: "bindr (bindr m f) g = bindr m (\<lambda>x s. bindr (f x s) g)"
  by (simp add: bindr_def split: sum.splits prod.splits)

lemma bindr_eq_Inr:
  "bindr m f = Inr z \<longleftrightarrow> (\<exists>x s. m = Inr (x, s) \<and> f x s = Inr z)"
  by (auto simp: bindr_def split: sum.splits prod.splits)

lemma bindr_cong [fundef_cong]:
  "m = m' \<Longrightarrow> (\<And>x s. m' = Inr (x, s) \<Longrightarrow> f x s = f' x s) \<Longrightarrow> bindr m f = bindr m' f'"
  by (auto simp: bindr_def split: sum.splits prod.splits)

subsection \<open>Switch statements\<close>

text \<open>
  A \<open>switch\<close> is a table of case labels and bodies; \<open>switch\<close> runs the body of
  the label, or the default.
\<close>

definition switch :: "('k \<times> 'f) list \<Rightarrow> 'f \<Rightarrow> 'k \<Rightarrow> 'f" where
  "switch tab dflt k = (case map_of tab k of Some f \<Rightarrow> f | None \<Rightarrow> dflt)"

lemma switch_all:
  assumes "\<forall>(l, f) \<in> set tab. P f" and "P dflt"
  shows "P (switch tab dflt k)"
  using assms by (auto simp: switch_def split: option.splits dest: map_of_SomeD)

lemma switch_Nil [simp]: "switch [] d k = d"
  by (simp add: switch_def)

lemma switch_Cons [simp]: "switch ((l, f) # tab) d k = (if l = k then f else switch tab d k)"
  by (simp add: switch_def)

lemma switch_append:
  "switch (xs @ ys) d k = switch xs (switch ys d k) k"
  by (simp add: switch_def map_of_append map_add_def split: option.splits)

subsection \<open>Low-order bits\<close>

text \<open>
  Two words agree on their low \<open>n\<close> bits. The registers of the processor model
  are 32-bit values of which only the low 8 or 16 bits are significant.
\<close>

definition low :: "nat \<Rightarrow> u32 \<Rightarrow> u32 \<Rightarrow> bool" where
  "low n x y \<longleftrightarrow> take_bit n x = take_bit n y"

named_theorems low_intros \<open>operations whose low-order result bits depend on low-order input bits\<close>

lemma low_refl [low_intros, simp]: "low n x x"
  by (simp add: low_def)

lemma low_sym: "low n x y \<Longrightarrow> low n y x"
  by (simp add: low_def)

lemma low_trans: "low n x y \<Longrightarrow> low n y z \<Longrightarrow> low n x z"
  by (simp add: low_def)

lemma low_mono: "low n x y \<Longrightarrow> m \<le> n \<Longrightarrow> low m x y"
  unfolding low_def by (metis min.absorb1 take_bit_take_bit)

lemma low_iff_bits: "low n x y \<longleftrightarrow> (\<forall>i<n. bit x i = bit y i)"
proof
  assume "low n x y"
  then have "\<And>i. bit (take_bit n x) i = bit (take_bit n y) i"
    by (simp add: low_def)
  then show "\<forall>i<n. bit x i = bit y i"
    by (auto simp: bit_take_bit_iff)
next
  assume "\<forall>i<n. bit x i = bit y i"
  then show "low n x y"
    unfolding low_def by (auto intro!: bit_eqI simp: bit_take_bit_iff)
qed

lemma low_int:
  "low n x y \<longleftrightarrow> take_bit (min n 32) (uint x) = take_bit (min n 32) (uint y)"
  unfolding low_def by transfer (simp add: take_bit_take_bit min.commute)

lemma take_bit_uint_add:
  "take_bit (min n 32) (uint (x + y :: u32)) = take_bit (min n 32) (uint x + uint y)"
  by (simp add: uint_word_arith_bintrs take_bit_take_bit)

lemma take_bit_uint_mult:
  "take_bit (min n 32) (uint (x * y :: u32)) = take_bit (min n 32) (uint x * uint y)"
  by (simp add: uint_word_arith_bintrs take_bit_take_bit)

lemma low_add [low_intros]: "low n x x' \<Longrightarrow> low n y y' \<Longrightarrow> low n (x + y) (x' + y')"
  unfolding low_int take_bit_uint_add by (metis take_bit_add)

lemma low_mult [low_intros]: "low n x x' \<Longrightarrow> low n y y' \<Longrightarrow> low n (x * y) (x' * y')"
  unfolding low_int take_bit_uint_mult by (metis take_bit_mult)

lemma low_and [low_intros]: "low n x x' \<Longrightarrow> low n y y' \<Longrightarrow> low n (x AND y) (x' AND y')"
  by (simp add: low_iff_bits bit_and_iff)

lemma low_or [low_intros]: "low n x x' \<Longrightarrow> low n y y' \<Longrightarrow> low n (x OR y) (x' OR y')"
  by (simp add: low_iff_bits bit_or_iff)

lemma low_xor [low_intros]: "low n x x' \<Longrightarrow> low n y y' \<Longrightarrow> low n (x XOR y) (x' XOR y')"
  by (simp add: low_iff_bits bit_xor_iff)

lemma low_not [low_intros]: "low n x x' \<Longrightarrow> low n (NOT x) (NOT x')"
  by (auto simp: low_iff_bits bit_not_iff_eq)

lemma low_diff [low_intros]: "low n x x' \<Longrightarrow> low n y y' \<Longrightarrow> low n (x - y) (x' - y')"
proof -
  assume "low n x x'" "low n y y'"
  then have "low n (x + (NOT y + 1)) (x' + (NOT y' + 1))"
    by (intro low_add low_not low_refl)
  then show ?thesis by (simp add: minus_eq_not_plus_1 [symmetric])
qed

lemma low_push: "low n x y \<Longrightarrow> low (n + k) (push_bit k x) (push_bit k y)"
  by (auto simp: low_iff_bits bit_push_bit_iff)

lemma low_push' [low_intros]: "low (n - k) x y \<Longrightarrow> low n (push_bit k x) (push_bit k y)"
  by (auto simp: low_iff_bits bit_push_bit_iff)

lemma low_drop [low_intros]: "low (n + k) x y \<Longrightarrow> low n (drop_bit k x) (drop_bit k y)"
  by (auto simp: low_iff_bits bit_drop_bit_eq)

lemma low_and_mask_eq:
  "low n x y \<Longrightarrow> x AND mask n = y AND mask n"
  by (simp add: low_def take_bit_eq_mask)

lemma low_ucast8: "low 8 x y \<longleftrightarrow> (ucast x :: u8) = ucast y"
  by (auto simp: low_iff_bits bit_eq_iff bit_ucast_iff)

lemma low_ucast16: "low 16 x y \<longleftrightarrow> (ucast x :: u16) = ucast y"
  by (auto simp: low_iff_bits bit_eq_iff bit_ucast_iff)

lemma low_8_16 [low_intros]: "low 16 x y \<Longrightarrow> low 8 x y"
  by (erule low_mono) simp

lemma all_u8: "(\<forall>T \<in> set (map of_nat [0..<256]). P T) \<Longrightarrow> P (T :: u8)"
proof -
  assume *: "\<forall>T \<in> set (map of_nat [0..<256]). P T"
  have "T = of_nat (unat T)" by simp
  moreover have "unat T < 256" using unsigned_less [of T] by simp
  ultimately have "T \<in> set (map of_nat [0..<256])"
    unfolding set_map set_upt atLeastLessThan_iff image_iff by (intro bexI) auto
  with * show ?thesis by blast
qed

end
