(* ===== verification/Breakpoints.thy ===== *)
theory Breakpoints
  imports Prelude
begin

text \<open>
  The breakpoint table of the monitor (\<open>emulators/emumon.c\<close>, \<open>emumon.h\<close>): a
  fixed array of \<open>NUM_BRKPOINTS\<close> slots and the one address whose next check is
  to be skipped. The abstract view of the table is a finite set of
  (address, type) pairs.
\<close>

datatype brkpt_nums = BRK_EMPTY | BRK_WRITE | BRK_INST

record brkpoint =
  bp_addr :: u32
  bp_type :: brkpt_nums

record brkstate =
  brkpointlist :: "brkpoint list"
  ignored_addr :: u32

definition NUM_BRKPOINTS :: nat where
  "NUM_BRKPOINTS = 30"

text \<open>The static initialisation: every slot is zero, nothing is ignored.\<close>

definition brk_initial :: brkstate where
  "brk_initial = \<lparr>brkpointlist = replicate NUM_BRKPOINTS \<lparr>bp_addr = 0, bp_type = BRK_EMPTY\<rparr>,
     ignored_addr = minus_one\<rparr>"

definition remove_breakpoint :: "u32 \<Rightarrow> brkstate \<Rightarrow> brkstate" where
  "remove_breakpoint addr b = b\<lparr>brkpointlist :=
     map (\<lambda>p. if bp_addr p = addr then p\<lparr>bp_type := BRK_EMPTY\<rparr> else p) (brkpointlist b)\<rparr>"

definition remove_all_breakpoints :: "brkstate \<Rightarrow> brkstate" where
  "remove_all_breakpoints b = b\<lparr>brkpointlist :=
     map (\<lambda>p. p\<lparr>bp_type := BRK_EMPTY\<rparr>) (brkpointlist b)\<rparr>"

text \<open>The first empty slot is taken; \<open>None\<close> is the message that there is none.\<close>

fun set_slot :: "u32 \<Rightarrow> brkpt_nums \<Rightarrow> brkpoint list \<Rightarrow> brkpoint list option" where
  "set_slot addr ty [] = None"
| "set_slot addr ty (p # ps) =
     (if bp_type p = BRK_EMPTY then Some (p\<lparr>bp_type := ty, bp_addr := addr\<rparr> # ps)
      else map_option ((#) p) (set_slot addr ty ps))"

definition set_breakpoint :: "u32 \<Rightarrow> brkpt_nums \<Rightarrow> brkstate \<Rightarrow> brkstate option" where
  "set_breakpoint addr ty b =
     map_option (\<lambda>l. b\<lparr>brkpointlist := l\<rparr>) (set_slot addr ty (brkpointlist b))"

definition ignore_breakpoint :: "u32 \<Rightarrow> brkstate \<Rightarrow> brkstate" where
  "ignore_breakpoint addr b = b\<lparr>ignored_addr := addr\<rparr>"

definition is_breakpoint :: "u32 \<Rightarrow> brkpt_nums \<Rightarrow> brkstate \<Rightarrow> bool \<times> brkstate" where
  "is_breakpoint addr ty b =
     (if addr = ignored_addr b then (False, b\<lparr>ignored_addr := minus_one\<rparr>)
      else (list_ex (\<lambda>p. bp_type p = ty \<and> bp_addr p = addr) (brkpointlist b), b))"

definition monitor_init :: "brkstate \<Rightarrow> brkstate" where
  "monitor_init b = remove_all_breakpoints b"

subsection \<open>The table as a set of breakpoints\<close>

definition armed :: "brkstate \<Rightarrow> (u32 \<times> brkpt_nums) set" where
  "armed b = {(bp_addr p, bp_type p) |p. p \<in> set (brkpointlist b) \<and> bp_type p \<noteq> BRK_EMPTY}"

definition free_slots :: "brkstate \<Rightarrow> nat" where
  "free_slots b = length (filter (\<lambda>p. bp_type p = BRK_EMPTY) (brkpointlist b))"

text \<open>What the emulator relies on: the interface of a breakpoint table.\<close>

locale breakpoint_table =
  fixes elems :: "'b \<Rightarrow> ('a \<times> 't) set"
    and free :: "'b \<Rightarrow> nat"
    and set_bp :: "'a \<Rightarrow> 't \<Rightarrow> 'b \<Rightarrow> 'b option"
    and del :: "'a \<Rightarrow> 'b \<Rightarrow> 'b"
    and proper :: "'t \<Rightarrow> bool"
  assumes set_Some: "proper t \<Longrightarrow> set_bp a t b = Some b' \<Longrightarrow> elems b' = insert (a, t) (elems b)"
    and set_free: "set_bp a t b = None \<longleftrightarrow> free b = 0"
    and set_uses: "proper t \<Longrightarrow> set_bp a t b = Some b' \<Longrightarrow> Suc (free b') = free b"
    and del_elems: "elems (del a b) = {(x, t) \<in> elems b. x \<noteq> a}"
begin

fun set_bps :: "('a \<times> 't) list \<Rightarrow> 'b \<Rightarrow> 'b option" where
  "set_bps [] b = Some b"
| "set_bps ((a, t) # xs) b = Option.bind (set_bp a t b) (set_bps xs)"

lemma set_bps_elems:
  "\<forall>(a, t) \<in> set xs. proper t \<Longrightarrow> set_bps xs b = Some b' \<Longrightarrow> elems b' = set xs \<union> elems b"
proof (induction xs arbitrary: b)
  case Nil
  then show ?case by simp
next
  case (Cons x xs)
  obtain a t where x: "x = (a, t)" by (cases x)
  from Cons.prems x obtain b1 where b1: "set_bp a t b = Some b1" "set_bps xs b1 = Some b'"
    by (cases "set_bp a t b") auto
  from b1 Cons.prems x have "elems b1 = insert (a, t) (elems b)"
    by (intro set_Some) auto
  moreover from b1 Cons have "elems b' = set xs \<union> elems b1" by auto
  ultimately show ?case using x by simp
qed

lemma set_bps_fits:
  "\<forall>(a, t) \<in> set xs. proper t \<Longrightarrow> length xs \<le> free b \<Longrightarrow> \<exists>b'. set_bps xs b = Some b'"
proof (induction xs arbitrary: b)
  case Nil
  then show ?case by simp
next
  case (Cons x xs)
  obtain a t where x: "x = (a, t)" by (cases x)
  from Cons.prems have "free b \<noteq> 0" by simp
  then obtain b1 where b1: "set_bp a t b = Some b1"
    using set_free [of a t b] by (cases "set_bp a t b") auto
  with Cons.prems x have "Suc (free b1) = free b" by (intro set_uses) auto
  with Cons.prems have "length xs \<le> free b1" by simp
  with Cons b1 x show ?case by auto
qed

lemma set_bps_uses:
  "\<forall>(a, t) \<in> set xs. proper t \<Longrightarrow> set_bps xs b = Some b' \<Longrightarrow> free b' + length xs = free b"
proof (induction xs arbitrary: b)
  case Nil
  then show ?case by simp
next
  case (Cons x xs)
  obtain a t where x: "x = (a, t)" by (cases x)
  from Cons.prems x obtain b1 where b1: "set_bp a t b = Some b1" "set_bps xs b1 = Some b'"
    by (cases "set_bp a t b") auto
  from b1 Cons.prems x have "Suc (free b1) = free b" by (intro set_uses) auto
  moreover from b1 Cons have "free b' + length xs = free b1" by auto
  ultimately show ?case by simp
qed

lemma del_set:
  "proper t \<Longrightarrow> set_bp a t b = Some b' \<Longrightarrow> (a, u) \<notin> elems (del a b')"
  by (simp add: del_elems)

end

lemma set_slot_elems:
  "ty \<noteq> BRK_EMPTY \<Longrightarrow> set_slot addr ty l = Some l' \<Longrightarrow>
   {(bp_addr p, bp_type p) |p. p \<in> set l' \<and> bp_type p \<noteq> BRK_EMPTY} =
   insert (addr, ty) {(bp_addr p, bp_type p) |p. p \<in> set l \<and> bp_type p \<noteq> BRK_EMPTY}"
proof (induction l arbitrary: l')
  case Nil
  then show ?case by simp
next
  case (Cons p ps)
  let ?S = "\<lambda>l. {(bp_addr p, bp_type p) |p. p \<in> set l \<and> bp_type p \<noteq> BRK_EMPTY}"
  have S_Cons: "?S (q # qs) = (if bp_type q \<noteq> BRK_EMPTY then insert (bp_addr q, bp_type q) (?S qs) else ?S qs)"
    for q qs by auto
  show ?case
  proof (cases "bp_type p = BRK_EMPTY")
    case True
    with Cons.prems have "l' = p\<lparr>bp_type := ty, bp_addr := addr\<rparr> # ps" by simp
    with True Cons.prems(1) show ?thesis by (simp only: S_Cons) simp
  next
    case False
    with Cons.prems obtain l1 where l1: "set_slot addr ty ps = Some l1" "l' = p # l1" by auto
    have "?S l1 = insert (addr, ty) (?S ps)" using Cons.IH Cons.prems(1) l1(1) by blast
    with l1(2) show ?thesis by (simp only: S_Cons) auto
  qed
qed

lemma set_slot_None: "set_slot a t l = None \<longleftrightarrow> filter (\<lambda>p. bp_type p = BRK_EMPTY) l = []"
  by (induction l) auto

lemma set_slot_uses:
  "t \<noteq> BRK_EMPTY \<Longrightarrow> set_slot a t l = Some l' \<Longrightarrow>
   Suc (length (filter (\<lambda>p. bp_type p = BRK_EMPTY) l')) = length (filter (\<lambda>p. bp_type p = BRK_EMPTY) l)"
  by (induction l arbitrary: l') (auto split: if_splits)

lemma length_set_slot: "set_slot a t l = Some l' \<Longrightarrow> length l' = length l"
  by (induction l arbitrary: l') (auto split: if_splits)

interpretation bps: breakpoint_table armed free_slots set_breakpoint remove_breakpoint
  "\<lambda>t. t \<noteq> BRK_EMPTY"
proof
  fix a t b b'
  assume "t \<noteq> BRK_EMPTY" and "set_breakpoint a t b = Some b'"
  moreover from this obtain l where "set_slot a t (brkpointlist b) = Some l" "brkpointlist b' = l"
    by (auto simp: set_breakpoint_def)
  ultimately show "armed b' = insert (a, t) (armed b)" and "Suc (free_slots b') = free_slots b"
    using set_slot_elems set_slot_uses by (simp_all add: armed_def free_slots_def)
next
  fix a t b
  show "set_breakpoint a t b = None \<longleftrightarrow> free_slots b = 0"
    by (simp add: set_breakpoint_def free_slots_def set_slot_None)
next
  fix a b
  show "armed (remove_breakpoint a b) = {(x, t) \<in> armed b. x \<noteq> a}"
    by (auto simp: armed_def remove_breakpoint_def split: if_splits)
qed

lemma is_breakpoint_armed:
  "ty \<noteq> BRK_EMPTY \<Longrightarrow> addr \<noteq> ignored_addr b \<Longrightarrow>
   is_breakpoint addr ty b = ((addr, ty) \<in> armed b, b)"
  by (auto simp: is_breakpoint_def armed_def list_ex_iff)

lemma is_breakpoint_ignored:
  "is_breakpoint addr ty (ignore_breakpoint addr b) = (False, b\<lparr>ignored_addr := minus_one\<rparr>)"
  by (simp add: is_breakpoint_def ignore_breakpoint_def)

lemma armed_ignored [simp]: "armed (b\<lparr>ignored_addr := a\<rparr>) = armed b"
  by (simp add: armed_def)

lemma armed_remove_all [simp]: "armed (remove_all_breakpoints b) = {}"
  by (auto simp: armed_def remove_all_breakpoints_def)

lemma free_slots_remove_all [simp]:
  "free_slots (remove_all_breakpoints b) = length (brkpointlist b)"
  by (simp add: free_slots_def remove_all_breakpoints_def filter_map comp_def)

lemma free_slots_ignored [simp]: "free_slots (b\<lparr>ignored_addr := a\<rparr>) = free_slots b"
  by (simp add: free_slots_def)

end
