(* ===== verification/Cstring.thy ===== *)
theory Cstring
  imports Prelude
begin

text \<open>
  C strings as lists of characters (the terminating NUL is the end of the list),
  the character classes of the C locale, the conversions of \<open>printf\<close> and
  \<open>strtol\<close> that the emulator uses, and \<open>strstr\<close> and \<open>fgets\<close> as the map file
  reader uses them.
\<close>

subsection \<open>Character classes\<close>

definition isdigit :: "char \<Rightarrow> bool" where
  "isdigit c \<longleftrightarrow> 48 \<le> (of_char c :: nat) \<and> (of_char c :: nat) \<le> 57"

definition isgraph :: "char \<Rightarrow> bool" where
  "isgraph c \<longleftrightarrow> 33 \<le> (of_char c :: nat) \<and> (of_char c :: nat) \<le> 126"

definition isprint :: "char \<Rightarrow> bool" where
  "isprint c \<longleftrightarrow> 32 \<le> (of_char c :: nat) \<and> (of_char c :: nat) \<le> 126"

definition isspace :: "char \<Rightarrow> bool" where
  "isspace c \<longleftrightarrow> (of_char c :: nat) = 32 \<or> (9 \<le> (of_char c :: nat) \<and> (of_char c :: nat) \<le> 13)"

definition tolower :: "char \<Rightarrow> char" where
  "tolower c = (if 65 \<le> (of_char c :: nat) \<and> (of_char c :: nat) \<le> 90
     then char_of ((of_char c :: nat) + 32) else c)"

subsection \<open>printf conversions\<close>

definition hexdig :: "nat \<Rightarrow> char" where
  "hexdig n = (if n < 10 then char_of (48 + n) else char_of (55 + n))"

text \<open>Digits of a number, most significant first: \<open>%X\<close> and \<open>%u\<close>.\<close>

fun hex_str :: "nat \<Rightarrow> string" where
  "hex_str n = (if n < 16 then [hexdig n] else hex_str (n div 16) @ [hexdig (n mod 16)])"

declare hex_str.simps [simp del]

fun dec_str :: "nat \<Rightarrow> string" where
  "dec_str n = (if n < 10 then [hexdig n] else dec_str (n div 10) @ [hexdig (n mod 10)])"

declare dec_str.simps [simp del]

definition pad_left :: "nat \<Rightarrow> char \<Rightarrow> string \<Rightarrow> string" where
  "pad_left w c s = replicate (w - length s) c @ s"

definition pad_right :: "nat \<Rightarrow> char \<Rightarrow> string \<Rightarrow> string" where
  "pad_right w c s = s @ replicate (w - length s) c"

text \<open>\<open>%02X\<close>, \<open>%04X\<close>, \<open>%.1x\<close>, \<open>%.2x\<close>, \<open>%d\<close>, \<open>%12s\<close> and \<open>%-16.16s\<close>.\<close>

definition fmt_02X :: "nat \<Rightarrow> string" where
  "fmt_02X n = pad_left 2 (CHR ''0'') (hex_str n)"

definition fmt_04X :: "nat \<Rightarrow> string" where
  "fmt_04X n = pad_left 4 (CHR ''0'') (hex_str n)"

definition fmt_x :: "nat \<Rightarrow> string" where
  "fmt_x n = map tolower (hex_str n)"

definition fmt_p2x :: "nat \<Rightarrow> string" where
  "fmt_p2x n = map tolower (fmt_02X n)"

definition fmt_d :: "int \<Rightarrow> string" where
  "fmt_d i = (if i < 0 then ''-'' @ dec_str (nat (- i)) else dec_str (nat i))"

definition fmt_12s :: "string \<Rightarrow> string" where
  "fmt_12s s = pad_left 12 (CHR '' '') s"

definition fmt_m16s :: "string \<Rightarrow> string" where
  "fmt_m16s s = pad_right 16 (CHR '' '') (take 16 s)"

abbreviation newline :: string where
  "newline \<equiv> [CHR 0x0A]"

subsection \<open>strtol\<close>

definition digit_value :: "char \<Rightarrow> nat" where
  "digit_value c = (let n = of_char c :: nat in
     if 48 \<le> n \<and> n \<le> 57 then n - 48
     else if 65 \<le> n \<and> n \<le> 90 then n - 55
     else if 97 \<le> n \<and> n \<le> 122 then n - 87 else 99)"

fun strtol_digits :: "nat \<Rightarrow> nat \<Rightarrow> string \<Rightarrow> nat" where
  "strtol_digits base acc [] = acc"
| "strtol_digits base acc (c # cs) =
     (if digit_value c < base then strtol_digits base (acc * base + digit_value c) cs else acc)"

text \<open>The result is a 64-bit \<open>long\<close>, clamped to its range.\<close>

definition clamp_long :: "int \<Rightarrow> int" where
  "clamp_long i = max (- (2 ^ 63)) (min (2 ^ 63 - 1) i)"

fun skip_0x :: "string \<Rightarrow> string" where
  "skip_0x (a # x # d # cs) =
     (if a = CHR ''0'' \<and> tolower x = CHR ''x'' \<and> digit_value d < 16 then d # cs
      else a # x # d # cs)"
| "skip_0x cs = cs"

definition strtol :: "string \<Rightarrow> nat \<Rightarrow> int" where
  "strtol s base =
     (let s1 = dropWhile isspace s;
          neg = (s1 \<noteq> [] \<and> hd s1 = CHR ''-'');
          s2 = (if s1 \<noteq> [] \<and> (hd s1 = CHR ''-'' \<or> hd s1 = CHR ''+'') then tl s1 else s1);
          s3 = (if base = 16 then skip_0x s2 else s2);
          v = int (strtol_digits base 0 s3)
      in clamp_long (if neg then - v else v))"

text \<open>The conversion \<open>(int) strtol(...)\<close> keeps the low 32 bits.\<close>

definition strtol_int :: "string \<Rightarrow> nat \<Rightarrow> u32" where
  "strtol_int s base = word_of_int (strtol s base)"

lemma strtol_digits_append:
  "(\<forall>c \<in> set ds. digit_value c < b) \<Longrightarrow>
   strtol_digits b acc (ds @ cs) = strtol_digits b (strtol_digits b acc ds) cs"
  by (induction ds arbitrary: acc) auto

lemma of_char_hexdig:
  "n < 16 \<Longrightarrow> (of_char (hexdig n) :: nat) = (if n < 10 then 48 + n else 55 + n)"
  by (simp add: hexdig_def of_char_of)

lemma digit_value_hexdig [simp]: "n < 16 \<Longrightarrow> digit_value (hexdig n) = n"
  by (simp add: digit_value_def of_char_hexdig Let_def)

lemma hex_str_digits: "\<forall>c \<in> set (hex_str n). digit_value c < 16"
  by (induction n rule: hex_str.induct) (subst hex_str.simps, auto)

lemma hex_str_not_space: "\<forall>c \<in> set (hex_str n). \<not> isspace c \<and> c \<noteq> CHR ''-'' \<and> c \<noteq> CHR ''+'' \<and> c \<noteq> CHR ''x'' \<and> c \<noteq> CHR ''X''"
proof -
  have "\<not> isspace (hexdig m) \<and> hexdig m \<noteq> CHR ''-'' \<and> hexdig m \<noteq> CHR ''+'' \<and> hexdig m \<noteq> CHR ''x''
      \<and> hexdig m \<noteq> CHR ''X''" if "m < 16" for m
    using of_char_hexdig [OF that] that by (auto simp: isspace_def split: if_splits)
  then show ?thesis
    by (induction n rule: hex_str.induct) (subst hex_str.simps, auto)
qed

lemma strtol_digits_hex_str: "strtol_digits 16 0 (hex_str n) = n"
proof (induction n rule: hex_str.induct)
  case (1 n)
  show ?case
  proof (cases "n < 16")
    case True
    then show ?thesis by (subst hex_str.simps) simp
  next
    case False
    then have "strtol_digits 16 0 (hex_str n) =
        strtol_digits 16 (strtol_digits 16 0 (hex_str (n div 16))) [hexdig (n mod 16)]"
      by (subst hex_str.simps) (simp add: strtol_digits_append hex_str_digits)
    with False 1 show ?thesis by simp
  qed
qed

subsection \<open>strstr and fgets\<close>

text \<open>The rest of the haystack from the first occurrence on, if there is one.\<close>

fun strstr :: "string \<Rightarrow> string \<Rightarrow> string option" where
  "strstr [] n = (if n = [] then Some [] else None)"
| "strstr (c # cs) n = (if take (length n) (c # cs) = n then Some (c # cs) else strstr cs n)"

text \<open>
  The lines that successive calls \<open>fgets(buf, n + 1, f)\<close> return: each ends
  after a newline or after \<open>n\<close> characters.
\<close>

fun fgets_go :: "nat \<Rightarrow> nat \<Rightarrow> string \<Rightarrow> string \<Rightarrow> string list" where
  "fgets_go n k acc [] = (if acc = [] then [] else [rev acc])"
| "fgets_go n k acc (c # cs) =
     (if c = CHR 0x0A \<or> k = 0 then rev (c # acc) # fgets_go n n [] cs
      else fgets_go n (k - 1) (c # acc) cs)"

definition fgets_lines :: "nat \<Rightarrow> string \<Rightarrow> string list" where
  "fgets_lines n f = fgets_go (n - 1) (n - 1) [] f"

lemma concat_fgets_go: "concat (fgets_go n k acc f) = rev acc @ f"
  by (induction n k acc f rule: fgets_go.induct) auto

lemma strstr_suffix: "strstr h n = Some r \<Longrightarrow> \<exists>p. h = p @ r"
  by (induction h n rule: strstr.induct) (fastforce split: if_splits)+

end
