(* ===== verification/Mapfile.thy ===== *)
theory Mapfile
  imports Cstring
begin

text \<open>
  The symbol table (\<open>emulators/mapfile.c\<close>): the array of map entries sorted by
  address with its sentinel, the cached index of the last lookup, and the
  lookups by name and by address.
\<close>

record mapentry =
  me_addr :: u32
  me_sym :: "string option"

text \<open>
  The pointer \<open>maparray\<close> is NULL, points at an array, or is left dangling after
  \<open>free\<close> when the file to load next cannot be opened.
\<close>

datatype maparr = Null | Freed | Arr "mapentry list"

record mapstate =
  mapfile_loaded :: bool
  maparray :: maparr
  mapidx :: nat
  mapcnt :: nat

definition map_initial :: mapstate where
  "map_initial = \<lparr>mapfile_loaded = False, maparray = Null, mapidx = 0, mapcnt = 0\<rparr>"

subsection \<open>Reading the map file\<close>

text \<open>\<open>mapcompare\<close>: the difference of the addresses, as an \<open>int\<close>.\<close>

definition mapcompare :: "mapentry \<Rightarrow> mapentry \<Rightarrow> int" where
  "mapcompare c d = sint (me_addr c - me_addr d)"

text \<open>
  \<open>qsort\<close> with \<open>mapcompare\<close>, as an insertion sort by that comparison. The C
  standard leaves the order of entries that compare equal open; the properties
  below do not depend on it.
\<close>

fun map_insort :: "mapentry \<Rightarrow> mapentry list \<Rightarrow> mapentry list" where
  "map_insort x [] = [x]"
| "map_insort x (y # ys) = (if mapcompare x y \<le> 0 then x # y # ys else y # map_insort x ys)"

fun map_qsort :: "mapentry list \<Rightarrow> mapentry list" where
  "map_qsort [] = []"
| "map_qsort (x # xs) = map_insort x (map_qsort xs)"

text \<open>The first pass counts the lines with " C ".\<close>

definition map_lines :: "string \<Rightarrow> string list" where
  "map_lines f = filter (\<lambda>l. strstr l '' C '' \<noteq> None) (fgets_lines 1022 f)"

text \<open>The entry made from such a line: its hexadecimal address, and the symbol
  after " C " without its last character.\<close>

definition map_line_entry :: "string \<Rightarrow> mapentry" where
  "map_line_entry l = \<lparr>me_addr = strtol_int l 16,
     me_sym = Some (butlast (drop 3 (the (strstr l '' C ''))))\<rparr>"

text \<open>
  The second pass stores entry after entry from index \<open>i\<close> on, in an array of
  uninitialised cells; a store outside the array is a fault.
\<close>

fun map_store :: "nat \<Rightarrow> mapentry list \<Rightarrow> mapentry option list \<Rightarrow> mapentry option list option" where
  "map_store i [] cells = Some cells"
| "map_store i (e # es) cells =
     (if i < length cells then map_store (Suc i) es (cells[i := Some e]) else None)"

definition map_sentinel :: mapentry where
  "map_sentinel = \<lparr>me_addr = 0xFFFF, me_sym = None\<rparr>"

text \<open>
  \<open>read_mapfile\<close>. The file is \<open>None\<close> when it cannot be opened. The index \<open>i\<close>
  is zero unless an earlier array has been freed: then it holds the old count,
  which the loop that frees the symbols leaves in it. Sorting an uninitialised
  cell, and freeing a dangling pointer, are faults.
\<close>

definition read_mapfile :: "string option \<Rightarrow> mapstate \<Rightarrow> (mapstate, unit) res" where
  "read_mapfile f m =
     (if maparray m = Freed then Inl (Fault, m)
      else let i = (case maparray m of Arr _ \<Rightarrow> mapcnt m | _ \<Rightarrow> 0);
               m1 = (case maparray m of
                       Arr _ \<Rightarrow> m\<lparr>maparray := Freed, mapidx := 0, mapcnt := 0\<rparr> | _ \<Rightarrow> m)
           in case f of
                None \<Rightarrow> ok m1
              | Some txt \<Rightarrow>
                  let ls = map_lines txt;
                      n = mapcnt m1 + length ls;
                      m2 = m1\<lparr>mapcnt := n\<rparr>
                  in case map_store i (map map_line_entry ls) (replicate (n + 1) None) of
                       None \<Rightarrow> Inl (Fault, m2)
                     | Some cells \<Rightarrow>
                         if None \<in> set (take n cells) then Inl (Fault, m2)
                         else ok (m2\<lparr>maparray :=
                                Arr (map_qsort (map the (take n cells)) @ [map_sentinel]),
                              mapfile_loaded := True\<rparr>))"

subsection \<open>Lookups\<close>

definition map_entries :: "mapstate \<Rightarrow> mapentry list" where
  "map_entries m = (case maparray m of Arr es \<Rightarrow> es | _ \<Rightarrow> [])"

text \<open>\<open>get_sym_address\<close>: the address of the first entry of that name, or -1.\<close>

fun find_sym :: "string \<Rightarrow> mapentry list \<Rightarrow> nat" where
  "find_sym nm [] = 0"
| "find_sym nm (e # es) = (if me_sym e = Some nm then 0 else Suc (find_sym nm es))"

definition get_sym_address :: "string \<Rightarrow> mapstate \<Rightarrow> u32" where
  "get_sym_address nm m =
     (if nm = [] then minus_one
      else let i = find_sym nm (take (mapcnt m) (map_entries m))
           in if i < mapcnt m then me_addr (map_entries m ! i) else minus_one)"

text \<open>\<open>get_sym_end_address\<close>: one below the next entry with a higher address.\<close>

definition get_sym_end_address :: "string \<Rightarrow> mapstate \<Rightarrow> u32" where
  "get_sym_end_address nm m =
     (if nm = [] then minus_one
      else let i = find_sym nm (take (mapcnt m) (map_entries m))
           in if i = mapcnt m then minus_one
              else case filter (\<lambda>j. me_addr (map_entries m ! j) > me_addr (map_entries m ! i))
                          [i + 1 ..< mapcnt m + 1] of
                     [] \<Rightarrow> minus_one
                   | j # _ \<Rightarrow> me_addr (map_entries m ! j) - 1)"

text \<open>
  \<open>get_symbol_and_offset\<close>: the cached entry if the address lies between it and
  its successor, otherwise the first such entry of the whole list. A read past
  the sentinel is a fault.
\<close>

definition covers :: "mapentry list \<Rightarrow> nat \<Rightarrow> u32 \<Rightarrow> bool" where
  "covers es i addr \<longleftrightarrow> me_addr (es ! i) \<le> addr \<and> addr < me_addr (es ! (i + 1))"

function map_search :: "mapentry list \<Rightarrow> u32 \<Rightarrow> nat \<Rightarrow> nat \<Rightarrow> nat" where
  "map_search es addr n i =
     (if i < n \<and> \<not> covers es i addr then map_search es addr n (i + 1) else i)"
  by pat_completeness auto
termination by (relation "measure (\<lambda>(es, addr, n, i). n - i)") auto

declare map_search.simps [simp del]

definition get_symbol_and_offset ::
  "u32 \<Rightarrow> mapstate \<Rightarrow> (mapstate, (string option \<times> u32) option) res" where
  "get_symbol_and_offset addr m =
     (if mapcnt m = 0 then Inr (None, m)
      else let es = map_entries m; k = mapidx m
           in if k \<ge> length es then Inl (Fault, m)
              else if me_addr (es ! k) \<le> addr \<and> k + 1 \<ge> length es then Inl (Fault, m)
              else if covers es k addr
              then Inr (Some (me_sym (es ! k), addr - me_addr (es ! k)), m)
              else let i = map_search es addr (mapcnt m) 0; m' = m\<lparr>mapidx := i\<rparr>
                   in if i < mapcnt m
                      then Inr (Some (me_sym (es ! i), addr - me_addr (es ! i)), m')
                      else Inr (None, m'))"

end
