(* ===== verification/Disasm.thy ===== *)
theory Disasm
  imports Cstring
begin

text \<open>
  The 6809/6309 disassembler (\<open>emulators/d6809.c\<close>): the opcode tables, the text
  of indexed operands, and \<open>Dasm\<close>, which returns the text of one instruction and
  its length in bytes. Memory is read through \<open>OPCODE\<close>, \<open>ARGBYTE\<close> and
  \<open>ARGWORD\<close>, which the emulator binds to its debugging read; the read is a
  parameter here. A table entry pairs the mnemonic that \<open>mne\<close> gives for the
  opcode number with the addressing mode.
\<close>

subsection \<open>Opcode tables\<close>

datatype addr_mode =
    M_nom | M_imp | M_imb | M_imw | M_dir | M_ext | M_ind | M_reb | M_rew
  | M_r1 | M_r2 | M_r3 | M_bd | M_bi | M_be | M_bt | M_t1 | M_t2 | M_t3 | M_t4 | M_iml

abbreviation ill :: "string \<times> addr_mode" where
  "ill \<equiv> (''???'', M_nom)"

definition h6309_codes :: "(string \<times> addr_mode) list" where
  "h6309_codes = [
   (''NEG'', M_dir), (''OIM'', M_bd), (''AIM'', M_bd), (''COM'', M_dir),
   (''LSR'', M_dir), (''EIM'', M_bd), (''ROR'', M_dir), (''ASR'', M_dir),
   (''ASL'', M_dir), (''ROL'', M_dir), (''DEC'', M_dir), (''TIM'', M_bd),
   (''INC'', M_dir), (''TST'', M_dir), (''JMP'', M_dir), (''CLR'', M_dir),
   ill, ill, (''NOP'', M_imp), (''SYNC'', M_imp),
   (''SEXW'', M_imp), ill, (''LBRA'', M_rew), (''LBSR'', M_rew),
   ill, (''DAA'', M_imp), (''ORCC'', M_imb), ill,
   (''ANDCC'', M_imb), (''SEX'', M_imp), (''EXG'', M_r1), (''TFR'', M_r1),
   (''BRA'', M_reb), (''BRN'', M_reb), (''BHI'', M_reb), (''BLS'', M_reb),
   (''BCC'', M_reb), (''BCS'', M_reb), (''BNE'', M_reb), (''BEQ'', M_reb),
   (''BVC'', M_reb), (''BVS'', M_reb), (''BPL'', M_reb), (''BMI'', M_reb),
   (''BGE'', M_reb), (''BLT'', M_reb), (''BGT'', M_reb), (''BLE'', M_reb),
   (''LEAX'', M_ind), (''LEAY'', M_ind), (''LEAS'', M_ind), (''LEAU'', M_ind),
   (''PSHS'', M_r2), (''PULS'', M_r2), (''PSHU'', M_r3), (''PULU'', M_r3),
   ill, (''RTS'', M_imp), (''ABX'', M_imp), (''RTI'', M_imp),
   (''CWAI'', M_imb), (''MUL'', M_imp), (''RESET'', M_imp), (''SWI'', M_imp),
   (''NEGA'', M_imp), ill, ill, (''COMA'', M_imp),
   (''LSRA'', M_imp), ill, (''RORA'', M_imp), (''ASRA'', M_imp),
   (''ASLA'', M_imp), (''ROLA'', M_imp), (''DECA'', M_imp), ill,
   (''INCA'', M_imp), (''TSTA'', M_imp), ill, (''CLRA'', M_imp),
   (''NEGB'', M_imp), ill, ill, (''COMB'', M_imp),
   (''LSRB'', M_imp), ill, (''RORB'', M_imp), (''ASRB'', M_imp),
   (''ASLB'', M_imp), (''ROLB'', M_imp), (''DECB'', M_imp), ill,
   (''INCB'', M_imp), (''TSTB'', M_imp), ill, (''CLRB'', M_imp),
   (''NEG'', M_ind), (''OIM'', M_bi), (''AIM'', M_bi), (''COM'', M_ind),
   (''LSR'', M_ind), (''EIM'', M_bi), (''ROR'', M_ind), (''ASR'', M_ind),
   (''ASL'', M_ind), (''ROL'', M_ind), (''DEC'', M_ind), (''TIM'', M_bi),
   (''INC'', M_ind), (''TST'', M_ind), (''JMP'', M_ind), (''CLR'', M_ind),
   (''NEG'', M_ext), (''OIM'', M_be), (''AIM'', M_be), (''COM'', M_ext),
   (''LSR'', M_ext), (''EIM'', M_be), (''ROR'', M_ext), (''ASR'', M_ext),
   (''ASL'', M_ext), (''ROL'', M_ext), (''DEC'', M_ext), (''TIM'', M_be),
   (''INC'', M_ext), (''TST'', M_ext), (''JMP'', M_ext), (''CLR'', M_ext),
   (''SUBA'', M_imb), (''CMPA'', M_imb), (''SBCA'', M_imb), (''SUBD'', M_imw),
   (''ANDA'', M_imb), (''BITA'', M_imb), (''LDA'', M_imb), ill,
   (''EORA'', M_imb), (''ADCA'', M_imb), (''ORA'', M_imb), (''ADDA'', M_imb),
   (''CMPX'', M_imw), (''BSR'', M_reb), (''LDX'', M_imw), ill,
   (''SUBA'', M_dir), (''CMPA'', M_dir), (''SBCA'', M_dir), (''SUBD'', M_dir),
   (''ANDA'', M_dir), (''BITA'', M_dir), (''LDA'', M_dir), (''STA'', M_dir),
   (''EORA'', M_dir), (''ADCA'', M_dir), (''ORA'', M_dir), (''ADDA'', M_dir),
   (''CMPX'', M_dir), (''JSR'', M_dir), (''LDX'', M_dir), (''STX'', M_dir),
   (''SUBA'', M_ind), (''CMPA'', M_ind), (''SBCA'', M_ind), (''SUBD'', M_ind),
   (''ANDA'', M_ind), (''BITA'', M_ind), (''LDA'', M_ind), (''STA'', M_ind),
   (''EORA'', M_ind), (''ADCA'', M_ind), (''ORA'', M_ind), (''ADDA'', M_ind),
   (''CMPX'', M_ind), (''JSR'', M_ind), (''LDX'', M_ind), (''STX'', M_ind),
   (''SUBA'', M_ext), (''CMPA'', M_ext), (''SBCA'', M_ext), (''SUBD'', M_ext),
   (''ANDA'', M_ext), (''BITA'', M_ext), (''LDA'', M_ext), (''STA'', M_ext),
   (''EORA'', M_ext), (''ADCA'', M_ext), (''ORA'', M_ext), (''ADDA'', M_ext),
   (''CMPX'', M_ext), (''JSR'', M_ext), (''LDX'', M_ext), (''STX'', M_ext),
   (''SUBB'', M_imb), (''CMPB'', M_imb), (''SBCB'', M_imb), (''ADDD'', M_imw),
   (''ANDB'', M_imb), (''BITB'', M_imb), (''LDB'', M_imb), ill,
   (''EORB'', M_imb), (''ADCB'', M_imb), (''ORB'', M_imb), (''ADDB'', M_imb),
   (''LDD'', M_imw), (''LDQ'', M_iml), (''LDU'', M_imw), ill,
   (''SUBB'', M_dir), (''CMPB'', M_dir), (''SBCB'', M_dir), (''ADDD'', M_dir),
   (''ANDB'', M_dir), (''BITB'', M_dir), (''LDB'', M_dir), (''STB'', M_dir),
   (''EORB'', M_dir), (''ADCB'', M_dir), (''ORB'', M_dir), (''ADDB'', M_dir),
   (''LDD'', M_dir), (''STD'', M_dir), (''LDU'', M_dir), (''STU'', M_dir),
   (''SUBB'', M_ind), (''CMPB'', M_ind), (''SBCB'', M_ind), (''ADDD'', M_ind),
   (''ANDB'', M_ind), (''BITB'', M_ind), (''LDB'', M_ind), (''STB'', M_ind),
   (''EORB'', M_ind), (''ADCB'', M_ind), (''ORB'', M_ind), (''ADDB'', M_ind),
   (''LDD'', M_ind), (''STD'', M_ind), (''LDU'', M_ind), (''STU'', M_ind),
   (''SUBB'', M_ext), (''CMPB'', M_ext), (''SBCB'', M_ext), (''ADDD'', M_ext),
   (''ANDB'', M_ext), (''BITB'', M_ext), (''LDB'', M_ext), (''STB'', M_ext),
   (''EORB'', M_ext), (''ADCB'', M_ext), (''ORB'', M_ext), (''ADDB'', M_ext),
   (''LDD'', M_ext), (''STD'', M_ext), (''LDU'', M_ext), (''STU'', M_ext)]"

definition m6809_codes :: "(string \<times> addr_mode) list" where
  "m6809_codes = [
   (''NEG'', M_dir), ill, ill, (''COM'', M_dir),
   (''LSR'', M_dir), ill, (''ROR'', M_dir), (''ASR'', M_dir),
   (''ASL'', M_dir), (''ROL'', M_dir), (''DEC'', M_dir), ill,
   (''INC'', M_dir), (''TST'', M_dir), (''JMP'', M_dir), (''CLR'', M_dir),
   ill, ill, (''NOP'', M_imp), (''SYNC'', M_imp),
   ill, ill, (''LBRA'', M_rew), (''LBSR'', M_rew),
   ill, (''DAA'', M_imp), (''ORCC'', M_imb), ill,
   (''ANDCC'', M_imb), (''SEX'', M_imp), (''EXG'', M_r1), (''TFR'', M_r1),
   (''BRA'', M_reb), (''BRN'', M_reb), (''BHI'', M_reb), (''BLS'', M_reb),
   (''BCC'', M_reb), (''BCS'', M_reb), (''BNE'', M_reb), (''BEQ'', M_reb),
   (''BVC'', M_reb), (''BVS'', M_reb), (''BPL'', M_reb), (''BMI'', M_reb),
   (''BGE'', M_reb), (''BLT'', M_reb), (''BGT'', M_reb), (''BLE'', M_reb),
   (''LEAX'', M_ind), (''LEAY'', M_ind), (''LEAS'', M_ind), (''LEAU'', M_ind),
   (''PSHS'', M_r2), (''PULS'', M_r2), (''PSHU'', M_r3), (''PULU'', M_r3),
   ill, (''RTS'', M_imp), (''ABX'', M_imp), (''RTI'', M_imp),
   (''CWAI'', M_imb), (''MUL'', M_imp), (''RESET'', M_imp), (''SWI'', M_imp),
   (''NEGA'', M_imp), ill, ill, (''COMA'', M_imp),
   (''LSRA'', M_imp), ill, (''RORA'', M_imp), (''ASRA'', M_imp),
   (''ASLA'', M_imp), (''ROLA'', M_imp), (''DECA'', M_imp), ill,
   (''INCA'', M_imp), (''TSTA'', M_imp), ill, (''CLRA'', M_imp),
   (''NEGB'', M_imp), ill, ill, (''COMB'', M_imp),
   (''LSRB'', M_imp), ill, (''RORB'', M_imp), (''ASRB'', M_imp),
   (''ASLB'', M_imp), (''ROLB'', M_imp), (''DECB'', M_imp), ill,
   (''INCB'', M_imp), (''TSTB'', M_imp), ill, (''CLRB'', M_imp),
   (''NEG'', M_ind), ill, ill, (''COM'', M_ind),
   (''LSR'', M_ind), ill, (''ROR'', M_ind), (''ASR'', M_ind),
   (''ASL'', M_ind), (''ROL'', M_ind), (''DEC'', M_ind), ill,
   (''INC'', M_ind), (''TST'', M_ind), (''JMP'', M_ind), (''CLR'', M_ind),
   (''NEG'', M_ext), ill, ill, (''COM'', M_ext),
   (''LSR'', M_ext), ill, (''ROR'', M_ext), (''ASR'', M_ext),
   (''ASL'', M_ext), (''ROL'', M_ext), (''DEC'', M_ext), ill,
   (''INC'', M_ext), (''TST'', M_ext), (''JMP'', M_ext), (''CLR'', M_ext),
   (''SUBA'', M_imb), (''CMPA'', M_imb), (''SBCA'', M_imb), (''SUBD'', M_imw),
   (''ANDA'', M_imb), (''BITA'', M_imb), (''LDA'', M_imb), ill,
   (''EORA'', M_imb), (''ADCA'', M_imb), (''ORA'', M_imb), (''ADDA'', M_imb),
   (''CMPX'', M_imw), (''BSR'', M_reb), (''LDX'', M_imw), ill,
   (''SUBA'', M_dir), (''CMPA'', M_dir), (''SBCA'', M_dir), (''SUBD'', M_dir),
   (''ANDA'', M_dir), (''BITA'', M_dir), (''LDA'', M_dir), (''STA'', M_dir),
   (''EORA'', M_dir), (''ADCA'', M_dir), (''ORA'', M_dir), (''ADDA'', M_dir),
   (''CMPX'', M_dir), (''JSR'', M_dir), (''LDX'', M_dir), (''STX'', M_dir),
   (''SUBA'', M_ind), (''CMPA'', M_ind), (''SBCA'', M_ind), (''SUBD'', M_ind),
   (''ANDA'', M_ind), (''BITA'', M_ind), (''LDA'', M_ind), (''STA'', M_ind),
   (''EORA'', M_ind), (''ADCA'', M_ind), (''ORA'', M_ind), (''ADDA'', M_ind),
   (''CMPX'', M_ind), (''JSR'', M_ind), (''LDX'', M_ind), (''STX'', M_ind),
   (''SUBA'', M_ext), (''CMPA'', M_ext), (''SBCA'', M_ext), (''SUBD'', M_ext),
   (''ANDA'', M_ext), (''BITA'', M_ext), (''LDA'', M_ext), (''STA'', M_ext),
   (''EORA'', M_ext), (''ADCA'', M_ext), (''ORA'', M_ext), (''ADDA'', M_ext),
   (''CMPX'', M_ext), (''JSR'', M_ext), (''LDX'', M_ext), (''STX'', M_ext),
   (''SUBB'', M_imb), (''CMPB'', M_imb), (''SBCB'', M_imb), (''ADDD'', M_imw),
   (''ANDB'', M_imb), (''BITB'', M_imb), (''LDB'', M_imb), ill,
   (''EORB'', M_imb), (''ADCB'', M_imb), (''ORB'', M_imb), (''ADDB'', M_imb),
   (''LDD'', M_imw), ill, (''LDU'', M_imw), ill,
   (''SUBB'', M_dir), (''CMPB'', M_dir), (''SBCB'', M_dir), (''ADDD'', M_dir),
   (''ANDB'', M_dir), (''BITB'', M_dir), (''LDB'', M_dir), (''STB'', M_dir),
   (''EORB'', M_dir), (''ADCB'', M_dir), (''ORB'', M_dir), (''ADDB'', M_dir),
   (''LDD'', M_dir), (''STD'', M_dir), (''LDU'', M_dir), (''STU'', M_dir),
   (''SUBB'', M_ind), (''CMPB'', M_ind), (''SBCB'', M_ind), (''ADDD'', M_ind),
   (''ANDB'', M_ind), (''BITB'', M_ind), (''LDB'', M_ind), (''STB'', M_ind),
   (''EORB'', M_ind), (''ADCB'', M_ind), (''ORB'', M_ind), (''ADDB'', M_ind),
   (''LDD'', M_ind), (''STD'', M_ind), (''LDU'', M_ind), (''STU'', M_ind),
   (''SUBB'', M_ext), (''CMPB'', M_ext), (''SBCB'', M_ext), (''ADDD'', M_ext),
   (''ANDB'', M_ext), (''BITB'', M_ext), (''LDB'', M_ext), (''STB'', M_ext),
   (''EORB'', M_ext), (''ADCB'', M_ext), (''ORB'', M_ext), (''ADDB'', M_ext),
   (''LDD'', M_ext), (''STD'', M_ext), (''LDU'', M_ext), (''STU'', M_ext)]"

definition h6309_codes10 :: "(string \<times> addr_mode) list" where
  "h6309_codes10 = [
   ill, ill, ill, ill,
   ill, ill, ill, ill,
   ill, ill, ill, ill,
   ill, ill, ill, ill,
   ill, ill, ill, ill,
   ill, ill, ill, ill,
   ill, ill, ill, ill,
   ill, ill, ill, ill,
   ill, (''LBRN'', M_rew), (''LBHI'', M_rew), (''LBLS'', M_rew),
   (''LBCC'', M_rew), (''LBCS'', M_rew), (''LBNE'', M_rew), (''LBEQ'', M_rew),
   (''LBVC'', M_rew), (''LBVS'', M_rew), (''LBPL'', M_rew), (''LBMI'', M_rew),
   (''LBGE'', M_rew), (''LBLT'', M_rew), (''LBGT'', M_rew), (''LBLE'', M_rew),
   (''ADDR'', M_r1), (''ADCR'', M_r1), (''SUBR'', M_r1), (''SBCR'', M_r1),
   (''ANDR'', M_r1), (''ORR'', M_r1), (''EORR'', M_r1), (''CMPR'', M_r1),
   (''PSHSW'', M_imp), (''PULSW'', M_imp), (''PSHUW'', M_imp), (''PULUW'', M_imp),
   ill, ill, ill, (''SWI2'', M_imp),
   (''NEGD'', M_imp), ill, ill, (''COMD'', M_imp),
   (''LSRD'', M_imp), ill, (''RORD'', M_imp), (''ASRD'', M_imp),
   (''ASLD'', M_imp), (''ROLD'', M_imp), (''DECD'', M_imp), ill,
   (''INCD'', M_imp), (''TSTD'', M_imp), ill, (''CLRD'', M_imp),
   ill, ill, ill, (''COMW'', M_imp),
   (''LSRW'', M_imp), ill, (''RORW'', M_imp), ill,
   ill, (''ROLW'', M_imp), (''DECW'', M_imp), ill,
   (''INCW'', M_imp), (''TSTW'', M_imp), ill, (''CLRW'', M_imp),
   ill, ill, ill, ill,
   ill, ill, ill, ill,
   ill, ill, ill, ill,
   ill, ill, ill, ill,
   ill, ill, ill, ill,
   ill, ill, ill, ill,
   ill, ill, ill, ill,
   ill, ill, ill, ill,
   (''SUBW'', M_imw), (''CMPW'', M_imw), (''SBCD'', M_imw), (''CMPD'', M_imw),
   (''ANDD'', M_imw), (''BITD'', M_imw), (''LDW'', M_imw), ill,
   (''EORD'', M_imw), (''ADCD'', M_imw), (''ORD'', M_imw), (''ADDW'', M_imw),
   (''CMPY'', M_imw), ill, (''LDY'', M_imw), ill,
   (''SUBW'', M_dir), (''CMPW'', M_dir), (''SBCD'', M_dir), (''CMPD'', M_dir),
   (''ANDD'', M_dir), (''BITD'', M_dir), (''LDW'', M_dir), (''STW'', M_dir),
   (''EORD'', M_dir), (''ADCD'', M_dir), (''ORD'', M_dir), (''ADDW'', M_dir),
   (''CMPY'', M_dir), ill, (''LDY'', M_dir), (''STY'', M_dir),
   (''SUBW'', M_ind), (''CMPW'', M_ind), (''SBCD'', M_ind), (''CMPD'', M_ind),
   (''ANDD'', M_ind), (''BITD'', M_ind), (''LDW'', M_ind), (''STW'', M_ind),
   (''EORD'', M_ind), (''ADCD'', M_ind), (''ORD'', M_ind), (''ADDW'', M_ind),
   (''CMPY'', M_ind), ill, (''LDY'', M_ind), (''STY'', M_ind),
   (''SUBW'', M_ext), (''CMPW'', M_ext), (''SBCD'', M_ext), (''CMPD'', M_ext),
   (''ANDD'', M_ext), (''BITD'', M_ext), (''LDW'', M_ext), (''STW'', M_ext),
   (''EORD'', M_ext), (''ADCD'', M_ext), (''ORD'', M_ext), (''ADDW'', M_ext),
   (''CMPY'', M_ext), ill, (''LDY'', M_ext), (''STY'', M_ext),
   ill, ill, ill, ill,
   ill, ill, ill, ill,
   ill, ill, ill, ill,
   ill, ill, (''LDS'', M_imw), ill,
   ill, ill, ill, ill,
   ill, ill, ill, ill,
   ill, ill, ill, ill,
   (''LDQ'', M_dir), (''STQ'', M_dir), (''LDS'', M_dir), (''STS'', M_dir),
   ill, ill, ill, ill,
   ill, ill, ill, ill,
   ill, ill, ill, ill,
   (''LDQ'', M_ind), (''STQ'', M_ind), (''LDS'', M_ind), (''STS'', M_ind),
   ill, ill, ill, ill,
   ill, ill, ill, ill,
   ill, ill, ill, ill,
   (''LDQ'', M_ext), (''STQ'', M_ext), (''LDS'', M_ext), (''STS'', M_ext)]"

definition m6809_codes10 :: "(string \<times> addr_mode) list" where
  "m6809_codes10 = [
   ill, ill, ill, ill,
   ill, ill, ill, ill,
   ill, ill, ill, ill,
   ill, ill, ill, ill,
   ill, ill, ill, ill,
   ill, ill, ill, ill,
   ill, ill, ill, ill,
   ill, ill, ill, ill,
   ill, (''LBRN'', M_rew), (''LBHI'', M_rew), (''LBLS'', M_rew),
   (''LBCC'', M_rew), (''LBCS'', M_rew), (''LBNE'', M_rew), (''LBEQ'', M_rew),
   (''LBVC'', M_rew), (''LBVS'', M_rew), (''LBPL'', M_rew), (''LBMI'', M_rew),
   (''LBGE'', M_rew), (''LBLT'', M_rew), (''LBGT'', M_rew), (''LBLE'', M_rew),
   ill, ill, ill, ill,
   ill, ill, ill, ill,
   ill, ill, ill, ill,
   ill, ill, ill, (''SWI2'', M_imp),
   ill, ill, ill, ill,
   ill, ill, ill, ill,
   ill, ill, ill, ill,
   ill, ill, ill, ill,
   ill, ill, ill, ill,
   ill, ill, ill, ill,
   ill, ill, ill, ill,
   ill, ill, ill, ill,
   ill, ill, ill, ill,
   ill, ill, ill, ill,
   ill, ill, ill, ill,
   ill, ill, ill, ill,
   ill, ill, ill, ill,
   ill, ill, ill, ill,
   ill, ill, ill, ill,
   ill, ill, ill, ill,
   ill, ill, ill, (''CMPD'', M_imw),
   ill, ill, ill, ill,
   ill, ill, ill, ill,
   (''CMPY'', M_imw), ill, (''LDY'', M_imw), ill,
   ill, ill, ill, (''CMPD'', M_dir),
   ill, ill, ill, ill,
   ill, ill, ill, ill,
   (''CMPY'', M_dir), ill, (''LDY'', M_dir), (''STY'', M_dir),
   ill, ill, ill, (''CMPD'', M_ind),
   ill, ill, ill, ill,
   ill, ill, ill, ill,
   (''CMPY'', M_ind), ill, (''LDY'', M_ind), (''STY'', M_ind),
   ill, ill, ill, (''CMPD'', M_ext),
   ill, ill, ill, ill,
   ill, ill, ill, ill,
   (''CMPY'', M_ext), ill, (''LDY'', M_ext), (''STY'', M_ext),
   ill, ill, ill, ill,
   ill, ill, ill, ill,
   ill, ill, ill, ill,
   ill, ill, (''LDS'', M_imw), ill,
   ill, ill, ill, ill,
   ill, ill, ill, ill,
   ill, ill, ill, ill,
   ill, ill, (''LDS'', M_dir), (''STS'', M_dir),
   ill, ill, ill, ill,
   ill, ill, ill, ill,
   ill, ill, ill, ill,
   ill, ill, (''LDS'', M_ind), (''STS'', M_ind),
   ill, ill, ill, ill,
   ill, ill, ill, ill,
   ill, ill, ill, ill,
   ill, ill, (''LDS'', M_ext), (''STS'', M_ext)]"

definition h6309_codes11 :: "(string \<times> addr_mode) list" where
  "h6309_codes11 = [
   ill, ill, ill, ill,
   ill, ill, ill, ill,
   ill, ill, ill, ill,
   ill, ill, ill, ill,
   ill, ill, ill, ill,
   ill, ill, ill, ill,
   ill, ill, ill, ill,
   ill, ill, ill, ill,
   ill, ill, ill, ill,
   ill, ill, ill, ill,
   ill, ill, ill, ill,
   ill, ill, ill, ill,
   (''BAND'', M_bt), (''BIAND'', M_bt), (''BOR'', M_bt), (''BIOR'', M_bt),
   (''BEOR'', M_bt), (''BIEOR'', M_bt), (''LDBT'', M_bt), (''STBT'', M_bt),
   (''TFM'', M_t1), (''TFM'', M_t2), (''TFM'', M_t3), (''TFM'', M_t4),
   (''BITMD'', M_imb), (''LDMD'', M_imb), ill, (''SWI3'', M_imp),
   ill, ill, ill, (''COME'', M_imp),
   ill, ill, ill, ill,
   ill, ill, (''DECE'', M_imp), ill,
   (''INCE'', M_imp), (''TSTE'', M_imp), ill, (''CLRE'', M_imp),
   ill, ill, ill, (''COMF'', M_imp),
   ill, ill, ill, ill,
   ill, ill, (''DECF'', M_imp), ill,
   (''INCF'', M_imp), (''TSTF'', M_imp), ill, (''CLRF'', M_imp),
   ill, ill, ill, ill,
   ill, ill, ill, ill,
   ill, ill, ill, ill,
   ill, ill, ill, ill,
   ill, ill, ill, ill,
   ill, ill, ill, ill,
   ill, ill, ill, ill,
   ill, ill, ill, ill,
   (''SUBE'', M_imb), (''CMPE'', M_imb), ill, (''CMPU'', M_imw),
   ill, ill, (''LDE'', M_imb), ill,
   ill, ill, ill, (''ADDE'', M_imb),
   (''CMPS'', M_imw), (''DIVD'', M_imb), (''DIVQ'', M_imw), (''MULD'', M_imw),
   (''SUBE'', M_dir), (''CMPE'', M_dir), ill, (''CMPU'', M_dir),
   ill, ill, (''LDE'', M_dir), (''STE'', M_dir),
   ill, ill, ill, (''ADDE'', M_dir),
   (''CMPS'', M_dir), (''DIVD'', M_dir), (''DIVQ'', M_dir), (''MULD'', M_dir),
   (''SUBE'', M_ind), (''CMPE'', M_ind), ill, (''CMPU'', M_ind),
   ill, ill, (''LDE'', M_ind), (''STE'', M_ind),
   ill, ill, ill, (''ADDE'', M_ind),
   (''CMPS'', M_ind), (''DIVD'', M_ind), (''DIVQ'', M_ind), (''MULD'', M_ind),
   (''SUBE'', M_ext), (''CMPE'', M_ext), ill, (''CMPU'', M_ext),
   ill, ill, (''LDE'', M_ext), (''STE'', M_ext),
   ill, ill, ill, (''ADDE'', M_ext),
   (''CMPS'', M_ext), (''DIVD'', M_ext), (''DIVQ'', M_ext), (''MULD'', M_ext),
   (''SUBF'', M_imb), (''CMPF'', M_imb), ill, ill,
   ill, ill, (''LDF'', M_imb), ill,
   ill, ill, ill, (''ADDF'', M_imb),
   ill, ill, ill, ill,
   (''SUBF'', M_dir), (''CMPF'', M_dir), ill, ill,
   ill, ill, (''LDF'', M_dir), (''STF'', M_dir),
   ill, ill, ill, (''ADDF'', M_dir),
   ill, ill, ill, ill,
   (''SUBF'', M_ind), (''CMPF'', M_ind), ill, ill,
   ill, ill, (''LDF'', M_ind), (''STF'', M_ind),
   ill, ill, ill, (''ADDF'', M_ind),
   ill, ill, ill, ill,
   (''SUBF'', M_ext), (''CMPF'', M_ext), ill, ill,
   ill, ill, (''LDF'', M_ext), (''STF'', M_ext),
   ill, ill, ill, (''ADDF'', M_ext),
   ill, ill, ill, ill]"

definition m6809_codes11 :: "(string \<times> addr_mode) list" where
  "m6809_codes11 = [
   ill, ill, ill, ill,
   ill, ill, ill, ill,
   ill, ill, ill, ill,
   ill, ill, ill, ill,
   ill, ill, ill, ill,
   ill, ill, ill, ill,
   ill, ill, ill, ill,
   ill, ill, ill, ill,
   ill, ill, ill, ill,
   ill, ill, ill, ill,
   ill, ill, ill, ill,
   ill, ill, ill, ill,
   ill, ill, ill, ill,
   ill, ill, ill, ill,
   ill, ill, ill, ill,
   ill, ill, ill, (''SWI3'', M_imp),
   ill, ill, ill, ill,
   ill, ill, ill, ill,
   ill, ill, ill, ill,
   ill, ill, ill, ill,
   ill, ill, ill, ill,
   ill, ill, ill, ill,
   ill, ill, ill, ill,
   ill, ill, ill, ill,
   ill, ill, ill, ill,
   ill, ill, ill, ill,
   ill, ill, ill, ill,
   ill, ill, ill, ill,
   ill, ill, ill, ill,
   ill, ill, ill, ill,
   ill, ill, ill, ill,
   ill, ill, ill, ill,
   ill, ill, ill, (''CMPU'', M_imw),
   ill, ill, ill, ill,
   ill, ill, ill, ill,
   (''CMPS'', M_imw), ill, ill, ill,
   ill, ill, ill, (''CMPU'', M_dir),
   ill, ill, ill, ill,
   ill, ill, ill, ill,
   (''CMPS'', M_dir), ill, ill, ill,
   ill, ill, ill, (''CMPU'', M_ind),
   ill, ill, ill, ill,
   ill, ill, ill, ill,
   (''CMPS'', M_ind), ill, ill, ill,
   ill, ill, ill, (''CMPU'', M_ext),
   ill, ill, ill, ill,
   ill, ill, ill, ill,
   (''CMPS'', M_ext), ill, ill, ill,
   ill, ill, ill, ill,
   ill, ill, ill, ill,
   ill, ill, ill, ill,
   ill, ill, ill, ill,
   ill, ill, ill, ill,
   ill, ill, ill, ill,
   ill, ill, ill, ill,
   ill, ill, ill, ill,
   ill, ill, ill, ill,
   ill, ill, ill, ill,
   ill, ill, ill, ill,
   ill, ill, ill, ill,
   ill, ill, ill, ill,
   ill, ill, ill, ill,
   ill, ill, ill, ill,
   ill, ill, ill, ill]"

definition h6309_exg_tfr :: "string list" where
  "h6309_exg_tfr =
     [''D'', ''X'', ''Y'', ''U'', ''S'', ''PC'', ''W'', ''V'',
      ''A'', ''B'', ''CC'', ''DP'', ''0'', ''0'', ''E'', ''F'']"

definition m6809_exg_tfr :: "string list" where
  "m6809_exg_tfr =
     [''D'', ''X'', ''Y'', ''U'', ''S'', ''PC'', ''??'', ''??'',
      ''A'', ''B'', ''CC'', ''DP'', ''??'', ''??'', ''??'', ''??'']"

definition bit_r :: "string list" where
  "bit_r = [''CC'', ''A'', ''B'', ''??'']"

definition block_r :: "string list" where
  "block_r = [''D'', ''X'', ''Y'', ''U'', ''S'', ''?'', ''?'', ''?'',
      ''?'', ''?'', ''?'', ''?'', ''?'', ''?'', ''?'', ''?'']"

definition off4 :: "string list" where
  "off4 =
     [''0'', ''1'', ''2'', ''3'', ''4'', ''5'', ''6'', ''7'',
      ''8'', ''9'', ''10'', ''11'', ''12'', ''13'', ''14'', ''15'',
      ''-16'', ''-15'', ''-14'', ''-13'', ''-12'', ''-11'', ''-10'', ''-9'',
      ''-8'', ''-7'', ''-6'', ''-5'', ''-4'', ''-3'', ''-2'', ''-1'']"

definition idx_reg :: "string" where
  "idx_reg = ''XYUS''"

text \<open>The static variables that \<open>d6809_disassemble\<close> and \<open>d6309_disassemble\<close> set.\<close>

record dasm_cfg =
  codes :: "(string \<times> addr_mode) list"
  codes10 :: "(string \<times> addr_mode) list"
  codes11 :: "(string \<times> addr_mode) list"
  exg_tfr :: "string list"
  allow_6309_codes :: bool

definition cfg_6809 :: dasm_cfg where
  "cfg_6809 = \<lparr>codes = m6809_codes, codes10 = m6809_codes10, codes11 = m6809_codes11,
     exg_tfr = m6809_exg_tfr, allow_6309_codes = False\<rparr>"

definition cfg_6309 :: dasm_cfg where
  "cfg_6309 = \<lparr>codes = h6309_codes, codes10 = h6309_codes10, codes11 = h6309_codes11,
     exg_tfr = h6309_exg_tfr, allow_6309_codes = True\<rparr>"

subsection \<open>Operands\<close>

text \<open>\<open>ARGWORD\<close> takes its address as \<open>uint16_t\<close> but adds 1 as an \<open>int\<close>.\<close>

definition ARGWORD :: "(u32 \<Rightarrow> u8) \<Rightarrow> u32 \<Rightarrow> u16" where
  "ARGWORD rd x = (let a = x AND 0xFFFF in
     push_bit 8 (ucast (rd a)) OR ucast (rd (a + 1)))"

abbreviation hex2 :: "u8 \<Rightarrow> string" where
  "hex2 b \<equiv> fmt_02X (unat b)"

abbreviation hex4 :: "u16 \<Rightarrow> string" where
  "hex4 w \<equiv> fmt_04X (unat w)"

text \<open>
  \<open>index_string\<close>: the text of an indexed operand and the address behind it. The
  switch on the low five bits of the post byte comes first, then the whole post
  byte decides.
\<close>

definition index_string_6309 :: "(u32 \<Rightarrow> u8) \<Rightarrow> u8 \<Rightarrow> u32 \<Rightarrow> string \<times> u32" where
  "index_string_6309 rd T PC =
     (if T = 0x8F then ('',W'', PC)
      else if T = 0x90 then (''[,W]'', PC)
      else if T = 0xAF then (''$'' @ hex4 (ARGWORD rd PC) @ '',W'', PC + 2)
      else if T = 0xB0 then (''[$'' @ hex4 (ARGWORD rd PC) @ '',W]'', PC + 2)
      else if T = 0xCF then ('',W++'', PC)
      else if T = 0xD0 then (''[,W++]'', PC)
      else if T = 0xEF then ('',--W'', PC)
      else if T = 0xF0 then (''[,--W]'', PC)
      else (''???'', PC))"

definition index_string_ext :: "bool \<Rightarrow> (u32 \<Rightarrow> u8) \<Rightarrow> u8 \<Rightarrow> string \<Rightarrow> u32 \<Rightarrow> string \<times> u32" where
  "index_string_ext h6309 rd T R PC =
     switch
      [(0x00, ('','' @ R @ ''+'', PC)),
       (0x01, ('','' @ R @ ''++'', PC)),
       (0x02, ('',-'' @ R, PC)),
       (0x03, ('',--'' @ R, PC)),
       (0x04, ('','' @ R, PC)),
       (0x05, (''B,'' @ R, PC)),
       (0x06, (''A,'' @ R, PC)),
       (0x08, (''$'' @ hex2 (rd PC) @ '','' @ R, PC + 1)),
       (0x09, (''$'' @ hex4 (ARGWORD rd PC) @ '','' @ R, PC + 2)),
       (0x0B, (''D,'' @ R, PC)),
       (0x0C, (''$'' @ hex2 (rd PC) @ '',PC'', PC + 1)),
       (0x0D, (''$'' @ hex4 (ARGWORD rd PC) @ '',PC'', PC + 2)),
       (0x11, (''[,'' @ R @ ''++]'', PC)),
       (0x13, (''[,--'' @ R @ '']'', PC)),
       (0x14, (''[,'' @ R @ '']'', PC)),
       (0x15, (''[B,'' @ R @ '']'', PC)),
       (0x16, (''[A,'' @ R @ '']'', PC)),
       (0x18, (''[$'' @ hex2 (rd PC) @ '','' @ R @ '']'', PC + 1)),
       (0x19, (''[$'' @ hex4 (ARGWORD rd PC) @ '','' @ R @ '']'', PC + 2)),
       (0x1B, (''[D,'' @ R @ '']'', PC)),
       (0x1C, (''[$'' @ hex2 (rd PC) @ '',PC]'', PC + 1)),
       (0x1D, (''[$'' @ hex4 (ARGWORD rd PC) @ '',PC]'', PC + 2)),
       (0x07, (if h6309 then ''E,'' @ R else ''???'', PC)),
       (0x17, (if h6309 then ''[E,'' @ R @ '']'' else ''???'', PC)),
       (0x0A, (if h6309 then ''F,'' @ R else ''???'', PC)),
       (0x1A, (if h6309 then ''[F,'' @ R @ '']'' else ''???'', PC)),
       (0x0E, (if h6309 then ''W,'' @ R else ''???'', PC)),
       (0x1E, (if h6309 then ''[W,'' @ R @ '']'' else ''???'', PC))]
      (if T = 0x9F then (''[$'' @ hex4 (ARGWORD rd PC) @ '']'', PC + 2)
       else if h6309 then index_string_6309 rd T PC
       else (''???'', PC))
      (T AND 0x1F)"

definition index_string :: "bool \<Rightarrow> (u32 \<Rightarrow> u8) \<Rightarrow> string \<Rightarrow> u32 \<Rightarrow> string \<times> u32" where
  "index_string h6309 rd buffer pc =
     (let T = rd pc; PC = pc + 1;
          R = [idx_reg ! unat (drop_bit 5 T AND 3)];
          (buf, PC) = (if T AND 0x80 \<noteq> 0 then index_string_ext h6309 rd T R PC
                       else (off4 ! unat (T AND 0x1F) @ '','' @ R, PC))
      in (buffer @ buf, PC))"

text \<open>The register list of \<open>pshs\<close>, \<open>puls\<close>, \<open>pshu\<close> and \<open>pulu\<close>.\<close>

definition stack_list :: "addr_mode \<Rightarrow> u8 \<Rightarrow> string" where
  "stack_list M T =
     butlast ((if T AND 0x80 \<noteq> 0 then ''PC,'' else []) @
       (if T AND 0x40 \<noteq> 0 then (if M = M_r2 then ''U,'' else if M = M_r3 then ''S,'' else []) else []) @
       (if T AND 0x20 \<noteq> 0 then ''Y,'' else []) @
       (if T AND 0x10 \<noteq> 0 then ''X,'' else []) @
       (if T AND 0x08 \<noteq> 0 then ''DP,'' else []) @
       (if T AND 0x04 \<noteq> 0 then ''B,'' else []) @
       (if T AND 0x02 \<noteq> 0 then ''A,'' else []) @
       (if T AND 0x01 \<noteq> 0 then ''CC,'' else []))"

subsection \<open>One instruction\<close>

text \<open>The switch of \<open>Dasm\<close> on the addressing mode: text and next address.\<close>

definition dasm_operand ::
  "dasm_cfg \<Rightarrow> (u32 \<Rightarrow> u8) \<Rightarrow> string \<Rightarrow> addr_mode \<Rightarrow> u32 \<Rightarrow> string \<times> u32" where
  "dasm_operand c rd I M PC =
     (let b = rd PC; w = ARGWORD rd PC; b1 = rd (PC + 1);
          lo = unat (b AND 0xF); hi = unat (drop_bit 4 b)
      in case M of
        M_nom \<Rightarrow> (''Invalid'', PC)
      | M_imp \<Rightarrow> (I, PC)
      | M_imb \<Rightarrow> (I @ '' #$'' @ hex2 b, PC + 1)
      | M_imw \<Rightarrow> (I @ '' #$'' @ hex4 w, PC + 2)
      | M_dir \<Rightarrow> (I @ '' <$'' @ hex2 b, PC + 1)
      | M_ext \<Rightarrow> (I @ '' $'' @ hex4 w, PC + 2)
      | M_ind \<Rightarrow> index_string (allow_6309_codes c) rd (I @ '' '') PC
      | M_reb \<Rightarrow> (I @ '' $'' @ hex4 (ucast (PC + 1 + scast b)), PC + 1)
      | M_rew \<Rightarrow> (I @ '' $'' @ hex4 (w + ucast (PC + 2)), PC + 2)
      | M_r1 \<Rightarrow> (I @ '' '' @ exg_tfr c ! hi @ '','' @ exg_tfr c ! lo, PC + 1)
      | M_r2 \<Rightarrow> (I @ '' '' @ stack_list M_r2 b, PC + 1)
      | M_r3 \<Rightarrow> (I @ '' '' @ stack_list M_r3 b, PC + 1)
      | M_bd \<Rightarrow> (I @ '' #$'' @ hex2 b @ '',<$'' @ hex2 b1, PC + 2)
      | M_be \<Rightarrow> (I @ '' #$'' @ hex2 b @ '',$'' @ hex4 (ARGWORD rd (PC + 1)), PC + 3)
      | M_bt \<Rightarrow> (I @ '' '' @ bit_r ! unat (drop_bit 6 b) @ ''.'' @ dec_str (unat (b AND 7)) @
                 '',<$'' @ hex2 b1 @ ''.'' @ dec_str (unat (drop_bit 3 b AND 7)), PC + 2)
      | M_t1 \<Rightarrow> (I @ '' '' @ block_r ! hi @ ''+,'' @ block_r ! lo @ ''+'', PC + 1)
      | M_t2 \<Rightarrow> (I @ '' '' @ block_r ! hi @ ''-,'' @ block_r ! lo @ ''-'', PC + 1)
      | M_t3 \<Rightarrow> (I @ '' '' @ block_r ! hi @ ''+,'' @ block_r ! lo, PC + 1)
      | M_t4 \<Rightarrow> (I @ '' '' @ block_r ! hi @ '','' @ block_r ! lo @ ''+'', PC + 1)
      | M_iml \<Rightarrow> (I @ '' #$'' @ hex4 w @ hex2 (rd (PC + 2)) @ hex2 (rd (PC + 3)), PC + 4)
      | M_bi \<Rightarrow> index_string (allow_6309_codes c) rd (I @ '' #$'' @ hex2 b @ '','') (PC + 1))"

text \<open>
  \<open>Dasm\<close>: a prefix byte 0x10 or 0x11 selects the second or third table. The
  OS-9 patch of the first is compiled in but its switch \<open>os9_patch\<close> is never set.
\<close>

definition Dasm :: "dasm_cfg \<Rightarrow> (u32 \<Rightarrow> u8) \<Rightarrow> u32 \<Rightarrow> string \<times> u32" where
  "Dasm c rd pc =
     (let T = rd pc;
          ((I, M), PC) =
            (if T = 0x10 then (codes10 c ! unat (rd (pc + 1)), pc + 2)
             else if T = 0x11 then (codes11 c ! unat (rd (pc + 1)), pc + 2)
             else (codes c ! unat T, pc + 1));
          (buffer, PC) = dasm_operand c rd I M PC
      in (buffer, PC - pc))"

definition d6809_disassemble :: "(u32 \<Rightarrow> u8) \<Rightarrow> u32 \<Rightarrow> string \<times> u32" where
  "d6809_disassemble rd pc = Dasm cfg_6809 rd pc"

definition d6309_disassemble :: "(u32 \<Rightarrow> u8) \<Rightarrow> u32 \<Rightarrow> string \<times> u32" where
  "d6309_disassemble rd pc = Dasm cfg_6309 rd pc"

end
