(* ===== verification/Machine.thy ===== *)
theory Machine
  imports Breakpoints Mapfile Disasm
begin

text \<open>
  The state of the 6809 emulator: the static variables of \<open>emulators/e6809.c\<close>,
  the memory and the special locations of \<open>emulators/emu6809.c\<close>, the breakpoint
  and symbol tables, and what has been written to the terminal and the log. The
  record is extensible, so that the system call handler can add its own state;
  every operation below works on any extension of it.
\<close>

datatype irq_state = IRQ_NORMAL | IRQ_SYNC | IRQ_CWAI

record machine =
  reg_x :: u32
  reg_y :: u32
  reg_u :: u32
  reg_s :: u32
  reg_pc :: u16
  reg_a :: u32
  reg_b :: u32
  reg_dp :: u32
  reg_cc :: u32
  irq_status :: irq_state
  cycles :: u32
  write_brkpt :: bool
  ram :: "u16 \<Rightarrow> u8"
  fefcval :: u8
  bp :: brkstate
  maps :: mapstate
  stdout :: string
  stderr :: string
  logfile :: "string option"

text \<open>The static variables before \<open>main\<close> runs: all zero, but for the tables' own
initial values.\<close>

definition power_on :: machine where
  "power_on = \<lparr>reg_x = 0, reg_y = 0, reg_u = 0, reg_s = 0, reg_pc = 0, reg_a = 0, reg_b = 0,
     reg_dp = 0, reg_cc = 0, irq_status = IRQ_NORMAL, cycles = 0, write_brkpt = False,
     ram = (\<lambda>_. 0), fefcval = 0, bp = brk_initial, maps = map_initial,
     stdout = [], stderr = [], logfile = None\<rparr>"

abbreviation FLAG_E :: u32 where "FLAG_E \<equiv> 0x80"
abbreviation FLAG_F :: u32 where "FLAG_F \<equiv> 0x40"
abbreviation FLAG_H :: u32 where "FLAG_H \<equiv> 0x20"
abbreviation FLAG_I :: u32 where "FLAG_I \<equiv> 0x10"
abbreviation FLAG_N :: u32 where "FLAG_N \<equiv> 0x08"
abbreviation FLAG_Z :: u32 where "FLAG_Z \<equiv> 0x04"
abbreviation FLAG_V :: u32 where "FLAG_V \<equiv> 0x02"
abbreviation FLAG_C :: u32 where "FLAG_C \<equiv> 0x01"

subsection \<open>Output\<close>

definition put_stdout :: "string \<Rightarrow> 'z machine_scheme \<Rightarrow> 'z machine_scheme" where
  "put_stdout t s = s\<lparr>stdout := stdout s @ t\<rparr>"

definition put_stderr :: "string \<Rightarrow> 'z machine_scheme \<Rightarrow> 'z machine_scheme" where
  "put_stderr t s = s\<lparr>stderr := stderr s @ t\<rparr>"

subsection \<open>Memory (emu6809.c)\<close>

definition e6809_read8 :: "u32 \<Rightarrow> 'z machine_scheme \<Rightarrow> u8" where
  "e6809_read8 addr s = ram s (ucast addr)"

definition e6809_read8_debug :: "u32 \<Rightarrow> 'z machine_scheme \<Rightarrow> u8" where
  "e6809_read8_debug addr s =
     (if addr < 0xFE00 \<or> addr \<ge> 0xFF00 then ram s (ucast addr) else 0xFF)"

text \<open>The 16-bit value printed by a write to 0xFEFD, as the code makes it signed.\<close>

definition fefd_value :: "u8 \<Rightarrow> u8 \<Rightarrow> int" where
  "fefd_value hi lo =
     (let x = uint ((push_bit 8 (ucast hi) OR ucast lo) :: u32)
      in if x > 0x8000 then x - 0x10000 else x)"

definition e6809_write8 :: "u32 \<Rightarrow> u8 \<Rightarrow> 'z machine_scheme \<Rightarrow> ('z machine_scheme, unit) res" where
  "e6809_write8 addr val s =
     (if addr = 0xFEFF then
        (if val = 0 then Inl (Exit 0, s)
         else Inl (Exit 1, put_stderr (''***FAIL '' @ dec_str (unat val) @ newline) s))
      else if addr = 0xFEFE then ok (put_stdout [char_of (unat val)] s)
      else if addr = 0xFEFD then ok (put_stdout (fmt_d (fefd_value (fefcval s) val) @ newline) s)
      else if addr = 0xFEFC then ok (s\<lparr>fefcval := val\<rparr>)
      else ok (s\<lparr>ram := (ram s)(ucast addr := val)\<rparr>))"

subsection \<open>Breakpoints of the running machine\<close>

text \<open>\<open>is_breakpoint\<close> as called by the processor: it may consume the ignored address.\<close>

definition check_brk :: "u32 \<Rightarrow> brkpt_nums \<Rightarrow> 'z machine_scheme \<Rightarrow> bool \<times> 'z machine_scheme" where
  "check_brk addr ty s = (let (hit, b) = is_breakpoint addr ty (bp s) in (hit, s\<lparr>bp := b\<rparr>))"

subsection \<open>Condition codes (e6809.c)\<close>

definition get_cc :: "u32 \<Rightarrow> 'z machine_scheme \<Rightarrow> u32" where
  "get_cc flag s = (reg_cc s div flag) AND 1"

definition set_cc :: "u32 \<Rightarrow> u32 \<Rightarrow> 'z machine_scheme \<Rightarrow> 'z machine_scheme" where
  "set_cc flag value s = s\<lparr>reg_cc := (reg_cc s AND NOT flag) OR (value * flag)\<rparr>"

lemma set_cc_fields [simp]:
  "reg_x (set_cc f v s) = reg_x s"
  "reg_y (set_cc f v s) = reg_y s"
  "reg_u (set_cc f v s) = reg_u s"
  "reg_s (set_cc f v s) = reg_s s"
  "reg_pc (set_cc f v s) = reg_pc s"
  "reg_a (set_cc f v s) = reg_a s"
  "reg_b (set_cc f v s) = reg_b s"
  "reg_dp (set_cc f v s) = reg_dp s"
  "irq_status (set_cc f v s) = irq_status s"
  "cycles (set_cc f v s) = cycles s"
  "write_brkpt (set_cc f v s) = write_brkpt s"
  "ram (set_cc f v s) = ram s"
  "fefcval (set_cc f v s) = fefcval s"
  "bp (set_cc f v s) = bp s"
  "maps (set_cc f v s) = maps s"
  "stdout (set_cc f v s) = stdout s"
  "stderr (set_cc f v s) = stderr s"
  "logfile (set_cc f v s) = logfile s"
  "machine.more (set_cc f v s) = machine.more s"
  by (simp_all add: set_cc_def)

definition test_c :: "u32 \<Rightarrow> u32 \<Rightarrow> u32 \<Rightarrow> u32 \<Rightarrow> u32" where
  "test_c i0 i1 r sub =
     (let flag = (i0 OR i1) AND NOT r;
          flag = flag OR (i0 AND i1);
          flag = drop_bit 7 flag AND 1
      in flag XOR sub)"

definition test_n :: "u32 \<Rightarrow> u32" where
  "test_n r = drop_bit 7 r AND 1"

definition test_z8 :: "u32 \<Rightarrow> u32" where
  "test_z8 r =
     (let flag = NOT r;
          flag = drop_bit 4 flag AND (flag AND 0xF);
          flag = drop_bit 2 flag AND (flag AND 0x3);
          flag = drop_bit 1 flag AND (flag AND 0x1)
      in flag)"

definition test_z16 :: "u32 \<Rightarrow> u32" where
  "test_z16 r =
     (let flag = NOT r;
          flag = drop_bit 8 flag AND (flag AND 0xFF);
          flag = drop_bit 4 flag AND (flag AND 0xF);
          flag = drop_bit 2 flag AND (flag AND 0x3);
          flag = drop_bit 1 flag AND (flag AND 0x1)
      in flag)"

definition test_v :: "u32 \<Rightarrow> u32 \<Rightarrow> u32 \<Rightarrow> u32" where
  "test_v i0 i1 r =
     (let flag = NOT (i0 XOR i1);
          flag = flag AND (i0 XOR r)
      in drop_bit 7 flag AND 1)"

subsection \<open>Registers and memory access (e6809.c)\<close>

definition get_reg_d :: "'z machine_scheme \<Rightarrow> u32" where
  "get_reg_d s = push_bit 8 (reg_a s) OR (reg_b s AND 0xFF)"

definition set_reg_d :: "u32 \<Rightarrow> 'z machine_scheme \<Rightarrow> 'z machine_scheme" where
  "set_reg_d value s = s\<lparr>reg_a := drop_bit 8 value, reg_b := value\<rparr>"

definition read8 :: "u32 \<Rightarrow> 'z machine_scheme \<Rightarrow> u32" where
  "read8 address s = ucast (e6809_read8 (address AND 0xFFFF) s)"

definition write8 :: "u32 \<Rightarrow> u32 \<Rightarrow> 'z machine_scheme \<Rightarrow> ('z machine_scheme, unit) res" where
  "write8 address data s =
     (let address = address AND 0xFFFF
      in bindr (e6809_write8 address (ucast data) s) (\<lambda>_ s.
           let (hit, s) = check_brk address BRK_WRITE s
           in if hit
              then ok (put_stdout (''Write at $'' @ fmt_04X (unat address) @ newline)
                        (s\<lparr>write_brkpt := True\<rparr>))
              else ok s))"

definition read16 :: "u32 \<Rightarrow> 'z machine_scheme \<Rightarrow> u32" where
  "read16 address s =
     (let datahi = read8 address s; datalo = read8 (address + 1) s
      in push_bit 8 datahi OR datalo)"

definition write16 :: "u32 \<Rightarrow> u32 \<Rightarrow> 'z machine_scheme \<Rightarrow> ('z machine_scheme, unit) res" where
  "write16 address data s =
     bindr (write8 address (drop_bit 8 data) s) (\<lambda>_. write8 (address + 1) data)"

text \<open>
  The pointers \<open>rptr_xyus[r]\<close>, \<open>&reg_s\<close> and \<open>&reg_u\<close> name one of the four
  16-bit registers.
\<close>

datatype xyus = X | Y | U | S

definition rptr_xyus :: "u32 \<Rightarrow> xyus" where
  "rptr_xyus r = [X, Y, U, S] ! unat r"

fun get_xyus :: "xyus \<Rightarrow> 'z machine_scheme \<Rightarrow> u32" where
  "get_xyus X s = reg_x s"
| "get_xyus Y s = reg_y s"
| "get_xyus U s = reg_u s"
| "get_xyus S s = reg_s s"

fun set_xyus :: "xyus \<Rightarrow> u32 \<Rightarrow> 'z machine_scheme \<Rightarrow> 'z machine_scheme" where
  "set_xyus X v s = s\<lparr>reg_x := v\<rparr>"
| "set_xyus Y v s = s\<lparr>reg_y := v\<rparr>"
| "set_xyus U v s = s\<lparr>reg_u := v\<rparr>"
| "set_xyus S v s = s\<lparr>reg_s := v\<rparr>"

definition push8 :: "xyus \<Rightarrow> u32 \<Rightarrow> 'z machine_scheme \<Rightarrow> ('z machine_scheme, unit) res" where
  "push8 sp data s =
     (let s = set_xyus sp (get_xyus sp s - 1) s in write8 (get_xyus sp s) data s)"

definition pull8 :: "xyus \<Rightarrow> 'z machine_scheme \<Rightarrow> u32 \<times> 'z machine_scheme" where
  "pull8 sp s =
     (let data = read8 (get_xyus sp s) s in (data, set_xyus sp (get_xyus sp s + 1) s))"

definition push16 :: "xyus \<Rightarrow> u32 \<Rightarrow> 'z machine_scheme \<Rightarrow> ('z machine_scheme, unit) res" where
  "push16 sp data s = bindr (push8 sp data s) (\<lambda>_. push8 sp (drop_bit 8 data))"

definition pull16 :: "xyus \<Rightarrow> 'z machine_scheme \<Rightarrow> u32 \<times> 'z machine_scheme" where
  "pull16 sp s =
     (let (datahi, s) = pull8 sp s; (datalo, s) = pull8 sp s
      in (push_bit 8 datahi OR datalo, s))"

definition pc_read8 :: "'z machine_scheme \<Rightarrow> u32 \<times> 'z machine_scheme" where
  "pc_read8 s = (read8 (ucast (reg_pc s)) s, s\<lparr>reg_pc := reg_pc s + 1\<rparr>)"

definition pc_read16 :: "'z machine_scheme \<Rightarrow> u32 \<times> 'z machine_scheme" where
  "pc_read16 s = (read16 (ucast (reg_pc s)) s, s\<lparr>reg_pc := reg_pc s + 2\<rparr>)"

definition sign_extend :: "u32 \<Rightarrow> u32" where
  "sign_extend data = (NOT (data AND 0x80) + 1) OR (data AND 0xFF)"

definition add_cycles :: "u32 \<Rightarrow> 'z machine_scheme \<Rightarrow> 'z machine_scheme" where
  "add_cycles n s = s\<lparr>cycles := cycles s + n\<rparr>"

lemma add_cycles_fields [simp]:
  "reg_x (add_cycles n s) = reg_x s"
  "reg_y (add_cycles n s) = reg_y s"
  "reg_u (add_cycles n s) = reg_u s"
  "reg_s (add_cycles n s) = reg_s s"
  "reg_pc (add_cycles n s) = reg_pc s"
  "reg_a (add_cycles n s) = reg_a s"
  "reg_b (add_cycles n s) = reg_b s"
  "reg_dp (add_cycles n s) = reg_dp s"
  "reg_cc (add_cycles n s) = reg_cc s"
  "irq_status (add_cycles n s) = irq_status s"
  "write_brkpt (add_cycles n s) = write_brkpt s"
  "ram (add_cycles n s) = ram s"
  "fefcval (add_cycles n s) = fefcval s"
  "bp (add_cycles n s) = bp s"
  "maps (add_cycles n s) = maps s"
  "stdout (add_cycles n s) = stdout s"
  "stderr (add_cycles n s) = stderr s"
  "logfile (add_cycles n s) = logfile s"
  "machine.more (add_cycles n s) = machine.more s"
  by (simp_all add: add_cycles_def)

text \<open>\<open>printf(...); exit(1)\<close>.\<close>

definition die :: "string \<Rightarrow> 'z machine_scheme \<Rightarrow> ('z machine_scheme, 'a) res" where
  "die msg s = Inl (Exit 1, put_stdout (msg @ newline) s)"

subsection \<open>Effective addresses (e6809.c)\<close>

definition ea_direct :: "'z machine_scheme \<Rightarrow> ('z machine_scheme, u32) res" where
  "ea_direct s = (let (b, s) = pc_read8 s in Inr (push_bit 8 (reg_dp s) OR b, s))"

definition ea_extended :: "'z machine_scheme \<Rightarrow> ('z machine_scheme, u32) res" where
  "ea_extended s = Inr (pc_read16 s)"

text \<open>
  The indexed modes. The switch labels with bit 7 set depend, but for 0x9F, on
  the low five bits of the post byte only: the labels of one case are the four
  post bytes that differ in the register field.
\<close>

definition ea_indexed_7 :: "u32 \<Rightarrow> xyus \<Rightarrow> 'z machine_scheme \<Rightarrow> u32 \<times> 'z machine_scheme" where
  "ea_indexed_7 op r s =
     (if op AND 0x10 = 0
      then (get_xyus r s + (op AND 0xF), add_cycles 1 s)
      else (get_xyus r s + (op AND 0xF) - 0x10, add_cycles 1 s))"

definition ea_indexed_modes ::
  "u32 \<Rightarrow> xyus \<Rightarrow> (u32 \<times> ('z machine_scheme \<Rightarrow> ('z machine_scheme, u32) res)) list" where
  "ea_indexed_modes op r =
     (let inc = (\<lambda>s. Inr (get_xyus r s,
                   add_cycles (2 + (op AND 1)) (set_xyus r (get_xyus r s + (1 + (op AND 1))) s)));
          inc_ind = (\<lambda>s. Inr (read16 (get_xyus r s) s,
                   add_cycles (5 + (op AND 1)) (set_xyus r (get_xyus r s + (1 + (op AND 1))) s)));
          dec = (\<lambda>s. let s = set_xyus r (get_xyus r s - (1 + (op AND 1))) s
                   in Inr (get_xyus r s, add_cycles (2 + (op AND 1)) s));
          dec_ind = (\<lambda>s. let s = set_xyus r (get_xyus r s - (1 + (op AND 1))) s
                   in Inr (read16 (get_xyus r s) s, add_cycles (5 + (op AND 1)) s))
      in
      [(0x80, inc), (0x81, inc),
       (0x90, inc_ind), (0x91, inc_ind),
       (0x82, dec), (0x83, dec),
       (0x92, dec_ind), (0x93, dec_ind),
       (0x84, \<lambda>s. Inr (get_xyus r s, s)),
       (0x94, \<lambda>s. Inr (read16 (get_xyus r s) s, add_cycles 3 s)),
       (0x85, \<lambda>s. Inr (get_xyus r s + sign_extend (reg_b s), add_cycles 1 s)),
       (0x95, \<lambda>s. Inr (read16 (get_xyus r s + sign_extend (reg_b s)) s, add_cycles 4 s)),
       (0x86, \<lambda>s. Inr (get_xyus r s + sign_extend (reg_a s), add_cycles 1 s)),
       (0x96, \<lambda>s. Inr (read16 (get_xyus r s + sign_extend (reg_a s)) s, add_cycles 4 s)),
       (0x88, \<lambda>s. let (b, s) = pc_read8 s in Inr (get_xyus r s + sign_extend b, add_cycles 1 s)),
       (0x98, \<lambda>s. let (b, s) = pc_read8 s
               in Inr (read16 (get_xyus r s + sign_extend b) s, add_cycles 4 s)),
       (0x89, \<lambda>s. let (w, s) = pc_read16 s in Inr (get_xyus r s + w, add_cycles 4 s)),
       (0x99, \<lambda>s. let (w, s) = pc_read16 s in Inr (read16 (get_xyus r s + w) s, add_cycles 7 s)),
       (0x8B, \<lambda>s. Inr (get_xyus r s + get_reg_d s, add_cycles 4 s)),
       (0x9B, \<lambda>s. Inr (read16 (get_xyus r s + get_reg_d s) s, add_cycles 7 s)),
       (0x8C, \<lambda>s. let (b, s) = pc_read8 s
               in Inr (ucast (reg_pc s) + sign_extend b, add_cycles 1 s)),
       (0x9C, \<lambda>s. let (b, s) = pc_read8 s
               in Inr (read16 (ucast (reg_pc s) + sign_extend b) s, add_cycles 4 s)),
       (0x8D, \<lambda>s. let (w, s) = pc_read16 s in Inr (ucast (reg_pc s) + w, add_cycles 5 s)),
       (0x9D, \<lambda>s. let (w, s) = pc_read16 s
               in Inr (read16 (ucast (reg_pc s) + w) s, add_cycles 8 s))])"

definition ea_indexed :: "'z machine_scheme \<Rightarrow> ('z machine_scheme, u32) res" where
  "ea_indexed s =
     (let (op, s) = pc_read8 s;
          r = rptr_xyus (drop_bit 5 op AND 3)
      in if op AND 0x80 = 0 then Inr (ea_indexed_7 op r s)
         else if op = 0x9F
         then (let (w, s) = pc_read16 s in Inr (read16 w s, add_cycles 5 s))
         else switch (ea_indexed_modes op r) (die ''undefined post-byte'') (op AND 0x9F) s)"

end
