(* ===== verification/Alu.thy ===== *)
theory Alu
  imports Machine
begin

text \<open>
  The arithmetic and logic helpers \<open>inst_*\<close> of \<open>emulators/e6809.c\<close>, with the
  order in which they set the condition codes, and their meaning on 8-bit and
  16-bit operands: results, carry, overflow, zero and negative.
\<close>

definition inst_neg :: "u32 \<Rightarrow> 'z machine_scheme \<Rightarrow> u32 \<times> 'z machine_scheme" where
  "inst_neg data s =
     (let i0 = 0; i1 = NOT data; r = i0 + i1 + 1;
          s = set_cc FLAG_H (test_c (push_bit 4 i0) (push_bit 4 i1) (push_bit 4 r) 0) s;
          s = set_cc FLAG_N (test_n r) s;
          s = set_cc FLAG_Z (test_z8 r) s;
          s = set_cc FLAG_V (test_v i0 i1 r) s;
          s = set_cc FLAG_C (test_c i0 i1 r 1) s
      in (r, s))"

definition inst_com :: "u32 \<Rightarrow> 'z machine_scheme \<Rightarrow> u32 \<times> 'z machine_scheme" where
  "inst_com data s =
     (let r = NOT data;
          s = set_cc FLAG_N (test_n r) s;
          s = set_cc FLAG_Z (test_z8 r) s;
          s = set_cc FLAG_V 0 s;
          s = set_cc FLAG_C 1 s
      in (r, s))"

definition inst_lsr :: "u32 \<Rightarrow> 'z machine_scheme \<Rightarrow> u32 \<times> 'z machine_scheme" where
  "inst_lsr data s =
     (let r = drop_bit 1 data AND 0x7F;
          s = set_cc FLAG_N 0 s;
          s = set_cc FLAG_Z (test_z8 r) s;
          s = set_cc FLAG_C (data AND 1) s
      in (r, s))"

definition inst_ror :: "u32 \<Rightarrow> 'z machine_scheme \<Rightarrow> u32 \<times> 'z machine_scheme" where
  "inst_ror data s =
     (let c = get_cc FLAG_C s;
          r = (drop_bit 1 data AND 0x7F) OR push_bit 7 c;
          s = set_cc FLAG_N (test_n r) s;
          s = set_cc FLAG_Z (test_z8 r) s;
          s = set_cc FLAG_C (data AND 1) s
      in (r, s))"

definition inst_asr :: "u32 \<Rightarrow> 'z machine_scheme \<Rightarrow> u32 \<times> 'z machine_scheme" where
  "inst_asr data s =
     (let r = (drop_bit 1 data AND 0x7F) OR (data AND 0x80);
          s = set_cc FLAG_N (test_n r) s;
          s = set_cc FLAG_Z (test_z8 r) s;
          s = set_cc FLAG_C (data AND 1) s
      in (r, s))"

definition inst_asl :: "u32 \<Rightarrow> 'z machine_scheme \<Rightarrow> u32 \<times> 'z machine_scheme" where
  "inst_asl data s =
     (let i0 = data; i1 = data; r = i0 + i1;
          s = set_cc FLAG_H (test_c (push_bit 4 i0) (push_bit 4 i1) (push_bit 4 r) 0) s;
          s = set_cc FLAG_N (test_n r) s;
          s = set_cc FLAG_Z (test_z8 r) s;
          s = set_cc FLAG_V (test_v i0 i1 r) s;
          s = set_cc FLAG_C (test_c i0 i1 r 0) s
      in (r, s))"

definition inst_rol :: "u32 \<Rightarrow> 'z machine_scheme \<Rightarrow> u32 \<times> 'z machine_scheme" where
  "inst_rol data s =
     (let i0 = data; i1 = data; c = get_cc FLAG_C s; r = i0 + i1 + c;
          s = set_cc FLAG_N (test_n r) s;
          s = set_cc FLAG_Z (test_z8 r) s;
          s = set_cc FLAG_V (test_v i0 i1 r) s;
          s = set_cc FLAG_C (test_c i0 i1 r 0) s
      in (r, s))"

definition inst_dec :: "u32 \<Rightarrow> 'z machine_scheme \<Rightarrow> u32 \<times> 'z machine_scheme" where
  "inst_dec data s =
     (let i0 = data; i1 = 0xFF; r = i0 + i1;
          s = set_cc FLAG_N (test_n r) s;
          s = set_cc FLAG_Z (test_z8 r) s;
          s = set_cc FLAG_V (test_v i0 i1 r) s
      in (r, s))"

definition inst_inc :: "u32 \<Rightarrow> 'z machine_scheme \<Rightarrow> u32 \<times> 'z machine_scheme" where
  "inst_inc data s =
     (let i0 = data; i1 = 1; r = i0 + i1;
          s = set_cc FLAG_N (test_n r) s;
          s = set_cc FLAG_Z (test_z8 r) s;
          s = set_cc FLAG_V (test_v i0 i1 r) s
      in (r, s))"

definition inst_tst8 :: "u32 \<Rightarrow> 'z machine_scheme \<Rightarrow> 'z machine_scheme" where
  "inst_tst8 data s =
     (let s = set_cc FLAG_N (test_n data) s;
          s = set_cc FLAG_Z (test_z8 data) s
      in set_cc FLAG_V 0 s)"

definition inst_tst16 :: "u32 \<Rightarrow> 'z machine_scheme \<Rightarrow> 'z machine_scheme" where
  "inst_tst16 data s =
     (let s = set_cc FLAG_N (test_n (drop_bit 8 data)) s;
          s = set_cc FLAG_Z (test_z16 data) s
      in set_cc FLAG_V 0 s)"

definition inst_clr :: "'z machine_scheme \<Rightarrow> 'z machine_scheme" where
  "inst_clr s =
     (let s = set_cc FLAG_N 0 s;
          s = set_cc FLAG_Z 1 s;
          s = set_cc FLAG_V 0 s
      in set_cc FLAG_C 0 s)"

definition inst_sub8 :: "u32 \<Rightarrow> u32 \<Rightarrow> 'z machine_scheme \<Rightarrow> u32 \<times> 'z machine_scheme" where
  "inst_sub8 data0 data1 s =
     (let i0 = data0; i1 = NOT data1; r = i0 + i1 + 1;
          s = set_cc FLAG_H (test_c (push_bit 4 i0) (push_bit 4 i1) (push_bit 4 r) 0) s;
          s = set_cc FLAG_N (test_n r) s;
          s = set_cc FLAG_Z (test_z8 r) s;
          s = set_cc FLAG_V (test_v i0 i1 r) s;
          s = set_cc FLAG_C (test_c i0 i1 r 1) s
      in (r, s))"

definition inst_sbc :: "u32 \<Rightarrow> u32 \<Rightarrow> 'z machine_scheme \<Rightarrow> u32 \<times> 'z machine_scheme" where
  "inst_sbc data0 data1 s =
     (let i0 = data0; i1 = NOT data1; c = 1 - get_cc FLAG_C s; r = i0 + i1 + c;
          s = set_cc FLAG_H (test_c (push_bit 4 i0) (push_bit 4 i1) (push_bit 4 r) 0) s;
          s = set_cc FLAG_N (test_n r) s;
          s = set_cc FLAG_Z (test_z8 r) s;
          s = set_cc FLAG_V (test_v i0 i1 r) s;
          s = set_cc FLAG_C (test_c i0 i1 r 1) s
      in (r, s))"

definition inst_and :: "u32 \<Rightarrow> u32 \<Rightarrow> 'z machine_scheme \<Rightarrow> u32 \<times> 'z machine_scheme" where
  "inst_and data0 data1 s = (let r = data0 AND data1 in (r, inst_tst8 r s))"

definition inst_eor :: "u32 \<Rightarrow> u32 \<Rightarrow> 'z machine_scheme \<Rightarrow> u32 \<times> 'z machine_scheme" where
  "inst_eor data0 data1 s = (let r = data0 XOR data1 in (r, inst_tst8 r s))"

definition inst_adc :: "u32 \<Rightarrow> u32 \<Rightarrow> 'z machine_scheme \<Rightarrow> u32 \<times> 'z machine_scheme" where
  "inst_adc data0 data1 s =
     (let i0 = data0; i1 = data1; c = get_cc FLAG_C s; r = i0 + i1 + c;
          s = set_cc FLAG_H (test_c (push_bit 4 i0) (push_bit 4 i1) (push_bit 4 r) 0) s;
          s = set_cc FLAG_N (test_n r) s;
          s = set_cc FLAG_Z (test_z8 r) s;
          s = set_cc FLAG_V (test_v i0 i1 r) s;
          s = set_cc FLAG_C (test_c i0 i1 r 0) s
      in (r, s))"

definition inst_or :: "u32 \<Rightarrow> u32 \<Rightarrow> 'z machine_scheme \<Rightarrow> u32 \<times> 'z machine_scheme" where
  "inst_or data0 data1 s = (let r = data0 OR data1 in (r, inst_tst8 r s))"

definition inst_add8 :: "u32 \<Rightarrow> u32 \<Rightarrow> 'z machine_scheme \<Rightarrow> u32 \<times> 'z machine_scheme" where
  "inst_add8 data0 data1 s =
     (let i0 = data0; i1 = data1; r = i0 + i1;
          s = set_cc FLAG_H (test_c (push_bit 4 i0) (push_bit 4 i1) (push_bit 4 r) 0) s;
          s = set_cc FLAG_N (test_n r) s;
          s = set_cc FLAG_Z (test_z8 r) s;
          s = set_cc FLAG_V (test_v i0 i1 r) s;
          s = set_cc FLAG_C (test_c i0 i1 r 0) s
      in (r, s))"

definition inst_add16 :: "u32 \<Rightarrow> u32 \<Rightarrow> 'z machine_scheme \<Rightarrow> u32 \<times> 'z machine_scheme" where
  "inst_add16 data0 data1 s =
     (let i0 = data0; i1 = data1; r = i0 + i1;
          s = set_cc FLAG_N (test_n (drop_bit 8 r)) s;
          s = set_cc FLAG_Z (test_z16 r) s;
          s = set_cc FLAG_V (test_v (drop_bit 8 i0) (drop_bit 8 i1) (drop_bit 8 r)) s;
          s = set_cc FLAG_C (test_c (drop_bit 8 i0) (drop_bit 8 i1) (drop_bit 8 r) 0) s
      in (r, s))"

definition inst_sub16 :: "u32 \<Rightarrow> u32 \<Rightarrow> 'z machine_scheme \<Rightarrow> u32 \<times> 'z machine_scheme" where
  "inst_sub16 data0 data1 s =
     (let i0 = data0; i1 = NOT data1; r = i0 + i1 + 1;
          s = set_cc FLAG_N (test_n (drop_bit 8 r)) s;
          s = set_cc FLAG_Z (test_z16 r) s;
          s = set_cc FLAG_V (test_v (drop_bit 8 i0) (drop_bit 8 i1) (drop_bit 8 r)) s;
          s = set_cc FLAG_C (test_c (drop_bit 8 i0) (drop_bit 8 i1) (drop_bit 8 r) 1) s
      in (r, s))"

text \<open>\<open>daa\<close>: the body of case 0x19, with the correction it computes in \<open>i1\<close>.\<close>

definition daa_adjust :: "'z machine_scheme \<Rightarrow> u32" where
  "daa_adjust s =
     (let i1 = 0;
          i1 = (if reg_a s AND 0x0F > 0x09 \<or> get_cc FLAG_H s = 1 then i1 OR 0x06 else i1);
          i1 = (if reg_a s AND 0xF0 > 0x80 \<and> reg_a s AND 0x0F > 0x09 then i1 OR 0x60 else i1);
          i1 = (if reg_a s AND 0xF0 > 0x90 \<or> get_cc FLAG_C s = 1 then i1 OR 0x60 else i1)
      in i1)"

definition inst_daa :: "'z machine_scheme \<Rightarrow> 'z machine_scheme" where
  "inst_daa s =
     (let i0 = reg_a s; i1 = daa_adjust s;
          s = s\<lparr>reg_a := i0 + i1\<rparr>;
          s = set_cc FLAG_N (test_n (reg_a s)) s;
          s = set_cc FLAG_Z (test_z8 (reg_a s)) s;
          s = set_cc FLAG_V 0 s;
          s = set_cc FLAG_C (test_c i0 i1 (reg_a s) 0) s
      in add_cycles 2 s)"

text \<open>\<open>mul\<close> and \<open>sex\<close>: the bodies of cases 0x3d and 0x1d.\<close>

definition inst_mul :: "'z machine_scheme \<Rightarrow> 'z machine_scheme" where
  "inst_mul s =
     (let r = (reg_a s AND 0xFF) * (reg_b s AND 0xFF);
          s = set_reg_d r s;
          s = set_cc FLAG_Z (test_z16 r) s;
          s = set_cc FLAG_C (drop_bit 7 r AND 1) s
      in add_cycles 11 s)"

definition inst_sex :: "'z machine_scheme \<Rightarrow> 'z machine_scheme" where
  "inst_sex s =
     (let s = set_reg_d (sign_extend (reg_b s)) s;
          s = set_cc FLAG_N (test_n (reg_a s)) s;
          s = set_cc FLAG_Z (test_z16 (get_reg_d s)) s
      in add_cycles 2 s)"

end
