(* ===== verification/Instructions.thy ===== *)
theory Instructions
  imports Alu
begin

text \<open>
  The instructions of \<open>emulators/e6809.c\<close> that move control or whole register
  sets: branches, pushes and pulls, exchanges and transfers, and the bodies that
  several switch cases of \<open>e6809_sstep\<close> share, as combinators of an effective
  address, a helper and a cycle count.
\<close>

subsection \<open>Branches\<close>

definition inst_bra8 :: "u32 \<Rightarrow> u32 \<Rightarrow> 'z machine_scheme \<Rightarrow> 'z machine_scheme" where
  "inst_bra8 test op s =
     (let (offset, s) = pc_read8 s;
          mask = (test XOR (op AND 1)) - 1;
          s = s\<lparr>reg_pc := reg_pc s + ucast (sign_extend offset AND mask)\<rparr>
      in add_cycles 3 s)"

definition inst_bra16 :: "u32 \<Rightarrow> u32 \<Rightarrow> 'z machine_scheme \<Rightarrow> 'z machine_scheme" where
  "inst_bra16 test op s =
     (let (offset, s) = pc_read16 s;
          mask = (test XOR (op AND 1)) - 1;
          s = s\<lparr>reg_pc := reg_pc s + ucast (offset AND mask)\<rparr>
      in add_cycles (5 - mask) s)"

subsection \<open>Pushes and pulls\<close>

text \<open>One guarded push: \<open>if (op & bit) { push...; *cycles += n; }\<close>.\<close>

definition push_if ::
  "bool \<Rightarrow> ('z machine_scheme \<Rightarrow> ('z machine_scheme, unit) res) \<Rightarrow> u32 \<Rightarrow>
   'z machine_scheme \<Rightarrow> ('z machine_scheme, unit) res" where
  "push_if b f n s = (if b then bindr (f s) (\<lambda>_ s. ok (add_cycles n s)) else ok s)"

definition inst_psh :: "u32 \<Rightarrow> xyus \<Rightarrow> u32 \<Rightarrow> 'z machine_scheme \<Rightarrow> ('z machine_scheme, unit) res" where
  "inst_psh op sp data s =
     bindr (push_if (op AND 0x80 \<noteq> 0) (\<lambda>s. push16 sp (ucast (reg_pc s)) s) 2 s) (\<lambda>_ s.
     bindr (push_if (op AND 0x40 \<noteq> 0) (\<lambda>s. push16 sp data s) 2 s) (\<lambda>_ s.
     bindr (push_if (op AND 0x20 \<noteq> 0) (\<lambda>s. push16 sp (reg_y s) s) 2 s) (\<lambda>_ s.
     bindr (push_if (op AND 0x10 \<noteq> 0) (\<lambda>s. push16 sp (reg_x s) s) 2 s) (\<lambda>_ s.
     bindr (push_if (op AND 0x08 \<noteq> 0) (\<lambda>s. push8 sp (reg_dp s) s) 1 s) (\<lambda>_ s.
     bindr (push_if (op AND 0x04 \<noteq> 0) (\<lambda>s. push8 sp (reg_b s) s) 1 s) (\<lambda>_ s.
     bindr (push_if (op AND 0x02 \<noteq> 0) (\<lambda>s. push8 sp (reg_a s) s) 1 s) (\<lambda>_ s.
     push_if (op AND 0x01 \<noteq> 0) (\<lambda>s. push8 sp (reg_cc s) s) 1 s)))))))"

definition pull_if ::
  "bool \<Rightarrow> ('z machine_scheme \<Rightarrow> 'z machine_scheme) \<Rightarrow> u32 \<Rightarrow> 'z machine_scheme \<Rightarrow> 'z machine_scheme" where
  "pull_if b f n s = (if b then add_cycles n (f s) else s)"

definition inst_pul :: "u32 \<Rightarrow> xyus \<Rightarrow> xyus \<Rightarrow> 'z machine_scheme \<Rightarrow> 'z machine_scheme" where
  "inst_pul op sp osp s =
     (let s = pull_if (op AND 0x01 \<noteq> 0) (\<lambda>s. let (v, s) = pull8 sp s in s\<lparr>reg_cc := v\<rparr>) 1 s;
          s = pull_if (op AND 0x02 \<noteq> 0) (\<lambda>s. let (v, s) = pull8 sp s in s\<lparr>reg_a := v\<rparr>) 1 s;
          s = pull_if (op AND 0x04 \<noteq> 0) (\<lambda>s. let (v, s) = pull8 sp s in s\<lparr>reg_b := v\<rparr>) 1 s;
          s = pull_if (op AND 0x08 \<noteq> 0) (\<lambda>s. let (v, s) = pull8 sp s in s\<lparr>reg_dp := v\<rparr>) 1 s;
          s = pull_if (op AND 0x10 \<noteq> 0) (\<lambda>s. let (v, s) = pull16 sp s in s\<lparr>reg_x := v\<rparr>) 2 s;
          s = pull_if (op AND 0x20 \<noteq> 0) (\<lambda>s. let (v, s) = pull16 sp s in s\<lparr>reg_y := v\<rparr>) 2 s;
          s = pull_if (op AND 0x40 \<noteq> 0) (\<lambda>s. let (v, s) = pull16 sp s in set_xyus osp v s) 2 s
      in pull_if (op AND 0x80 \<noteq> 0) (\<lambda>s. let (v, s) = pull16 sp s in s\<lparr>reg_pc := ucast v\<rparr>) 2 s)"

subsection \<open>Exchange and transfer\<close>

definition exgtfr_die :: "u32 \<Rightarrow> 'z machine_scheme \<Rightarrow> ('z machine_scheme, 'a) res" where
  "exgtfr_die reg s = die (''illegal exgtfr reg '' @ fmt_x (unat reg)) s"

definition exgtfr_read :: "u32 \<Rightarrow> 'z machine_scheme \<Rightarrow> ('z machine_scheme, u32) res" where
  "exgtfr_read reg =
     switch
      [(0x0, \<lambda>s. Inr (get_reg_d s, s)),
       (0x1, \<lambda>s. Inr (reg_x s, s)),
       (0x2, \<lambda>s. Inr (reg_y s, s)),
       (0x3, \<lambda>s. Inr (reg_u s, s)),
       (0x4, \<lambda>s. Inr (reg_s s, s)),
       (0x5, \<lambda>s. Inr (ucast (reg_pc s), s)),
       (0x8, \<lambda>s. Inr (0xFF00 OR reg_a s, s)),
       (0x9, \<lambda>s. Inr (0xFF00 OR reg_b s, s)),
       (0xA, \<lambda>s. Inr (0xFF00 OR reg_cc s, s)),
       (0xB, \<lambda>s. Inr (0xFF00 OR reg_dp s, s))]
      (exgtfr_die reg) reg"

definition exgtfr_write :: "u32 \<Rightarrow> u32 \<Rightarrow> 'z machine_scheme \<Rightarrow> ('z machine_scheme, unit) res" where
  "exgtfr_write reg data =
     switch
      [(0x0, \<lambda>s. ok (set_reg_d data s)),
       (0x1, \<lambda>s. ok (s\<lparr>reg_x := data\<rparr>)),
       (0x2, \<lambda>s. ok (s\<lparr>reg_y := data\<rparr>)),
       (0x3, \<lambda>s. ok (s\<lparr>reg_u := data\<rparr>)),
       (0x4, \<lambda>s. ok (s\<lparr>reg_s := data\<rparr>)),
       (0x5, \<lambda>s. ok (s\<lparr>reg_pc := ucast data\<rparr>)),
       (0x8, \<lambda>s. ok (s\<lparr>reg_a := data\<rparr>)),
       (0x9, \<lambda>s. ok (s\<lparr>reg_b := data\<rparr>)),
       (0xA, \<lambda>s. ok (s\<lparr>reg_cc := data\<rparr>)),
       (0xB, \<lambda>s. ok (s\<lparr>reg_dp := data\<rparr>))]
      (exgtfr_die reg) reg"

definition inst_exg :: "'z machine_scheme \<Rightarrow> ('z machine_scheme, unit) res" where
  "inst_exg s =
     (let (op, s) = pc_read8 s in
      bindr (exgtfr_read (op AND 0xF) s) (\<lambda>tmp s.
      bindr (exgtfr_read (drop_bit 4 op) s) (\<lambda>v s.
      bindr (exgtfr_write (op AND 0xF) v s) (\<lambda>_.
      exgtfr_write (drop_bit 4 op) tmp))))"

definition inst_tfr :: "'z machine_scheme \<Rightarrow> ('z machine_scheme, unit) res" where
  "inst_tfr s =
     (let (op, s) = pc_read8 s in
      bindr (exgtfr_read (drop_bit 4 op) s) (exgtfr_write (op AND 0xF)))"

subsection \<open>Bodies that switch cases share\<close>

type_synonym 'z eaf = "'z machine_scheme \<Rightarrow> ('z machine_scheme, u32) res"
type_synonym 'z body = "'z machine_scheme \<Rightarrow> ('z machine_scheme, unit) res"

text \<open>\<open>ea = ...; r = inst(read8(ea)); write8(ea, r); cycles += n;\<close>\<close>

definition rmw :: "'z eaf \<Rightarrow> (u32 \<Rightarrow> 'z machine_scheme \<Rightarrow> u32 \<times> 'z machine_scheme) \<Rightarrow> u32 \<Rightarrow> 'z body" where
  "rmw ea inst n s =
     bindr (ea s) (\<lambda>a s. let (r, s) = inst (read8 a s) s in
     bindr (write8 a r s) (\<lambda>_ s. ok (add_cycles n s)))"

text \<open>\<open>reg_a = inst(reg_a); cycles += n;\<close> and the same for B.\<close>

definition on_a :: "(u32 \<Rightarrow> 'z machine_scheme \<Rightarrow> u32 \<times> 'z machine_scheme) \<Rightarrow> u32 \<Rightarrow> 'z body" where
  "on_a inst n s = (let (r, s) = inst (reg_a s) s in ok (add_cycles n (s\<lparr>reg_a := r\<rparr>)))"

definition on_b :: "(u32 \<Rightarrow> 'z machine_scheme \<Rightarrow> u32 \<times> 'z machine_scheme) \<Rightarrow> u32 \<Rightarrow> 'z body" where
  "on_b inst n s = (let (r, s) = inst (reg_b s) s in ok (add_cycles n (s\<lparr>reg_b := r\<rparr>)))"

text \<open>\<open>ea = ...; inst_tst8(read8(ea)); cycles += n;\<close>\<close>

definition tst_mem :: "'z eaf \<Rightarrow> u32 \<Rightarrow> 'z body" where
  "tst_mem ea n s = bindr (ea s) (\<lambda>a s. ok (add_cycles n (inst_tst8 (read8 a s) s)))"

text \<open>\<open>reg_pc = ea; cycles += n;\<close> and \<open>push16(&reg_s, reg_pc); reg_pc = ea;\<close>\<close>

definition jmp_ea :: "'z eaf \<Rightarrow> u32 \<Rightarrow> 'z body" where
  "jmp_ea ea n s = bindr (ea s) (\<lambda>a s. ok (add_cycles n (s\<lparr>reg_pc := ucast a\<rparr>)))"

definition jsr_ea :: "'z eaf \<Rightarrow> u32 \<Rightarrow> 'z body" where
  "jsr_ea ea n s =
     bindr (ea s) (\<lambda>a s.
     bindr (push16 S (ucast (reg_pc s)) s) (\<lambda>_ s. ok (add_cycles n (s\<lparr>reg_pc := ucast a\<rparr>))))"

text \<open>\<open>ea = ...; inst_clr(); write8(ea, 0); cycles += n;\<close>\<close>

definition clr_mem :: "'z eaf \<Rightarrow> u32 \<Rightarrow> 'z body" where
  "clr_mem ea n s =
     bindr (ea s) (\<lambda>a s. bindr (write8 a 0 (inst_clr s)) (\<lambda>_ s. ok (add_cycles n s)))"

text \<open>Operands: an immediate byte or word, or the byte or word at an address.\<close>

definition imm8 :: "'z eaf" where "imm8 s = Inr (pc_read8 s)"

definition imm16 :: "'z eaf" where "imm16 s = Inr (pc_read16 s)"

definition mem8 :: "'z eaf \<Rightarrow> 'z eaf" where
  "mem8 ea s = bindr (ea s) (\<lambda>a s. Inr (read8 a s, s))"

definition mem16 :: "'z eaf \<Rightarrow> 'z eaf" where
  "mem16 ea s = bindr (ea s) (\<lambda>a s. Inr (read16 a s, s))"

text \<open>\<open>reg_a = inst(reg_a, operand)\<close>; a comparison drops the result.\<close>

definition alu_a ::
  "(u32 \<Rightarrow> u32 \<Rightarrow> 'z machine_scheme \<Rightarrow> u32 \<times> 'z machine_scheme) \<Rightarrow> 'z eaf \<Rightarrow> u32 \<Rightarrow> 'z body" where
  "alu_a inst opd n s =
     bindr (opd s) (\<lambda>v s. let (r, s) = inst (reg_a s) v s in ok (add_cycles n (s\<lparr>reg_a := r\<rparr>)))"

definition alu_b ::
  "(u32 \<Rightarrow> u32 \<Rightarrow> 'z machine_scheme \<Rightarrow> u32 \<times> 'z machine_scheme) \<Rightarrow> 'z eaf \<Rightarrow> u32 \<Rightarrow> 'z body" where
  "alu_b inst opd n s =
     bindr (opd s) (\<lambda>v s. let (r, s) = inst (reg_b s) v s in ok (add_cycles n (s\<lparr>reg_b := r\<rparr>)))"

definition alu_d ::
  "(u32 \<Rightarrow> u32 \<Rightarrow> 'z machine_scheme \<Rightarrow> u32 \<times> 'z machine_scheme) \<Rightarrow> 'z eaf \<Rightarrow> u32 \<Rightarrow> 'z body" where
  "alu_d inst opd n s =
     bindr (opd s) (\<lambda>v s. let (r, s) = inst (get_reg_d s) v s in ok (add_cycles n (set_reg_d r s)))"

definition cmp_with ::
  "('z machine_scheme \<Rightarrow> u32) \<Rightarrow> (u32 \<Rightarrow> u32 \<Rightarrow> 'z machine_scheme \<Rightarrow> u32 \<times> 'z machine_scheme) \<Rightarrow>
   'z eaf \<Rightarrow> u32 \<Rightarrow> 'z body" where
  "cmp_with reg inst opd n s = bindr (opd s) (\<lambda>v s. ok (add_cycles n (snd (inst (reg s) v s))))"

text \<open>Loads: \<open>reg = operand; inst_tst(reg);\<close> stores: \<open>write(ea, reg); inst_tst(reg);\<close>\<close>

definition ld_a :: "'z eaf \<Rightarrow> u32 \<Rightarrow> 'z body" where
  "ld_a opd n s = bindr (opd s) (\<lambda>v s.
     let s = s\<lparr>reg_a := v\<rparr> in ok (add_cycles n (inst_tst8 (reg_a s) s)))"

definition ld_b :: "'z eaf \<Rightarrow> u32 \<Rightarrow> 'z body" where
  "ld_b opd n s = bindr (opd s) (\<lambda>v s.
     let s = s\<lparr>reg_b := v\<rparr> in ok (add_cycles n (inst_tst8 (reg_b s) s)))"

definition ld_d :: "'z eaf \<Rightarrow> u32 \<Rightarrow> 'z body" where
  "ld_d opd n s = bindr (opd s) (\<lambda>v s.
     let s = set_reg_d v s in ok (add_cycles n (inst_tst16 (get_reg_d s) s)))"

definition ld_r :: "xyus \<Rightarrow> 'z eaf \<Rightarrow> u32 \<Rightarrow> 'z body" where
  "ld_r r opd n s = bindr (opd s) (\<lambda>v s.
     let s = set_xyus r v s in ok (add_cycles n (inst_tst16 (get_xyus r s) s)))"

definition st8 :: "('z machine_scheme \<Rightarrow> u32) \<Rightarrow> 'z eaf \<Rightarrow> u32 \<Rightarrow> 'z body" where
  "st8 reg ea n s = bindr (ea s) (\<lambda>a s.
     bindr (write8 a (reg s) s) (\<lambda>_ s. ok (add_cycles n (inst_tst8 (reg s) s))))"

definition st16 :: "('z machine_scheme \<Rightarrow> u32) \<Rightarrow> 'z eaf \<Rightarrow> u32 \<Rightarrow> 'z body" where
  "st16 reg ea n s = bindr (ea s) (\<lambda>a s.
     bindr (write16 a (reg s) s) (\<lambda>_ s. ok (add_cycles n (inst_tst16 (reg s) s))))"

text \<open>\<open>leax\<close> and \<open>leay\<close> set Z, \<open>leas\<close> and \<open>leau\<close> do not.\<close>

definition lea_z :: "xyus \<Rightarrow> 'z body" where
  "lea_z r s = bindr (ea_indexed s) (\<lambda>a s.
     let s = set_xyus r a s
     in ok (add_cycles 4 (set_cc FLAG_Z (test_z16 (get_xyus r s)) s)))"

definition lea :: "xyus \<Rightarrow> 'z body" where
  "lea r s = bindr (ea_indexed s) (\<lambda>a s. ok (add_cycles 4 (set_xyus r a s)))"

text \<open>\<open>pshs\<close>, \<open>pshu\<close>, \<open>puls\<close>, \<open>pulu\<close>.\<close>

definition psh_op :: "xyus \<Rightarrow> xyus \<Rightarrow> 'z body" where
  "psh_op sp osp s =
     (let (op, s) = pc_read8 s
      in bindr (inst_psh op sp (get_xyus osp s) s) (\<lambda>_ s. ok (add_cycles 5 s)))"

definition pul_op :: "xyus \<Rightarrow> xyus \<Rightarrow> 'z body" where
  "pul_op sp osp s =
     (let (op, s) = pc_read8 s in ok (add_cycles 5 (inst_pul op sp osp s)))"

end
