(* ===== verification/Step.thy ===== *)
theory Step
  imports Instructions
begin

text \<open>
  \<open>e6809_sstep\<close> of \<open>emulators/e6809.c\<close>: interrupts, the switch over the three
  opcode pages as tables of case bodies, and one whole step with the breakpoint
  check before it and the execution log around it. The monitor and the system
  call handler are arguments: the processor calls them, other theories define
  them.
\<close>

subsection \<open>Reset and state display\<close>

definition e6809_reset :: "u16 \<Rightarrow> u16 \<Rightarrow> 'z machine_scheme \<Rightarrow> 'z machine_scheme" where
  "e6809_reset sp pc s =
     s\<lparr>reg_x := 0, reg_y := 0, reg_u := 0, reg_s := ucast sp, reg_a := 0, reg_b := 0,
       reg_dp := 0, reg_cc := FLAG_I OR FLAG_F, irq_status := IRQ_NORMAL, reg_pc := pc\<rparr>"

definition e6809_get_pc :: "'z machine_scheme \<Rightarrow> u16" where
  "e6809_get_pc s = reg_pc s"

definition e6809_set_pc :: "u16 \<Rightarrow> 'z machine_scheme \<Rightarrow> 'z machine_scheme" where
  "e6809_set_pc pc s = s\<lparr>reg_pc := pc\<rparr>"

text \<open>\<open>struct reg6809\<close>, the registers as the rest of the emulator sees them.\<close>

record reg6809 =
  r_pc :: u16
  r_x :: u16
  r_y :: u16
  r_u :: u16
  r_s :: u16
  r_a :: u8
  r_b :: u8
  r_dp :: u8
  r_cc :: u8

definition e6809_get_regs :: "'z machine_scheme \<Rightarrow> reg6809" where
  "e6809_get_regs s =
     \<lparr>r_pc = reg_pc s, r_x = ucast (reg_x s), r_y = ucast (reg_y s), r_u = ucast (reg_u s),
      r_s = ucast (reg_s s), r_a = ucast (reg_a s), r_b = ucast (reg_b s),
      r_dp = ucast (reg_dp s), r_cc = ucast (reg_cc s)\<rparr>"

fun flag_chars :: "u32 \<Rightarrow> string \<Rightarrow> string" where
  "flag_chars cc [] = []"
| "flag_chars cc (p # ps) =
     (if cc AND 0x80 \<noteq> 0 then p else CHR ''-'') # flag_chars (push_bit 1 cc) ps"

definition e6809_get_flagstr :: "'z machine_scheme \<Rightarrow> string" where
  "e6809_get_flagstr s = flag_chars (reg_cc s) ''EFHINZVC''"

definition e6809_get_statestr :: "'z machine_scheme \<Rightarrow> string" where
  "e6809_get_statestr s =
     e6809_get_flagstr s @ '' '' @ fmt_02X (unat (reg_a s AND 0xFF)) @ '':'' @
     fmt_02X (unat (reg_b s AND 0xFF)) @ '' '' @ fmt_04X (unat (reg_x s AND 0xFFFF)) @ '' '' @
     fmt_04X (unat (reg_y s AND 0xFFFF)) @ '' '' @ fmt_04X (unat (reg_u s AND 0xFFFF)) @ '' '' @
     fmt_04X (unat (reg_s s AND 0xFFFF))"

subsection \<open>Interrupts and system instructions\<close>

text \<open>\<open>swi2\<close> and \<open>swi3\<close>: stack everything and load the vector.\<close>

definition swi_vector :: "u32 \<Rightarrow> 'z body" where
  "swi_vector vec s =
     (let s = set_cc FLAG_E 1 s
      in bindr (inst_psh 0xFF S (reg_u s) s) (\<lambda>_ s.
           ok (add_cycles 8 (s\<lparr>reg_pc := ucast (read16 vec s)\<rparr>))))"

definition inst_rti :: "'z body" where
  "inst_rti s =
     (let s = (if get_cc FLAG_E s \<noteq> 0 then inst_pul 0xFF S U s else inst_pul 0x81 S U s)
      in ok (add_cycles 3 s))"

text \<open>
  A system call takes the call number and returns the result, whether it is 32
  bits wide, and \<open>errno\<close>.
\<close>

type_synonym 'z syscall =
  "u32 \<Rightarrow> 'z machine_scheme \<Rightarrow> ('z machine_scheme, u32 \<times> bool \<times> u32) res"

definition inst_swi :: "'z syscall \<Rightarrow> 'z body" where
  "inst_swi dosys s =
     bindr (dosys (get_reg_d s) s) (\<lambda>(result, longresult, errno) s.
       let s = s\<lparr>reg_x := result AND 0xFFFF\<rparr>;
           s = set_reg_d errno s;
           s = (if longresult then s\<lparr>reg_y := drop_bit 16 result AND 0xFFFF\<rparr> else s)
       in ok (add_cycles 7 s))"

definition inst_cwai :: "'z body" where
  "inst_cwai s =
     (let (v, s) = pc_read8 s;
          s = s\<lparr>reg_cc := reg_cc s AND v\<rparr>;
          s = set_cc FLAG_E 1 s
      in bindr (inst_psh 0xFF S (reg_u s) s) (\<lambda>_ s.
           ok (add_cycles 4 (s\<lparr>irq_status := IRQ_CWAI\<rparr>))))"

text \<open>The fast and the normal interrupt request.\<close>

definition take_firq :: "'z body" where
  "take_firq s =
     (if get_cc FLAG_F s = 0 then
        bindr (if irq_status s \<noteq> IRQ_CWAI
               then (let s = set_cc FLAG_E 0 s in inst_psh 0x81 S (reg_u s) s)
               else ok s) (\<lambda>_ s.
          let s = set_cc FLAG_I 1 s;
              s = set_cc FLAG_F 1 s
          in ok (add_cycles 7 (s\<lparr>reg_pc := ucast (read16 0xFFF6 s), irq_status := IRQ_NORMAL\<rparr>)))
      else if irq_status s = IRQ_SYNC then ok (s\<lparr>irq_status := IRQ_NORMAL\<rparr>)
      else ok s)"

definition take_irq :: "'z body" where
  "take_irq s =
     (if get_cc FLAG_I s = 0 then
        bindr (if irq_status s \<noteq> IRQ_CWAI
               then (let s = set_cc FLAG_E 1 s in inst_psh 0xFF S (reg_u s) s)
               else ok s) (\<lambda>_ s.
          let s = set_cc FLAG_I 1 s
          in ok (add_cycles 7 (s\<lparr>reg_pc := ucast (read16 0xFFF8 s), irq_status := IRQ_NORMAL\<rparr>)))
      else if irq_status s = IRQ_SYNC then ok (s\<lparr>irq_status := IRQ_NORMAL\<rparr>)
      else ok s)"

subsection \<open>The switch over the opcodes\<close>

text \<open>\<open>neg\<close>, \<open>com\<close>, \<open>lsr\<close>, \<open>ror\<close>\<close>

definition page0_neg_ror :: "(u32 \<times> 'z body) list" where
  "page0_neg_ror =
     [(0x00, rmw ea_direct inst_neg 6),
      (0x40, on_a inst_neg 2),
      (0x50, on_b inst_neg 2),
      (0x60, rmw ea_indexed inst_neg 6),
      (0x70, rmw ea_extended inst_neg 7),
      (0x03, rmw ea_direct inst_com 6),
      (0x43, on_a inst_com 2),
      (0x53, on_b inst_com 2),
      (0x63, rmw ea_indexed inst_com 6),
      (0x73, rmw ea_extended inst_com 7),
      (0x04, rmw ea_direct inst_lsr 6),
      (0x44, on_a inst_lsr 2),
      (0x54, on_b inst_lsr 2),
      (0x64, rmw ea_indexed inst_lsr 6),
      (0x74, rmw ea_extended inst_lsr 7),
      (0x06, rmw ea_direct inst_ror 6),
      (0x46, on_a inst_ror 2),
      (0x56, on_b inst_ror 2),
      (0x66, rmw ea_indexed inst_ror 6),
      (0x76, rmw ea_extended inst_ror 7)]"

text \<open>\<open>asr\<close>, \<open>asl\<close>, \<open>rol\<close>, \<open>dec\<close>\<close>

definition page0_asr_dec :: "(u32 \<times> 'z body) list" where
  "page0_asr_dec =
     [(0x07, rmw ea_direct inst_asr 6),
      (0x47, on_a inst_asr 2),
      (0x57, on_b inst_asr 2),
      (0x67, rmw ea_indexed inst_asr 6),
      (0x77, rmw ea_extended inst_asr 7),
      (0x08, rmw ea_direct inst_asl 6),
      (0x48, on_a inst_asl 2),
      (0x58, on_b inst_asl 2),
      (0x68, rmw ea_indexed inst_asl 6),
      (0x78, rmw ea_extended inst_asl 7),
      (0x09, rmw ea_direct inst_rol 6),
      (0x49, on_a inst_rol 2),
      (0x59, on_b inst_rol 2),
      (0x69, rmw ea_indexed inst_rol 6),
      (0x79, rmw ea_extended inst_rol 7),
      (0x0A, rmw ea_direct inst_dec 6),
      (0x4A, on_a inst_dec 2),
      (0x5A, on_b inst_dec 2),
      (0x6A, rmw ea_indexed inst_dec 6),
      (0x7A, rmw ea_extended inst_dec 7)]"

text \<open>\<open>inc\<close>, \<open>tst\<close>, \<open>jmp\<close>, \<open>clr\<close>\<close>

definition page0_inc_clr :: "(u32 \<times> 'z body) list" where
  "page0_inc_clr =
     [(0x0C, rmw ea_direct inst_inc 6),
      (0x4C, on_a inst_inc 2),
      (0x5C, on_b inst_inc 2),
      (0x6C, rmw ea_indexed inst_inc 6),
      (0x7C, rmw ea_extended inst_inc 7),
      (0x0D, tst_mem ea_direct 6),
      (0x4D, \<lambda>s. ok (add_cycles 2 (inst_tst8 (reg_a s) s))),
      (0x5D, \<lambda>s. ok (add_cycles 2 (inst_tst8 (reg_b s) s))),
      (0x6D, tst_mem ea_indexed 6),
      (0x7D, tst_mem ea_extended 7),
      (0x0E, jmp_ea ea_direct 3),
      (0x6E, jmp_ea ea_indexed 3),
      (0x7E, jmp_ea ea_extended 4),
      (0x0F, clr_mem ea_direct 6),
      (0x4F, \<lambda>s. ok (add_cycles 2 ((inst_clr s)\<lparr>reg_a := 0\<rparr>))),
      (0x5F, \<lambda>s. ok (add_cycles 2 ((inst_clr s)\<lparr>reg_b := 0\<rparr>))),
      (0x6F, clr_mem ea_indexed 6),
      (0x7F, clr_mem ea_extended 7)]"

text \<open>\<open>suba\<close>, \<open>subb\<close>, \<open>cmpa\<close>, \<open>cmpb\<close>\<close>

definition page0_sub_cmp :: "(u32 \<times> 'z body) list" where
  "page0_sub_cmp =
     [(0x80, alu_a inst_sub8 imm8 2),
      (0x90, alu_a inst_sub8 (mem8 ea_direct) 4),
      (0xA0, alu_a inst_sub8 (mem8 ea_indexed) 4),
      (0xB0, alu_a inst_sub8 (mem8 ea_extended) 5),
      (0xC0, alu_b inst_sub8 imm8 2),
      (0xD0, alu_b inst_sub8 (mem8 ea_direct) 4),
      (0xE0, alu_b inst_sub8 (mem8 ea_indexed) 4),
      (0xF0, alu_b inst_sub8 (mem8 ea_extended) 5),
      (0x81, cmp_with reg_a inst_sub8 imm8 2),
      (0x91, cmp_with reg_a inst_sub8 (mem8 ea_direct) 4),
      (0xA1, cmp_with reg_a inst_sub8 (mem8 ea_indexed) 4),
      (0xB1, cmp_with reg_a inst_sub8 (mem8 ea_extended) 5),
      (0xC1, cmp_with reg_b inst_sub8 imm8 2),
      (0xD1, cmp_with reg_b inst_sub8 (mem8 ea_direct) 4),
      (0xE1, cmp_with reg_b inst_sub8 (mem8 ea_indexed) 4),
      (0xF1, cmp_with reg_b inst_sub8 (mem8 ea_extended) 5)]"

text \<open>\<open>sbca\<close>, \<open>sbcb\<close>, \<open>anda\<close>, \<open>andb\<close>, \<open>bita\<close>, \<open>bitb\<close>\<close>

definition page0_sbc_bit :: "(u32 \<times> 'z body) list" where
  "page0_sbc_bit =
     [(0x82, alu_a inst_sbc imm8 2),
      (0x92, alu_a inst_sbc (mem8 ea_direct) 4),
      (0xA2, alu_a inst_sbc (mem8 ea_indexed) 4),
      (0xB2, alu_a inst_sbc (mem8 ea_extended) 5),
      (0xC2, alu_b inst_sbc imm8 2),
      (0xD2, alu_b inst_sbc (mem8 ea_direct) 4),
      (0xE2, alu_b inst_sbc (mem8 ea_indexed) 4),
      (0xF2, alu_b inst_sbc (mem8 ea_extended) 5),
      (0x84, alu_a inst_and imm8 2),
      (0x94, alu_a inst_and (mem8 ea_direct) 4),
      (0xA4, alu_a inst_and (mem8 ea_indexed) 4),
      (0xB4, alu_a inst_and (mem8 ea_extended) 5),
      (0xC4, alu_b inst_and imm8 2),
      (0xD4, alu_b inst_and (mem8 ea_direct) 4),
      (0xE4, alu_b inst_and (mem8 ea_indexed) 4),
      (0xF4, alu_b inst_and (mem8 ea_extended) 5),
      (0x85, cmp_with reg_a inst_and imm8 2),
      (0x95, cmp_with reg_a inst_and (mem8 ea_direct) 4),
      (0xA5, cmp_with reg_a inst_and (mem8 ea_indexed) 4),
      (0xB5, cmp_with reg_a inst_and (mem8 ea_extended) 5),
      (0xC5, cmp_with reg_b inst_and imm8 2),
      (0xD5, cmp_with reg_b inst_and (mem8 ea_direct) 4),
      (0xE5, cmp_with reg_b inst_and (mem8 ea_indexed) 4),
      (0xF5, cmp_with reg_b inst_and (mem8 ea_extended) 5)]"

text \<open>\<open>lda\<close>, \<open>ldb\<close>, \<open>sta\<close>, \<open>stb\<close>\<close>

definition page0_ld_st8 :: "(u32 \<times> 'z body) list" where
  "page0_ld_st8 =
     [(0x86, ld_a imm8 2),
      (0x96, ld_a (mem8 ea_direct) 4),
      (0xA6, ld_a (mem8 ea_indexed) 4),
      (0xB6, ld_a (mem8 ea_extended) 5),
      (0xC6, ld_b imm8 2),
      (0xD6, ld_b (mem8 ea_direct) 4),
      (0xE6, ld_b (mem8 ea_indexed) 4),
      (0xF6, ld_b (mem8 ea_extended) 5),
      (0x97, st8 reg_a ea_direct 4),
      (0xA7, st8 reg_a ea_indexed 4),
      (0xB7, st8 reg_a ea_extended 5),
      (0xD7, st8 reg_b ea_direct 4),
      (0xE7, st8 reg_b ea_indexed 4),
      (0xF7, st8 reg_b ea_extended 5)]"

text \<open>\<open>eora\<close>, \<open>eorb\<close>, \<open>adca\<close>, \<open>adcb\<close>, \<open>ora\<close>, \<open>orb\<close>\<close>

definition page0_eor_or :: "(u32 \<times> 'z body) list" where
  "page0_eor_or =
     [(0x88, alu_a inst_eor imm8 2),
      (0x98, alu_a inst_eor (mem8 ea_direct) 4),
      (0xA8, alu_a inst_eor (mem8 ea_indexed) 4),
      (0xB8, alu_a inst_eor (mem8 ea_extended) 5),
      (0xC8, alu_b inst_eor imm8 2),
      (0xD8, alu_b inst_eor (mem8 ea_direct) 4),
      (0xE8, alu_b inst_eor (mem8 ea_indexed) 4),
      (0xF8, alu_b inst_eor (mem8 ea_extended) 5),
      (0x89, alu_a inst_adc imm8 2),
      (0x99, alu_a inst_adc (mem8 ea_direct) 4),
      (0xA9, alu_a inst_adc (mem8 ea_indexed) 4),
      (0xB9, alu_a inst_adc (mem8 ea_extended) 5),
      (0xC9, alu_b inst_adc imm8 2),
      (0xD9, alu_b inst_adc (mem8 ea_direct) 4),
      (0xE9, alu_b inst_adc (mem8 ea_indexed) 4),
      (0xF9, alu_b inst_adc (mem8 ea_extended) 5),
      (0x8A, alu_a inst_or imm8 2),
      (0x9A, alu_a inst_or (mem8 ea_direct) 4),
      (0xAA, alu_a inst_or (mem8 ea_indexed) 4),
      (0xBA, alu_a inst_or (mem8 ea_extended) 5),
      (0xCA, alu_b inst_or imm8 2),
      (0xDA, alu_b inst_or (mem8 ea_direct) 4),
      (0xEA, alu_b inst_or (mem8 ea_indexed) 4),
      (0xFA, alu_b inst_or (mem8 ea_extended) 5)]"

text \<open>\<open>adda\<close>, \<open>addb\<close>, \<open>subd\<close>, \<open>cmpx\<close>\<close>

definition page0_add_cmpx :: "(u32 \<times> 'z body) list" where
  "page0_add_cmpx =
     [(0x8B, alu_a inst_add8 imm8 2),
      (0x9B, alu_a inst_add8 (mem8 ea_direct) 4),
      (0xAB, alu_a inst_add8 (mem8 ea_indexed) 4),
      (0xBB, alu_a inst_add8 (mem8 ea_extended) 5),
      (0xCB, alu_b inst_add8 imm8 2),
      (0xDB, alu_b inst_add8 (mem8 ea_direct) 4),
      (0xEB, alu_b inst_add8 (mem8 ea_indexed) 4),
      (0xFB, alu_b inst_add8 (mem8 ea_extended) 5),
      (0x83, alu_d inst_sub16 imm16 4),
      (0x93, alu_d inst_sub16 (mem16 ea_direct) 6),
      (0xA3, alu_d inst_sub16 (mem16 ea_indexed) 6),
      (0xB3, alu_d inst_sub16 (mem16 ea_extended) 7),
      (0x8C, cmp_with reg_x inst_sub16 imm16 4),
      (0x9C, cmp_with reg_x inst_sub16 (mem16 ea_direct) 6),
      (0xAC, cmp_with reg_x inst_sub16 (mem16 ea_indexed) 6),
      (0xBC, cmp_with reg_x inst_sub16 (mem16 ea_extended) 7)]"

text \<open>\<open>ldx\<close>, \<open>ldu\<close>, \<open>stx\<close>, \<open>stu\<close>\<close>

definition page0_ldx_stu :: "(u32 \<times> 'z body) list" where
  "page0_ldx_stu =
     [(0x8E, ld_r X imm16 3),
      (0x9E, ld_r X (mem16 ea_direct) 5),
      (0xAE, ld_r X (mem16 ea_indexed) 5),
      (0xBE, ld_r X (mem16 ea_extended) 6),
      (0xCE, ld_r U imm16 3),
      (0xDE, ld_r U (mem16 ea_direct) 5),
      (0xEE, ld_r U (mem16 ea_indexed) 5),
      (0xFE, ld_r U (mem16 ea_extended) 6),
      (0x9F, st16 reg_x ea_direct 5),
      (0xAF, st16 reg_x ea_indexed 5),
      (0xBF, st16 reg_x ea_extended 6),
      (0xDF, st16 reg_u ea_direct 5),
      (0xEF, st16 reg_u ea_indexed 5),
      (0xFF, st16 reg_u ea_extended 6)]"

text \<open>\<open>addd\<close>, \<open>ldd\<close>, \<open>std\<close>, \<open>nop\<close>, \<open>mul\<close>\<close>

definition page0_addd_mul :: "(u32 \<times> 'z body) list" where
  "page0_addd_mul =
     [(0xC3, alu_d inst_add16 imm16 4),
      (0xD3, alu_d inst_add16 (mem16 ea_direct) 6),
      (0xE3, alu_d inst_add16 (mem16 ea_indexed) 6),
      (0xF3, alu_d inst_add16 (mem16 ea_extended) 7),
      (0xCC, ld_d imm16 3),
      (0xDC, ld_d (mem16 ea_direct) 5),
      (0xEC, ld_d (mem16 ea_indexed) 5),
      (0xFC, ld_d (mem16 ea_extended) 6),
      (0xDD, st16 get_reg_d ea_direct 5),
      (0xED, st16 get_reg_d ea_indexed 5),
      (0xFD, st16 get_reg_d ea_extended 6),
      (0x12, \<lambda>s. ok (add_cycles 2 s)),
      (0x3D, \<lambda>s. ok (inst_mul s))]"

text \<open>The short branches\<close>

definition page0_branch :: "(u32 \<times> 'z body) list" where
  "page0_branch =
     [(0x20, \<lambda>s. ok (inst_bra8 0 0x20 s)),
      (0x21, \<lambda>s. ok (inst_bra8 0 0x21 s)),
      (0x22, \<lambda>s. ok (inst_bra8 (get_cc FLAG_C s OR get_cc FLAG_Z s) 0x22 s)),
      (0x23, \<lambda>s. ok (inst_bra8 (get_cc FLAG_C s OR get_cc FLAG_Z s) 0x23 s)),
      (0x24, \<lambda>s. ok (inst_bra8 (get_cc FLAG_C s) 0x24 s)),
      (0x25, \<lambda>s. ok (inst_bra8 (get_cc FLAG_C s) 0x25 s)),
      (0x26, \<lambda>s. ok (inst_bra8 (get_cc FLAG_Z s) 0x26 s)),
      (0x27, \<lambda>s. ok (inst_bra8 (get_cc FLAG_Z s) 0x27 s)),
      (0x28, \<lambda>s. ok (inst_bra8 (get_cc FLAG_V s) 0x28 s)),
      (0x29, \<lambda>s. ok (inst_bra8 (get_cc FLAG_V s) 0x29 s)),
      (0x2A, \<lambda>s. ok (inst_bra8 (get_cc FLAG_N s) 0x2A s)),
      (0x2B, \<lambda>s. ok (inst_bra8 (get_cc FLAG_N s) 0x2B s)),
      (0x2C, \<lambda>s. ok (inst_bra8 (get_cc FLAG_N s XOR get_cc FLAG_V s) 0x2C s)),
      (0x2D, \<lambda>s. ok (inst_bra8 (get_cc FLAG_N s XOR get_cc FLAG_V s) 0x2D s)),
      (0x2E, \<lambda>s. ok (inst_bra8 (get_cc FLAG_Z s OR (get_cc FLAG_N s XOR get_cc FLAG_V s)) 0x2E s)),
      (0x2F, \<lambda>s. ok (inst_bra8 (get_cc FLAG_Z s OR (get_cc FLAG_N s XOR get_cc FLAG_V s)) 0x2F s))]"

text \<open>\<open>lbra\<close>, \<open>lbsr\<close>, \<open>bsr\<close>, \<open>jsr\<close>, \<open>lea\<close>\<close>

definition page0_jump :: "(u32 \<times> 'z body) list" where
  "page0_jump =
     [(0x16, \<lambda>s. let (r, s) = pc_read16 s
             in ok (add_cycles 5 (s\<lparr>reg_pc := reg_pc s + ucast r\<rparr>))),
      (0x17, \<lambda>s. let (r, s) = pc_read16 s
             in bindr (push16 S (ucast (reg_pc s)) s) (\<lambda>_ s.
                  ok (add_cycles 9 (s\<lparr>reg_pc := reg_pc s + ucast r\<rparr>)))),
      (0x8D, \<lambda>s. let (r, s) = pc_read8 s
             in bindr (push16 S (ucast (reg_pc s)) s) (\<lambda>_ s.
                  ok (add_cycles 7 (s\<lparr>reg_pc := reg_pc s + ucast (sign_extend r)\<rparr>)))),
      (0x9D, jsr_ea ea_direct 7),
      (0xAD, jsr_ea ea_indexed 7),
      (0xBD, jsr_ea ea_extended 8),
      (0x30, lea_z X),
      (0x31, lea_z Y),
      (0x32, lea S),
      (0x33, lea U)]"

text \<open>\<open>pshs\<close> to \<open>tfr\<close>\<close>

definition page0_stack :: "(u32 \<times> 'z body) list" where
  "page0_stack =
     [(0x34, psh_op S U),
      (0x35, pul_op S U),
      (0x36, psh_op U S),
      (0x37, pul_op U S),
      (0x39, \<lambda>s. let (v, s) = pull16 S s in ok (add_cycles 5 (s\<lparr>reg_pc := ucast v\<rparr>))),
      (0x3A, \<lambda>s. ok (add_cycles 3 (s\<lparr>reg_x := reg_x s + (reg_b s AND 0xFF)\<rparr>))),
      (0x1A, \<lambda>s. let (v, s) = pc_read8 s in ok (add_cycles 3 (s\<lparr>reg_cc := reg_cc s OR v\<rparr>))),
      (0x1C, \<lambda>s. let (v, s) = pc_read8 s in ok (add_cycles 3 (s\<lparr>reg_cc := reg_cc s AND v\<rparr>))),
      (0x1D, \<lambda>s. ok (inst_sex s)),
      (0x1E, \<lambda>s. bindr (inst_exg s) (\<lambda>_ s. ok (add_cycles 8 s))),
      (0x1F, \<lambda>s. bindr (inst_tfr s) (\<lambda>_ s. ok (add_cycles 6 s)))]"

text \<open>\<open>rti\<close>, \<open>swi\<close>, \<open>sync\<close>, \<open>daa\<close>, \<open>cwai\<close>\<close>

definition page0_system :: "'z syscall \<Rightarrow> (u32 \<times> 'z body) list" where
  "page0_system dosys =
     [(0x3B, inst_rti),
      (0x3F, inst_swi dosys),
      (0x13, \<lambda>s. ok (add_cycles 2 (s\<lparr>irq_status := IRQ_SYNC\<rparr>))),
      (0x19, \<lambda>s. ok (inst_daa s)),
      (0x3C, inst_cwai)]"

text \<open>Page 1: the long branches\<close>

definition page1_branch :: "(u32 \<times> 'z body) list" where
  "page1_branch =
     [(0x20, \<lambda>s. ok (inst_bra16 0 0x20 s)),
      (0x21, \<lambda>s. ok (inst_bra16 0 0x21 s)),
      (0x22, \<lambda>s. ok (inst_bra16 (get_cc FLAG_C s OR get_cc FLAG_Z s) 0x22 s)),
      (0x23, \<lambda>s. ok (inst_bra16 (get_cc FLAG_C s OR get_cc FLAG_Z s) 0x23 s)),
      (0x24, \<lambda>s. ok (inst_bra16 (get_cc FLAG_C s) 0x24 s)),
      (0x25, \<lambda>s. ok (inst_bra16 (get_cc FLAG_C s) 0x25 s)),
      (0x26, \<lambda>s. ok (inst_bra16 (get_cc FLAG_Z s) 0x26 s)),
      (0x27, \<lambda>s. ok (inst_bra16 (get_cc FLAG_Z s) 0x27 s)),
      (0x28, \<lambda>s. ok (inst_bra16 (get_cc FLAG_V s) 0x28 s)),
      (0x29, \<lambda>s. ok (inst_bra16 (get_cc FLAG_V s) 0x29 s)),
      (0x2A, \<lambda>s. ok (inst_bra16 (get_cc FLAG_N s) 0x2A s)),
      (0x2B, \<lambda>s. ok (inst_bra16 (get_cc FLAG_N s) 0x2B s)),
      (0x2C, \<lambda>s. ok (inst_bra16 (get_cc FLAG_N s XOR get_cc FLAG_V s) 0x2C s)),
      (0x2D, \<lambda>s. ok (inst_bra16 (get_cc FLAG_N s XOR get_cc FLAG_V s) 0x2D s)),
      (0x2E, \<lambda>s. ok (inst_bra16 (get_cc FLAG_Z s OR (get_cc FLAG_N s XOR get_cc FLAG_V s)) 0x2E s)),
      (0x2F, \<lambda>s. ok (inst_bra16 (get_cc FLAG_Z s OR (get_cc FLAG_N s XOR get_cc FLAG_V s)) 0x2F s))]"

text \<open>Page 1: \<open>cmpd\<close>, \<open>cmpy\<close>, \<open>ldy\<close>\<close>

definition page1_cmp_ld :: "(u32 \<times> 'z body) list" where
  "page1_cmp_ld =
     [(0x83, cmp_with get_reg_d inst_sub16 imm16 5),
      (0x93, cmp_with get_reg_d inst_sub16 (mem16 ea_direct) 7),
      (0xA3, cmp_with get_reg_d inst_sub16 (mem16 ea_indexed) 7),
      (0xB3, cmp_with get_reg_d inst_sub16 (mem16 ea_extended) 8),
      (0x8C, cmp_with reg_y inst_sub16 imm16 5),
      (0x9C, cmp_with reg_y inst_sub16 (mem16 ea_direct) 7),
      (0xAC, cmp_with reg_y inst_sub16 (mem16 ea_indexed) 7),
      (0xBC, cmp_with reg_y inst_sub16 (mem16 ea_extended) 8),
      (0x8E, ld_r Y imm16 4),
      (0x9E, ld_r Y (mem16 ea_direct) 6),
      (0xAE, ld_r Y (mem16 ea_indexed) 6),
      (0xBE, ld_r Y (mem16 ea_extended) 7)]"

text \<open>Page 1: \<open>sty\<close>, \<open>lds\<close>, \<open>sts\<close>, \<open>swi2\<close>\<close>

definition page1_st_swi2 :: "(u32 \<times> 'z body) list" where
  "page1_st_swi2 =
     [(0x9F, st16 reg_y ea_direct 6),
      (0xAF, st16 reg_y ea_indexed 6),
      (0xBF, st16 reg_y ea_extended 7),
      (0xCE, ld_r S imm16 4),
      (0xDE, ld_r S (mem16 ea_direct) 6),
      (0xEE, ld_r S (mem16 ea_indexed) 6),
      (0xFE, ld_r S (mem16 ea_extended) 7),
      (0xDF, st16 reg_s ea_direct 6),
      (0xEF, st16 reg_s ea_indexed 6),
      (0xFF, st16 reg_s ea_extended 7),
      (0x3F, swi_vector 0xFFF4)]"

text \<open>Page 2: \<open>cmpu\<close>, \<open>cmps\<close>, \<open>swi3\<close>\<close>

definition page2 :: "(u32 \<times> 'z body) list" where
  "page2 =
     [(0x83, cmp_with reg_u inst_sub16 imm16 5),
      (0x93, cmp_with reg_u inst_sub16 (mem16 ea_direct) 7),
      (0xA3, cmp_with reg_u inst_sub16 (mem16 ea_indexed) 7),
      (0xB3, cmp_with reg_u inst_sub16 (mem16 ea_extended) 8),
      (0x8C, cmp_with reg_s inst_sub16 imm16 5),
      (0x9C, cmp_with reg_s inst_sub16 (mem16 ea_direct) 7),
      (0xAC, cmp_with reg_s inst_sub16 (mem16 ea_indexed) 7),
      (0xBC, cmp_with reg_s inst_sub16 (mem16 ea_extended) 8),
      (0x3F, swi_vector 0xFFF2)]"

text \<open>The pages put together. A prefix byte selects page 1 or page 2.\<close>

definition page1_ops :: "(u32 \<times> 'z body) list" where
  "page1_ops = page1_branch @ page1_cmp_ld @ page1_st_swi2"

definition exec_page1 :: "'z body" where
  "exec_page1 s =
     (let (op, s) = pc_read8 s
      in switch page1_ops (die (''unknown page-1 op code: '' @ fmt_p2x (unat op))) op s)"

definition exec_page2 :: "'z body" where
  "exec_page2 s =
     (let (op, s) = pc_read8 s
      in switch page2 (die (''unknown page-2 op code: '' @ fmt_p2x (unat op))) op s)"

definition page0_ops :: "'z syscall \<Rightarrow> (u32 \<times> 'z body) list" where
  "page0_ops dosys =
     page0_neg_ror @ page0_asr_dec @ page0_inc_clr @ page0_sub_cmp @ page0_sbc_bit @
     page0_ld_st8 @ page0_eor_or @ page0_add_cmpx @ page0_ldx_stu @ page0_addd_mul @
     page0_branch @ page0_jump @ page0_stack @ page0_system dosys @
     [(0x10, exec_page1), (0x11, exec_page2)]"

lemmas opcode_tables = page0_ops_def page0_neg_ror_def page0_asr_dec_def page0_inc_clr_def
  page0_sub_cmp_def page0_sbc_bit_def page0_ld_st8_def page0_eor_or_def page0_add_cmpx_def
  page0_ldx_stu_def page0_addd_mul_def page0_branch_def page0_jump_def page0_stack_def
  page0_system_def switch_append

definition exec_page0 :: "'z syscall \<Rightarrow> 'z body" where
  "exec_page0 dosys s =
     (let (op, s) = pc_read8 s
      in switch (page0_ops dosys) (die (''unknown page-0 op code: '' @ fmt_p2x (unat op))) op s)"

subsection \<open>One step\<close>

text \<open>
  The monitor takes the current program counter and returns -1 or an address.
  The variable \<open>cycles\<close> is local to the step, so a step that the monitor runs
  inside this one leaves it at 0.
\<close>

type_synonym 'z monitor = "u32 \<Rightarrow> 'z machine_scheme \<Rightarrow> ('z machine_scheme, u32) res"

definition enter_monitor :: "'z monitor \<Rightarrow> 'z body" where
  "enter_monitor mon s =
     (let (hit, s) = (if write_brkpt s then (True, s) else check_brk (ucast (reg_pc s)) BRK_INST s)
      in if hit
         then bindr (mon (ucast (reg_pc s)) (s\<lparr>write_brkpt := False\<rparr>)) (\<lambda>addr s.
                let s = s\<lparr>cycles := 0\<rparr>
                in ok (if addr \<noteq> minus_one then s\<lparr>reg_pc := ucast (addr AND 0xFFFF)\<rparr> else s))
         else ok s)"

definition put_log :: "string \<Rightarrow> 'z machine_scheme \<Rightarrow> 'z machine_scheme" where
  "put_log t s = s\<lparr>logfile := map_option (\<lambda>l. l @ t) (logfile s)\<rparr>"

text \<open>The symbol lookup of the running machine, which moves the lookup cache.\<close>

definition lookup_symbol ::
  "u32 \<Rightarrow> 'z machine_scheme \<Rightarrow> ('z machine_scheme, (string option \<times> u32) option) res" where
  "lookup_symbol addr s =
     (case get_symbol_and_offset addr (maps s) of
        Inl (e, m) \<Rightarrow> Inl (e, s\<lparr>maps := m\<rparr>)
      | Inr (r, m) \<Rightarrow> Inr (r, s\<lparr>maps := m\<rparr>))"

text \<open>The prefix of a log or trace line: the symbol and offset, or the address.\<close>

definition sym_prefix :: "string \<Rightarrow> u32 \<Rightarrow> (string option \<times> u32) option \<Rightarrow> string" where
  "sym_prefix sep addr r =
     (case r of Some (Some nm, off) \<Rightarrow> fmt_12s nm @ sep @ fmt_04X (unat off)
      | _ \<Rightarrow> fmt_04X (unat addr))"

definition log_before :: "'z body" where
  "log_before s =
     (if logfile s = None then ok s
      else let buf = fst (d6809_disassemble (\<lambda>a. e6809_read8_debug a s) (ucast (reg_pc s)))
           in bindr (if mapfile_loaded (maps s) then lookup_symbol (ucast (reg_pc s)) s
                     else Inr (None, s)) (\<lambda>r s.
                ok (put_log (sym_prefix ''+'' (ucast (reg_pc s)) r @ '': '' @ fmt_m16s buf @ '' | '') s)))"

definition log_after :: "'z machine_scheme \<Rightarrow> 'z machine_scheme" where
  "log_after s = put_log (e6809_get_statestr s @ newline) s"

definition e6809_sstep ::
  "'z monitor \<Rightarrow> 'z syscall \<Rightarrow> bool \<Rightarrow> bool \<Rightarrow> 'z machine_scheme \<Rightarrow> ('z machine_scheme, u32) res" where
  "e6809_sstep mon dosys irq_i irq_f s =
     bindr (enter_monitor mon (s\<lparr>cycles := 0\<rparr>)) (\<lambda>_ s.
     bindr (if irq_f then take_firq s else ok s) (\<lambda>_ s.
     bindr (if irq_i then take_irq s else ok s) (\<lambda>_ s.
       if irq_status s \<noteq> IRQ_NORMAL then Inr (cycles s + 1, s)
       else bindr (log_before s) (\<lambda>_ s.
            bindr (exec_page0 dosys s) (\<lambda>_ s.
              let s = log_after s in Inr (ucast (reg_pc s), s))))))"

end
