(* ===== verification/Garbage.thy ===== *)
theory Garbage
  imports Step
begin

text \<open>
  The registers of \<open>emulators/e6809.c\<close> are C \<open>unsigned\<close> variables whose upper
  bits "may contain garbage". \<open>low_eq\<close> relates two machines that agree on
  everything the rest of the emulator sees (\<open>struct reg6809\<close>, memory, tables,
  output); every instruction but \<open>swi\<close>, the interrupts and the log take related
  machines to related machines (\<open>SysLow\<close> adds \<open>swi\<close> and the whole step). The proof follows the structure of the code: helpers, memory access,
  effective addresses, shared bodies, switch tables.
\<close>

subsection \<open>Masks, tests and flags\<close>

lemma low1_and1: "low 1 x y \<Longrightarrow> x AND 1 = y AND 1"
  using low_and_mask_eq [of 1 x y] by simp

lemma low8_andFF: "low 8 x y \<Longrightarrow> x AND 0xFF = y AND 0xFF"
  using low_and_mask_eq [of 8 x y] by (simp add: mask_eq_exp_minus_1)

lemma low16_andFFFF: "low 16 x y \<Longrightarrow> x AND 0xFFFF = y AND 0xFFFF"
  using low_and_mask_eq [of 16 x y] by (simp add: mask_eq_exp_minus_1)

lemma low8_and:
  assumes "low 8 x y" and "0xFF AND k = k"
  shows "x AND k = y AND k"
proof -
  have "x AND k = (x AND 0xFF) AND k" "y AND k = (y AND 0xFF) AND k"
    using assms(2) by (simp_all add: and.assoc)
  with assms(1) show ?thesis by (simp add: low8_andFF)
qed

lemma test_n_low: "low 8 r r' \<Longrightarrow> test_n r = test_n r'"
  unfolding test_n_def by (intro low1_and1 low_drop) (simp add: low_mono)

lemma test_c_low:
  "low 8 a a' \<Longrightarrow> low 8 b b' \<Longrightarrow> low 8 r r' \<Longrightarrow> test_c a b r k = test_c a' b' r' k"
  unfolding test_c_def Let_def
  by (rule arg_cong2 [where f = "(XOR)"], intro low1_and1 low_drop low_or low_and low_not)
     (simp_all add: low_mono)

lemma test_v_low:
  "low 8 a a' \<Longrightarrow> low 8 b b' \<Longrightarrow> low 8 r r' \<Longrightarrow> test_v a b r = test_v a' b' r'"
  unfolding test_v_def Let_def
  by (intro low1_and1 low_drop low_or low_and low_not low_xor) (simp_all add: low_mono)

lemma test_z8_and1: "test_z8 r = test_z8 r AND 1"
  by (simp add: test_z8_def Let_def and.assoc)

lemma test_z16_and1: "test_z16 r = test_z16 r AND 1"
  by (simp add: test_z16_def Let_def and.assoc)

lemma test_z8_low: "low 8 r r' \<Longrightarrow> test_z8 r = test_z8 r'"
  by (subst (1 2) test_z8_and1, unfold test_z8_def Let_def)
     (intro low1_and1 low_drop low_and low_not low_refl, simp_all add: low_mono)

lemma test_z16_low: "low 16 r r' \<Longrightarrow> test_z16 r = test_z16 r'"
  by (subst (1 2) test_z16_and1, unfold test_z16_def Let_def)
     (intro low1_and1 low_drop low_and low_not low_refl, simp_all add: low_mono)

lemma sign_extend_low: "low 8 d d' \<Longrightarrow> sign_extend d = sign_extend d'"
  using low8_and [of d d' "0x80"] by (simp add: sign_extend_def low8_andFF)

lemma low4_8: "low 8 x y \<Longrightarrow> low 4 x y"
  by (erule low_mono) simp

lemmas test_lows = test_n_low test_c_low test_v_low test_z8_low test_z16_low sign_extend_low low4_8

lemma div_flag:
  "x div 0x80 = drop_bit 7 (x :: u32)" "x div 0x40 = drop_bit 6 x" "x div 0x20 = drop_bit 5 x"
  "x div 0x10 = drop_bit 4 x" "x div 0x08 = drop_bit 3 x" "x div 0x04 = drop_bit 2 x"
  "x div 0x02 = drop_bit 1 x" "x div 0x01 = drop_bit 0 x"
  by (simp_all add: drop_bit_eq_div)

subsection \<open>Machines that differ in insignificant register bits only\<close>

definition low_eq :: "'z machine_scheme \<Rightarrow> 'z machine_scheme \<Rightarrow> bool" where
  "low_eq s t \<longleftrightarrow> e6809_get_regs s = e6809_get_regs t \<and>
     t\<lparr>reg_x := reg_x s, reg_y := reg_y s, reg_u := reg_u s, reg_s := reg_s s,
       reg_a := reg_a s, reg_b := reg_b s, reg_dp := reg_dp s, reg_cc := reg_cc s\<rparr> = s"

lemma low_eq_iff:
  "low_eq s t \<longleftrightarrow>
     low 16 (reg_x s) (reg_x t) \<and> low 16 (reg_y s) (reg_y t) \<and> low 16 (reg_u s) (reg_u t) \<and>
     low 16 (reg_s s) (reg_s t) \<and> reg_pc s = reg_pc t \<and> low 8 (reg_a s) (reg_a t) \<and>
     low 8 (reg_b s) (reg_b t) \<and> low 8 (reg_dp s) (reg_dp t) \<and> low 8 (reg_cc s) (reg_cc t) \<and>
     irq_status s = irq_status t \<and> cycles s = cycles t \<and> write_brkpt s = write_brkpt t \<and>
     ram s = ram t \<and> fefcval s = fefcval t \<and> bp s = bp t \<and> maps s = maps t \<and>
     stdout s = stdout t \<and> stderr s = stderr t \<and> logfile s = logfile t \<and>
     machine.more s = machine.more t"
  unfolding low_eq_def e6809_get_regs_def
  by (cases s; cases t) (auto simp: low_ucast8 low_ucast16)

lemma low_eq_refl [simp, intro]: "low_eq s s"
  by (simp add: low_eq_iff)

lemma low_eq_field:
  assumes "low_eq s t"
  shows "reg_pc s = reg_pc t" "irq_status s = irq_status t" "cycles s = cycles t"
    "write_brkpt s = write_brkpt t" "ram s = ram t" "fefcval s = fefcval t" "bp s = bp t"
    "maps s = maps t" "logfile s = logfile t"
  using assms by (simp_all only: low_eq_iff)

lemma low_eq_reg [low_intros]:
  assumes "low_eq s t"
  shows "low 16 (reg_x s) (reg_x t)" "low 16 (reg_y s) (reg_y t)" "low 16 (reg_u s) (reg_u t)"
    "low 16 (reg_s s) (reg_s t)" "low 8 (reg_a s) (reg_a t)" "low 8 (reg_b s) (reg_b t)"
    "low 8 (reg_dp s) (reg_dp t)" "low 8 (reg_cc s) (reg_cc t)"
  using assms by (simp_all only: low_eq_iff)

lemma low_eq_upd [low_intros]:
  assumes "low_eq s t"
  shows
  "low 16 v v' \<Longrightarrow> low_eq (s\<lparr>reg_x := v\<rparr>) (t\<lparr>reg_x := v'\<rparr>)"
  "low 16 v v' \<Longrightarrow> low_eq (s\<lparr>reg_y := v\<rparr>) (t\<lparr>reg_y := v'\<rparr>)"
  "low 16 v v' \<Longrightarrow> low_eq (s\<lparr>reg_u := v\<rparr>) (t\<lparr>reg_u := v'\<rparr>)"
  "low 16 v v' \<Longrightarrow> low_eq (s\<lparr>reg_s := v\<rparr>) (t\<lparr>reg_s := v'\<rparr>)"
  "low 8 v v' \<Longrightarrow> low_eq (s\<lparr>reg_a := v\<rparr>) (t\<lparr>reg_a := v'\<rparr>)"
  "low 8 v v' \<Longrightarrow> low_eq (s\<lparr>reg_b := v\<rparr>) (t\<lparr>reg_b := v'\<rparr>)"
  "low 8 v v' \<Longrightarrow> low_eq (s\<lparr>reg_dp := v\<rparr>) (t\<lparr>reg_dp := v'\<rparr>)"
  "low 8 v v' \<Longrightarrow> low_eq (s\<lparr>reg_cc := v\<rparr>) (t\<lparr>reg_cc := v'\<rparr>)"
  "w = w' \<Longrightarrow> low_eq (s\<lparr>reg_pc := w\<rparr>) (t\<lparr>reg_pc := w'\<rparr>)"
  "low_eq (s\<lparr>irq_status := i\<rparr>) (t\<lparr>irq_status := i\<rparr>)"
  "low_eq (s\<lparr>write_brkpt := b\<rparr>) (t\<lparr>write_brkpt := b\<rparr>)"
  "c = c' \<Longrightarrow> low_eq (s\<lparr>cycles := c\<rparr>) (t\<lparr>cycles := c'\<rparr>)"
  "m = m' \<Longrightarrow> low_eq (s\<lparr>maps := m\<rparr>) (t\<lparr>maps := m'\<rparr>)"
  "q = q' \<Longrightarrow> low_eq (s\<lparr>bp := q\<rparr>) (t\<lparr>bp := q'\<rparr>)"
  "n = n' \<Longrightarrow> low_eq (add_cycles n s) (add_cycles n' t)"
  "low_eq (put_stdout o1 s) (put_stdout o1 t)"
  "low_eq (put_stderr o1 s) (put_stderr o1 t)"
  "o1 = o2 \<Longrightarrow> low_eq (put_log o1 s) (put_log o2 t)"
  "low_eq (s\<lparr>fefcval := f\<rparr>) (t\<lparr>fefcval := f\<rparr>)"
  "low_eq (s\<lparr>ram := (ram s)(a := b1)\<rparr>) (t\<lparr>ram := (ram t)(a := b1)\<rparr>)"
  using assms by (simp_all add: low_eq_iff add_cycles_def put_stdout_def put_stderr_def put_log_def)

lemma set_cc_low [low_intros]:
  "low_eq s t \<Longrightarrow> v = v' \<Longrightarrow> low_eq (set_cc f v s) (set_cc f v' t)"
  by (simp add: set_cc_def low_intros)

lemma get_cc_low:
  assumes "low_eq s t" and "f \<in> {FLAG_E, FLAG_F, FLAG_H, FLAG_I, FLAG_N, FLAG_Z, FLAG_V, FLAG_C}"
  shows "get_cc f s = get_cc f t"
proof -
  from assms(1) have "low 8 (reg_cc s) (reg_cc t)" by (rule low_intros)
  then have "low m (reg_cc s) (reg_cc t)" if "m \<le> 8" for m
    using that by (rule low_mono)
  then have "low 1 (drop_bit k (reg_cc s)) (drop_bit k (reg_cc t))" if "k < 8" for k
    using that by (intro low_drop) simp
  from this [of 7] this [of 6] this [of 5] this [of 4] this [of 3] this [of 2] this [of 1]
    this [of 0] assms(2) show ?thesis
    unfolding get_cc_def by (intro low1_and1) (auto simp: div_flag)
qed

lemma get_reg_d_low [low_intros]: "low_eq s t \<Longrightarrow> low 16 (get_reg_d s) (get_reg_d t)"
  unfolding get_reg_d_def
  using low8_andFF [OF low_eq_reg(6)] low_push' [of 16 8, OF _] low_eq_reg(5)
  by (fastforce intro: low_or)

lemma set_reg_d_low [low_intros]:
  "low_eq s t \<Longrightarrow> low 16 v v' \<Longrightarrow> low_eq (set_reg_d v s) (set_reg_d v' t)"
  unfolding set_reg_d_def by (intro low_eq_upd low_drop low_8_16) simp_all

lemma get_xyus_low [low_intros]: "low_eq s t \<Longrightarrow> low 16 (get_xyus r s) (get_xyus r t)"
  by (cases r) (simp_all add: low_intros)

lemma set_xyus_low [low_intros]:
  "low_eq s t \<Longrightarrow> low 16 v v' \<Longrightarrow> low_eq (set_xyus r v s) (set_xyus r v' t)"
  by (cases r) (simp_all add: low_intros)

subsection \<open>Results\<close>

text \<open>Two runs end the same way: the same exit, or related values, and related states.\<close>

definition res_rel ::
  "('a \<Rightarrow> 'b \<Rightarrow> bool) \<Rightarrow> ('z machine_scheme, 'a) res \<Rightarrow> ('z machine_scheme, 'b) res \<Rightarrow> bool" where
  "res_rel P = rel_sum (rel_prod (=) low_eq) (rel_prod P low_eq)"

lemma res_rel_Inr [simp]: "res_rel P (Inr x) (Inr y) \<longleftrightarrow> P (fst x) (fst y) \<and> low_eq (snd x) (snd y)"
  by (cases x; cases y) (simp add: res_rel_def)

lemma res_rel_Inl [simp]: "res_rel P (Inl x) (Inl y) \<longleftrightarrow> fst x = fst y \<and> low_eq (snd x) (snd y)"
  by (cases x; cases y) (simp add: res_rel_def)

lemma res_rel_bindr:
  "res_rel P m m' \<Longrightarrow> (\<And>x y s t. P x y \<Longrightarrow> low_eq s t \<Longrightarrow> res_rel Q (f x s) (g y t)) \<Longrightarrow>
   res_rel Q (bindr m f) (bindr m' g)"
  by (auto simp: res_rel_def bindr_def elim!: rel_sum.cases)

lemma die_low [low_intros]: "low_eq s t \<Longrightarrow> res_rel P (die m s) (die m t)"
  by (simp add: die_def low_intros)

subsection \<open>Memory\<close>

lemma read8_low: "low_eq s t \<Longrightarrow> low 16 a a' \<Longrightarrow> read8 a s = read8 a' t"
  by (simp add: read8_def low16_andFFFF low_eq_field(5) e6809_read8_def)

lemma read16_low: "low_eq s t \<Longrightarrow> low 16 a a' \<Longrightarrow> read16 a s = read16 a' t"
  using read8_low [of s t a a'] read8_low [of s t "a + 1" "a' + 1"]
  by (simp add: read16_def low_add)

lemma check_brk_low:
  assumes "low_eq s t"
  shows "fst (check_brk a ty s) = fst (check_brk a ty t)"
    and "low_eq (snd (check_brk a ty s)) (snd (check_brk a ty t))"
  using assms by (simp_all add: check_brk_def split_beta low_eq_field low_intros)

lemma write8_low:
  assumes st: "low_eq s t" and a: "low 16 a a'" and d: "low 8 d d'"
  shows "res_rel (=) (write8 a d s) (write8 a' d' t)"
proof -
  have 1: "a AND 0xFFFF = a' AND 0xFFFF" using a by (rule low16_andFFFF)
  have 2: "(ucast d :: u8) = ucast d'" using d by (simp add: low_ucast8)
  have 3: "res_rel (=) (e6809_write8 b v s) (e6809_write8 b v t)" for b v
    using st low_eq_field(6) [OF st] by (simp add: e6809_write8_def low_intros)
  show ?thesis
    unfolding write8_def Let_def split_beta 1 2
    by (rule res_rel_bindr [OF 3]) (simp add: check_brk_low low_intros)
qed

lemma write16_low:
  "low_eq s t \<Longrightarrow> low 16 a a' \<Longrightarrow> low 16 d d' \<Longrightarrow> res_rel (=) (write16 a d s) (write16 a' d' t)"
  unfolding write16_def
  by (rule res_rel_bindr [OF write8_low]) (simp_all add: write8_low low_intros low_8_16)

lemma push8_low:
  "low_eq s t \<Longrightarrow> low 8 d d' \<Longrightarrow> res_rel (=) (push8 sp d s) (push8 sp d' t)"
  unfolding push8_def Let_def by (intro write8_low) (simp_all add: low_intros)

lemma push16_low:
  "low_eq s t \<Longrightarrow> low 16 d d' \<Longrightarrow> res_rel (=) (push16 sp d s) (push16 sp d' t)"
  unfolding push16_def
  by (rule res_rel_bindr [OF push8_low]) (simp_all add: push8_low low_intros low_8_16)

lemma pull8_low:
  assumes "low_eq s t"
  shows "fst (pull8 sp s) = fst (pull8 sp t)" and "low_eq (snd (pull8 sp s)) (snd (pull8 sp t))"
  using assms read8_low [OF assms get_xyus_low [OF assms]]
  by (simp_all add: pull8_def Let_def low_intros)

lemma pull16_low:
  assumes "low_eq s t"
  shows "fst (pull16 sp s) = fst (pull16 sp t)" and "low_eq (snd (pull16 sp s)) (snd (pull16 sp t))"
  unfolding pull16_def Let_def split_beta fst_conv snd_conv
  by (rule arg_cong2 [where f = "\<lambda>h l. push_bit 8 h OR l"] pull8_low assms)+

lemma pc_read8_low:
  assumes "low_eq s t"
  shows "fst (pc_read8 s) = fst (pc_read8 t)" and "low_eq (snd (pc_read8 s)) (snd (pc_read8 t))"
  using assms by (simp_all add: pc_read8_def low_eq_field(1) read8_low low_intros)

lemma pc_read16_low:
  assumes "low_eq s t"
  shows "fst (pc_read16 s) = fst (pc_read16 t)" and "low_eq (snd (pc_read16 s)) (snd (pc_read16 t))"
  using assms by (simp_all add: pc_read16_def low_eq_field(1) read16_low low_intros)

lemma read_low_intros [low_intros]:
  "low_eq s t \<Longrightarrow> low 16 a a' \<Longrightarrow> low n (read8 a s) (read8 a' t)"
  "low_eq s t \<Longrightarrow> low 16 a a' \<Longrightarrow> low n (read16 a s) (read16 a' t)"
  "low_eq s t \<Longrightarrow> low n (ucast (reg_pc s)) (ucast (reg_pc t))"
  "low_eq s t \<Longrightarrow> low n (fst (pc_read8 s)) (fst (pc_read8 t))"
  "low_eq s t \<Longrightarrow> low n (fst (pc_read16 s)) (fst (pc_read16 t))"
  "low_eq s t \<Longrightarrow> low_eq (snd (pc_read8 s)) (snd (pc_read8 t))"
  "low_eq s t \<Longrightarrow> low_eq (snd (pc_read16 s)) (snd (pc_read16 t))"
  using read8_low read16_low pc_read8_low pc_read16_low low_eq_field(1) by (metis low_refl)+

lemmas pull_lows = pull8_low pull16_low pc_read8_low pc_read16_low read8_low read16_low

subsection \<open>Arithmetic and logic\<close>

text \<open>A unary or binary helper that depends on, and determines, low bits only.\<close>

definition op1_low :: "(u32 \<Rightarrow> 'z machine_scheme \<Rightarrow> u32 \<times> 'z machine_scheme) \<Rightarrow> bool" where
  "op1_low inst \<longleftrightarrow> (\<forall>s t d d'. low_eq s t \<longrightarrow> low 8 d d' \<longrightarrow>
     low 8 (fst (inst d s)) (fst (inst d' t)) \<and> low_eq (snd (inst d s)) (snd (inst d' t)))"

definition op2_low :: "nat \<Rightarrow> (u32 \<Rightarrow> u32 \<Rightarrow> 'z machine_scheme \<Rightarrow> u32 \<times> 'z machine_scheme) \<Rightarrow> bool" where
  "op2_low n inst \<longleftrightarrow> (\<forall>s t d d' e e'. low_eq s t \<longrightarrow> low n d d' \<longrightarrow> low n e e' \<longrightarrow>
     low n (fst (inst d e s)) (fst (inst d' e' t)) \<and> low_eq (snd (inst d e s)) (snd (inst d' e' t)))"

lemma drop1_7F: "low 8 d d' \<Longrightarrow> drop_bit (Suc 0) d AND 0x7F = drop_bit (Suc 0) d' AND 0x7F"
  using low_and_mask_eq [of 7 "drop_bit 1 d" "drop_bit 1 d'"] low_drop [of 7 1 d d']
  by (simp add: mask_eq_exp_minus_1)

lemma get_cc_C_low: "low_eq s t \<Longrightarrow> get_cc 1 s = get_cc 1 t"
  by (rule get_cc_low) simp_all

lemma shift_low: "low_eq s t \<Longrightarrow> low 8 d d' \<Longrightarrow>
    d AND 1 = d' AND 1 \<and> d AND 0x80 = d' AND 0x80 \<and> get_cc 1 s = get_cc 1 t \<and>
    drop_bit (Suc 0) d AND 0x7F = drop_bit (Suc 0) d' AND 0x7F"
  by (simp add: low8_and drop1_7F get_cc_C_low)

lemma op1_lows [simp]:
  "op1_low inst_neg" "op1_low inst_com" "op1_low inst_asl" "op1_low inst_dec" "op1_low inst_inc"
  unfolding op1_low_def inst_neg_def inst_com_def inst_asl_def inst_dec_def inst_inc_def Let_def
  by (simp_all add: test_lows low_intros)

lemma op1_low_shift [simp]:
  "op1_low inst_lsr" "op1_low inst_ror" "op1_low inst_asr" "op1_low inst_rol"
  unfolding op1_low_def inst_lsr_def inst_ror_def inst_asr_def inst_rol_def Let_def
  by (intro allI impI, frule (1) shift_low, simp add: test_lows low_intros)+

lemma tst_lows [low_intros]:
  "low_eq s t \<Longrightarrow> low 8 d d' \<Longrightarrow> low_eq (inst_tst8 d s) (inst_tst8 d' t)"
  "low_eq s t \<Longrightarrow> low 16 d d' \<Longrightarrow> low_eq (inst_tst16 d s) (inst_tst16 d' t)"
  "low_eq s t \<Longrightarrow> low_eq (inst_clr s) (inst_clr t)"
  unfolding inst_tst8_def inst_tst16_def inst_clr_def Let_def
  by (simp_all add: test_lows low_intros)

lemma op2_lows8 [simp]:
  "op2_low 8 inst_sub8" "op2_low 8 inst_sbc" "op2_low 8 inst_and" "op2_low 8 inst_eor"
  "op2_low 8 inst_adc" "op2_low 8 inst_or" "op2_low 8 inst_add8"
  unfolding op2_low_def inst_sub8_def inst_sbc_def inst_and_def inst_eor_def inst_adc_def
    inst_or_def inst_add8_def Let_def
  by (simp_all add: test_lows low_intros get_cc_C_low)

lemma op2_lows16 [simp]: "op2_low 16 inst_add16" "op2_low 16 inst_sub16"
  unfolding op2_low_def inst_add16_def inst_sub16_def Let_def
  by (simp_all add: test_lows low_intros)

lemma mul_low [low_intros]: "low_eq s t \<Longrightarrow> low_eq (inst_mul s) (inst_mul t)"
  unfolding inst_mul_def Let_def
  using low8_andFF [OF low_eq_reg(5)] low8_andFF [OF low_eq_reg(6)]
  by (fastforce intro: low_intros)

lemma sex_low [low_intros]: "low_eq s t \<Longrightarrow> low_eq (inst_sex s) (inst_sex t)"
proof -
  assume st: "low_eq s t"
  then have e: "sign_extend (reg_b s) = sign_extend (reg_b t)"
    by (intro sign_extend_low low_eq_reg)
  show ?thesis
    unfolding inst_sex_def Let_def e using st by (simp add: test_lows low_intros)
qed

lemma get_cc_H_low: "low_eq s t \<Longrightarrow> get_cc 0x20 s = get_cc 0x20 t"
  by (rule get_cc_low) simp_all

lemma daa_adjust_low: "low_eq s t \<Longrightarrow> daa_adjust s = daa_adjust t"
proof -
  assume st: "low_eq s t"
  then have a: "low 8 (reg_a s) (reg_a t)" by (rule low_eq_reg)
  have m: "reg_a s AND 0x0F = reg_a t AND 0x0F" "reg_a s AND 0xF0 = reg_a t AND 0xF0"
    using a by (simp_all add: low8_and)
  show ?thesis
    unfolding daa_adjust_def Let_def m get_cc_H_low [OF st] get_cc_C_low [OF st] by (rule refl)
qed

lemma daa_low [low_intros]: "low_eq s t \<Longrightarrow> low_eq (inst_daa s) (inst_daa t)"
proof -
  assume st: "low_eq s t"
  show ?thesis
    unfolding inst_daa_def Let_def daa_adjust_low [OF st]
    using st by (simp add: low_intros test_lows)
qed

subsection \<open>Effective addresses\<close>

definition body_low :: "'z body \<Rightarrow> bool" where
  "body_low f \<longleftrightarrow> (\<forall>s t. low_eq s t \<longrightarrow> res_rel (=) (f s) (f t))"

definition eaf_low :: "'z eaf \<Rightarrow> bool" where
  "eaf_low f \<longleftrightarrow> (\<forall>s t. low_eq s t \<longrightarrow> res_rel (low 16) (f s) (f t))"

lemma body_lowD: "body_low f \<Longrightarrow> low_eq s t \<Longrightarrow> res_rel (=) (f s) (f t)"
  by (simp add: body_low_def)

lemma eaf_lowD: "eaf_low f \<Longrightarrow> low_eq s t \<Longrightarrow> res_rel (low 16) (f s) (f t)"
  by (simp add: eaf_low_def)

lemma eaf_low_direct [simp]: "eaf_low ea_direct"
  unfolding eaf_low_def ea_direct_def
  by (auto simp: split_beta pull_lows intro!: low_intros)

lemma eaf_low_extended [simp]: "eaf_low ea_extended"
  unfolding eaf_low_def ea_extended_def by (simp add: pull_lows)

lemma eaf_low_imm [simp]: "eaf_low imm8" "eaf_low imm16"
  unfolding eaf_low_def imm8_def imm16_def by (simp_all add: pull_lows)

lemma eaf_low_mem [simp]: "eaf_low ea \<Longrightarrow> eaf_low (mem8 ea)" "eaf_low ea \<Longrightarrow> eaf_low (mem16 ea)"
  unfolding eaf_low_def mem8_def mem16_def
  by (auto intro!: res_rel_bindr simp: pull_lows)

lemma low_sign_extend: "low 8 d d' \<Longrightarrow> low n (sign_extend d) (sign_extend d')"
  using sign_extend_low [of d d'] by simp

lemma sgx_reg_low: "low_eq s t \<Longrightarrow> sign_extend (reg_a s) = sign_extend (reg_a t)"
  "low_eq s t \<Longrightarrow> sign_extend (reg_b s) = sign_extend (reg_b t)"
  by (simp_all add: sign_extend_low low_intros)

lemma eaf_low_modes:
  "\<forall>(k, f) \<in> set (ea_indexed_modes op r). eaf_low f"
  unfolding ea_indexed_modes_def eaf_low_def Let_def split_beta
  by (simp add: low_intros low_sign_extend)

lemma eaf_low_indexed [simp]: "eaf_low ea_indexed"
proof -
  have sw: "eaf_low (switch (ea_indexed_modes op r) (die m) k)" for op r m k
    by (rule switch_all [where P = eaf_low, OF eaf_low_modes]) (simp add: eaf_low_def die_low)
  show ?thesis
    unfolding eaf_low_def
  proof (intro allI impI)
    fix s t :: "'a machine_scheme"
    assume st: "low_eq s t"
    let ?s = "snd (pc_read8 s)" and ?t = "snd (pc_read8 t)" and ?op = "fst (pc_read8 t)"
    have st': "low_eq ?s ?t" using st by (rule pull_lows)
    have op: "fst (pc_read8 s) = ?op" using st by (rule pull_lows)
    have m: "res_rel (low 16) (switch (ea_indexed_modes op r) (die m) k ?s)
        (switch (ea_indexed_modes op r) (die m) k ?t)" for op r m k
      by (rule eaf_lowD [OF sw st'])
    have st'': "low_eq (snd (pc_read16 ?s)) (snd (pc_read16 ?t))" using st' by (rule pull_lows)
    show "res_rel (low 16) (ea_indexed s) (ea_indexed t)"
      unfolding ea_indexed_def Let_def split_beta op
      using st' st'' by (simp add: ea_indexed_7_def low_intros m)
  qed
qed

subsection \<open>Instruction bodies\<close>

lemma body_rmw [simp]: "eaf_low ea \<Longrightarrow> op1_low inst \<Longrightarrow> body_low (rmw ea inst n)"
  unfolding body_low_def rmw_def Let_def split_beta
  by (auto intro!: res_rel_bindr write8_low dest: eaf_lowD simp: op1_low_def low_intros)

lemma body_on [simp]: "op1_low inst \<Longrightarrow> body_low (on_a inst n)" "op1_low inst \<Longrightarrow> body_low (on_b inst n)"
  unfolding body_low_def on_a_def on_b_def Let_def split_beta
  by (simp_all add: op1_low_def low_intros)

lemma body_ea [simp]:
  "eaf_low ea \<Longrightarrow> body_low (tst_mem ea n)"
  "eaf_low ea \<Longrightarrow> body_low (jmp_ea ea n)"
  "eaf_low ea \<Longrightarrow> body_low (clr_mem ea n)"
  unfolding body_low_def tst_mem_def jmp_ea_def clr_mem_def
  by (auto intro!: res_rel_bindr write8_low dest: eaf_lowD simp: low_intros low_ucast16)

lemma body_jsr [simp]: "eaf_low ea \<Longrightarrow> body_low (jsr_ea ea n)"
  unfolding body_low_def jsr_ea_def
  by (auto intro!: res_rel_bindr [where P = "low 16"] res_rel_bindr [OF push16_low]
      dest: eaf_lowD simp: low_intros low_ucast16 low_eq_field(1))

lemma body_alu [simp]:
  "eaf_low opd \<Longrightarrow> op2_low 8 inst \<Longrightarrow> body_low (alu_a inst opd n)"
  "eaf_low opd \<Longrightarrow> op2_low 8 inst \<Longrightarrow> body_low (alu_b inst opd n)"
  "eaf_low opd \<Longrightarrow> op2_low 16 inst \<Longrightarrow> body_low (alu_d inst opd n)"
  unfolding body_low_def alu_a_def alu_b_def alu_d_def Let_def split_beta
  by (auto intro!: res_rel_bindr dest: eaf_lowD simp: op2_low_def low_intros low_8_16)

lemma body_cmp [simp]:
  "eaf_low opd \<Longrightarrow> op2_low 8 inst \<Longrightarrow> body_low (cmp_with reg_a inst opd n)"
  "eaf_low opd \<Longrightarrow> op2_low 8 inst \<Longrightarrow> body_low (cmp_with reg_b inst opd n)"
  "eaf_low opd \<Longrightarrow> op2_low 16 inst \<Longrightarrow> body_low (cmp_with reg_x inst opd n)"
  "eaf_low opd \<Longrightarrow> op2_low 16 inst \<Longrightarrow> body_low (cmp_with reg_y inst opd n)"
  "eaf_low opd \<Longrightarrow> op2_low 16 inst \<Longrightarrow> body_low (cmp_with reg_u inst opd n)"
  "eaf_low opd \<Longrightarrow> op2_low 16 inst \<Longrightarrow> body_low (cmp_with reg_s inst opd n)"
  "eaf_low opd \<Longrightarrow> op2_low 16 inst \<Longrightarrow> body_low (cmp_with get_reg_d inst opd n)"
  unfolding body_low_def cmp_with_def
  by (auto intro!: res_rel_bindr dest: eaf_lowD simp: op2_low_def low_intros low_8_16)

lemma body_ld [simp]:
  "eaf_low opd \<Longrightarrow> body_low (ld_a opd n)"
  "eaf_low opd \<Longrightarrow> body_low (ld_b opd n)"
  "eaf_low opd \<Longrightarrow> body_low (ld_d opd n)"
  "eaf_low opd \<Longrightarrow> body_low (ld_r r opd n)"
  unfolding body_low_def ld_a_def ld_b_def ld_d_def ld_r_def Let_def
  by (auto intro!: res_rel_bindr dest: eaf_lowD simp: low_intros low_8_16)

lemma body_st [simp]:
  "eaf_low ea \<Longrightarrow> body_low (st8 reg_a ea n)"
  "eaf_low ea \<Longrightarrow> body_low (st8 reg_b ea n)"
  "eaf_low ea \<Longrightarrow> body_low (st16 reg_x ea n)"
  "eaf_low ea \<Longrightarrow> body_low (st16 reg_y ea n)"
  "eaf_low ea \<Longrightarrow> body_low (st16 reg_u ea n)"
  "eaf_low ea \<Longrightarrow> body_low (st16 reg_s ea n)"
  "eaf_low ea \<Longrightarrow> body_low (st16 get_reg_d ea n)"
  unfolding body_low_def st8_def st16_def
  by (auto intro!: res_rel_bindr write8_low write16_low dest: eaf_lowD simp: low_intros)

lemma body_lea [simp]: "body_low (lea r)" "body_low (lea_z r)"
  unfolding body_low_def lea_def lea_z_def Let_def
  by (auto intro!: res_rel_bindr eaf_lowD [OF eaf_low_indexed] simp: low_intros test_lows)

lemma push_if_low:
  "b = b' \<Longrightarrow> low_eq s t \<Longrightarrow> (\<And>s t. low_eq s t \<Longrightarrow> res_rel (=) (f s) (f' t)) \<Longrightarrow>
   res_rel (=) (push_if b f n s) (push_if b' f' n t)"
  unfolding push_if_def by (auto intro!: res_rel_bindr simp: low_intros)

lemma psh_low:
  "low_eq s t \<Longrightarrow> low 16 d d' \<Longrightarrow> res_rel (=) (inst_psh op sp d s) (inst_psh op sp d' t)"
  unfolding inst_psh_def
  by (intro res_rel_bindr [where P = "(=)"] push_if_low refl)
     (assumption | rule push16_low push8_low low_intros)+

lemma pull_if_low:
  "low_eq s t \<Longrightarrow> (\<And>s t. low_eq s t \<Longrightarrow> low_eq (f s) (f t)) \<Longrightarrow>
   low_eq (pull_if b f n s) (pull_if b f n t)"
  unfolding pull_if_def by (simp add: low_intros)

lemma pul_low [low_intros]: "low_eq s t \<Longrightarrow> low_eq (inst_pul op sp osp s) (inst_pul op sp osp t)"
  unfolding inst_pul_def Let_def split_beta
  by (intro pull_if_low) (simp_all add: pull_lows low_intros)

lemma body_psh_pul [simp]: "body_low (psh_op sp osp)" "body_low (pul_op sp osp)"
  unfolding body_low_def psh_op_def pul_op_def Let_def split_beta
  by (auto intro!: res_rel_bindr [OF psh_low] simp: pull_lows low_intros)

lemma bra_low [low_intros]:
  "low_eq s t \<Longrightarrow> c = c' \<Longrightarrow> low_eq (inst_bra8 c op s) (inst_bra8 c' op t)"
  "low_eq s t \<Longrightarrow> c = c' \<Longrightarrow> low_eq (inst_bra16 c op s) (inst_bra16 c' op t)"
  unfolding inst_bra8_def inst_bra16_def Let_def split_beta
  by (simp_all add: low_intros pull_lows low_eq_field(1) [OF pc_read8_low(2)]
      low_eq_field(1) [OF pc_read16_low(2)])

lemma low_or_FF00: "low 8 x y \<Longrightarrow> low 16 (0xFF00 OR x) (0xFF00 OR y)"
proof -
  have "bit (0xFF00 :: u32) i" if "8 \<le> i" "i < 16" for i
  proof -
    have "bit (push_bit 8 (mask 8) :: u32) i"
      using that by (auto simp: bit_push_bit_iff bit_mask_iff)
    then show ?thesis by (simp add: mask_eq_exp_minus_1)
  qed
  then show "low 8 x y \<Longrightarrow> low 16 (0xFF00 OR x) (0xFF00 OR y)"
    unfolding low_iff_bits bit_or_iff by (metis not_le_imp_less)
qed

lemma exgtfr_read_low: "eaf_low (exgtfr_read r)"
  unfolding exgtfr_read_def
  by (rule switch_all [where P = eaf_low])
     (simp_all add: eaf_low_def exgtfr_die_def low_intros low_or_FF00)

lemma exgtfr_write_low:
  "low_eq s t \<Longrightarrow> low 16 d d' \<Longrightarrow> res_rel (=) (exgtfr_write r d s) (exgtfr_write r d' t)"
  by (simp add: exgtfr_write_def exgtfr_die_def low_intros low_8_16 low_ucast16 [THEN iffD1])

lemma exg_tfr_low [simp]: "body_low inst_exg" "body_low inst_tfr"
  unfolding body_low_def inst_exg_def inst_tfr_def Let_def split_beta
  by (auto intro!: res_rel_bindr [OF eaf_lowD [OF exgtfr_read_low]] res_rel_bindr [OF exgtfr_write_low]
      exgtfr_write_low simp: pull_lows)

lemma body_bind [simp]:
  "body_low f \<Longrightarrow> body_low (\<lambda>s. bindr (f s) (\<lambda>_ s. ok (add_cycles n s)))"
  unfolding body_low_def by (auto intro!: res_rel_bindr [where P = "(=)"] simp: low_intros)

lemma body_swi_vector [simp]: "body_low (swi_vector v)"
  unfolding body_low_def swi_vector_def Let_def
  by (auto intro!: res_rel_bindr [OF psh_low] simp: low_intros read16_low [OF _ low_refl])

lemma body_rti [simp]: "body_low inst_rti"
proof -
  have "get_cc FLAG_E s = get_cc FLAG_E t" if "low_eq s t" for s t :: "'a machine_scheme"
    using that by (rule get_cc_low) simp
  then show ?thesis
    unfolding body_low_def inst_rti_def Let_def by (simp add: low_intros)
qed

lemma body_cwai [simp]: "body_low inst_cwai"
  unfolding body_low_def inst_cwai_def Let_def split_beta
  by (auto intro!: res_rel_bindr [OF psh_low] simp: low_intros pull_lows)

lemma ok_low: "body_low (\<lambda>s. ok (f s)) \<longleftrightarrow> (\<forall>s t. low_eq s t \<longrightarrow> low_eq (f s) (f t))"
  by (simp add: body_low_def)

lemma low_page0_neg_ror: "\<forall>(k, f) \<in> set page0_neg_ror. body_low f"
  by (simp add: page0_neg_ror_def ok_low low_intros)

lemma low_page0_asr_dec: "\<forall>(k, f) \<in> set page0_asr_dec. body_low f"
  by (simp add: page0_asr_dec_def ok_low low_intros)

lemma low_page0_inc_clr: "\<forall>(k, f) \<in> set page0_inc_clr. body_low f"
  by (simp add: page0_inc_clr_def ok_low low_intros)

lemma low_page0_sub_cmp: "\<forall>(k, f) \<in> set page0_sub_cmp. body_low f"
  by (simp add: page0_sub_cmp_def ok_low low_intros)

lemma low_page0_sbc_bit: "\<forall>(k, f) \<in> set page0_sbc_bit. body_low f"
  by (simp add: page0_sbc_bit_def ok_low low_intros)

lemma low_page0_ld_st8: "\<forall>(k, f) \<in> set page0_ld_st8. body_low f"
  by (simp add: page0_ld_st8_def ok_low low_intros)

lemma low_page0_eor_or: "\<forall>(k, f) \<in> set page0_eor_or. body_low f"
  by (simp add: page0_eor_or_def ok_low low_intros)

lemma low_page0_add_cmpx: "\<forall>(k, f) \<in> set page0_add_cmpx. body_low f"
  by (simp add: page0_add_cmpx_def ok_low low_intros)

lemma low_page0_ldx_stu: "\<forall>(k, f) \<in> set page0_ldx_stu. body_low f"
  by (simp add: page0_ldx_stu_def ok_low low_intros)

lemma low_page0_addd_mul: "\<forall>(k, f) \<in> set page0_addd_mul. body_low f"
  by (simp add: page0_addd_mul_def ok_low low_intros)

lemma low_page1_cmp_ld: "\<forall>(k, f) \<in> set page1_cmp_ld. body_low f"
  by (simp add: page1_cmp_ld_def ok_low low_intros)

lemma low_page1_st_swi2: "\<forall>(k, f) \<in> set page1_st_swi2. body_low f"
  by (simp add: page1_st_swi2_def ok_low low_intros)

lemma low_page2: "\<forall>(k, f) \<in> set page2. body_low f"
  by (simp add: page2_def ok_low low_intros)


lemma get_ccs_low:
  assumes "low_eq s t"
  shows "get_cc FLAG_C s = get_cc FLAG_C t" "get_cc FLAG_V s = get_cc FLAG_V t"
    "get_cc FLAG_Z s = get_cc FLAG_Z t" "get_cc FLAG_N s = get_cc FLAG_N t"
    "get_cc FLAG_I s = get_cc FLAG_I t" "get_cc FLAG_F s = get_cc FLAG_F t"
  by (rule get_cc_low [OF assms], simp)+

lemma low_page0_branch: "\<forall>(k, f) \<in> set page0_branch. body_low f"
  by (simp add: page0_branch_def ok_low low_intros get_ccs_low)

lemma low_page1_branch: "\<forall>(k, f) \<in> set page1_branch. body_low f"
  by (simp add: page1_branch_def ok_low low_intros get_ccs_low)

lemma body_fetch:
  assumes "\<And>v. body_low (f v)"
  shows "body_low (\<lambda>s. f (fst (pc_read8 s)) (snd (pc_read8 s)))"
    and "body_low (\<lambda>s. f (fst (pc_read16 s)) (snd (pc_read16 s)))"
  using assms by (simp_all add: body_low_def pull_lows)

lemma body_call [simp]:
  "body_low (\<lambda>s. bindr (push16 S (ucast (reg_pc s)) s)
    (\<lambda>_ s. ok (add_cycles n (s\<lparr>reg_pc := reg_pc s + k\<rparr>))))"
  unfolding body_low_def
  by (auto intro!: res_rel_bindr [OF push16_low] simp: low_intros low_eq_field(1))

lemma low_page0_jump: "\<forall>(k, f) \<in> set page0_jump. body_low f"
  by (simp add: page0_jump_def split_beta ok_low low_intros pull_lows low_eq_field(1) [OF pc_read16_low(2)])
    (intro conjI body_fetch(1) [where f = "\<lambda>r s. bindr (push16 S (ucast (reg_pc s)) s)
    (\<lambda>_ s. ok (add_cycles 7 (s\<lparr>reg_pc := reg_pc s + ucast (sign_extend r)\<rparr>)))"]
     body_fetch(2) [where f = "\<lambda>r s. bindr (push16 S (ucast (reg_pc s)) s)
    (\<lambda>_ s. ok (add_cycles 9 (s\<lparr>reg_pc := reg_pc s + ucast r\<rparr>)))"] body_call)

lemma abx_low: "low_eq s t \<Longrightarrow> low 16 (reg_x s + (reg_b s AND 0xFF)) (reg_x t + (reg_b t AND 0xFF))"
  using low8_andFF [OF low_eq_reg(6)] low_eq_reg(1) by (fastforce intro: low_add)

lemma low_page0_stack: "\<forall>(k, f) \<in> set page0_stack. body_low f"
  by (simp add: page0_stack_def split_beta ok_low low_intros pull_lows abx_low)

lemma body_page1 [simp]: "body_low exec_page1"
proof -
  have "body_low (switch page1_ops (die m) op)" for m op
    by (rule switch_all [where P = body_low])
       (use low_page1_branch low_page1_cmp_ld low_page1_st_swi2 in
         \<open>auto simp: page1_ops_def body_low_def die_low\<close>)
  then show ?thesis
    unfolding exec_page1_def Let_def split_beta by (intro body_fetch(1))
qed

lemma body_page2 [simp]: "body_low exec_page2"
proof -
  have "body_low (switch page2 (die m) op)" for m op
    by (rule switch_all [where P = body_low, OF low_page2]) (simp add: body_low_def die_low)
  then show ?thesis
    unfolding exec_page2_def Let_def split_beta by (intro body_fetch(1))
qed

text \<open>Everything but \<open>swi\<close>, which hands the unmasked D register to the host.\<close>

lemma body_page0_op:
  "op \<noteq> 0x3F \<Longrightarrow> body_low (switch (page0_ops dosys) (die m) op)"
proof -
  assume op: "op \<noteq> 0x3F"
  let ?sys = "[(0x3B, inst_rti), (0x13, \<lambda>s. ok (add_cycles 2 (s\<lparr>irq_status := IRQ_SYNC\<rparr>))),
    (0x19, \<lambda>s. ok (inst_daa s)), (0x3C, inst_cwai), (0x10, exec_page1), (0x11, exec_page2)]"
  let ?ops = "page0_neg_ror @ page0_asr_dec @ page0_inc_clr @ page0_sub_cmp @ page0_sbc_bit @
     page0_ld_st8 @ page0_eor_or @ page0_add_cmpx @ page0_ldx_stu @ page0_addd_mul @
     page0_branch @ page0_jump @ page0_stack @ ?sys"
  have "switch (page0_ops dosys) (die m) op = switch ?ops (die m) op"
    using op by (simp add: page0_ops_def switch_append page0_system_def)
  moreover have "body_low (switch ?ops (die m) op)"
  proof (rule switch_all [where P = body_low])
    show "body_low (die m)" by (simp add: body_low_def die_low)
    have "\<forall>(k, f) \<in> set ?sys. body_low f"
      by (simp add: ok_low low_intros)
    then show "\<forall>(l, f) \<in> set ?ops. body_low f"
      using low_page0_neg_ror low_page0_asr_dec low_page0_inc_clr low_page0_sub_cmp low_page0_sbc_bit
        low_page0_ld_st8 low_page0_eor_or low_page0_add_cmpx low_page0_ldx_stu low_page0_addd_mul
        low_page0_branch low_page0_jump low_page0_stack
      unfolding set_append ball_Un by (intro conjI) assumption+
  qed
  ultimately show ?thesis by simp
qed

lemma exec_page0_low:
  assumes st: "low_eq s t" and op: "fst (pc_read8 s) \<noteq> 0x3F"
  shows "res_rel (=) (exec_page0 dosys s) (exec_page0 dosys' t)"
proof -
  have eq: "fst (pc_read8 t) = fst (pc_read8 s)" using pc_read8_low(1) [OF st] by simp
  have "switch (page0_ops dosys) d op = switch (page0_ops dosys') d op" if "op \<noteq> 0x3F" for op d
    using that by (simp add: page0_ops_def switch_append page0_system_def)
  with op show ?thesis
    unfolding exec_page0_def Let_def split_beta eq
    using body_lowD [OF body_page0_op [OF op] pc_read8_low(2) [OF st]] by simp
qed

lemma inst_swi_low:
  assumes "low_eq s t" and "get_reg_d s = get_reg_d t"
    and "\<And>d s t. low_eq s t \<Longrightarrow> res_rel (=) (dosys d s) (dosys d t)"
  shows "res_rel (=) (inst_swi dosys s) (inst_swi dosys t)"
  unfolding inst_swi_def Let_def assms(2)
  by (rule res_rel_bindr [OF assms(3) [OF assms(1)]]) (auto simp: low_intros split: prod.splits)

lemma read_set_cc [simp]: "read8 a (set_cc f v s) = read8 a s" "read16 a (set_cc f v s) = read16 a s"
  by (simp_all add: read16_def read8_def e6809_read8_def)

lemma irq_low: "low_eq s t \<Longrightarrow> res_rel (=) (take_irq s) (take_irq t)"
  "low_eq s t \<Longrightarrow> res_rel (=) (take_firq s) (take_firq t)"
  unfolding take_irq_def take_firq_def Let_def
  by (auto intro!: res_rel_bindr [where P = "(=)"] psh_low
      simp: low_intros get_ccs_low low_eq_field(2) read16_low [OF _ low_refl])

subsection \<open>One step\<close>

lemma flag_chars_low: "low 8 c c' \<Longrightarrow> flag_chars c ps = flag_chars c' ps"
proof (induction ps arbitrary: c c')
  case (Cons p ps)
  have "low 8 (push_bit 1 c) (push_bit 1 c')"
    by (rule low_push', rule low_mono [OF Cons.prems]) simp
  then show ?case using Cons low8_and [OF Cons.prems, of "0x80"] by simp
qed simp

lemma flagstr_low: "low_eq s t \<Longrightarrow> e6809_get_flagstr s = e6809_get_flagstr t"
  unfolding e6809_get_flagstr_def by (rule flag_chars_low [OF low_eq_reg(8)])

lemma statestr_low: "low_eq s t \<Longrightarrow> e6809_get_statestr s = e6809_get_statestr t"
  by (simp add: e6809_get_statestr_def flagstr_low [of s t] low8_andFF [OF low_eq_reg(5)]
      low8_andFF [OF low_eq_reg(6)] low8_andFF [OF low_eq_reg(7)] low16_andFFFF [OF low_eq_reg(1)]
      low16_andFFFF [OF low_eq_reg(2)] low16_andFFFF [OF low_eq_reg(3)] low16_andFFFF [OF low_eq_reg(4)]
      low_eq_field)

lemma log_after_low: "low_eq s t \<Longrightarrow> low_eq (log_after s) (log_after t)"
  unfolding log_after_def by (intro low_intros) (simp_all add: statestr_low)

lemma debug_low: "low_eq s t \<Longrightarrow> (\<lambda>a. e6809_read8_debug a s) = (\<lambda>a. e6809_read8_debug a t)"
  by (rule ext) (simp add: e6809_read8_debug_def low_eq_field(5) [of s t])

lemma lookup_symbol_low: "low_eq s t \<Longrightarrow> res_rel (=) (lookup_symbol a s) (lookup_symbol a t)"
  by (simp add: lookup_symbol_def low_eq_field(8) low_intros split: sum.splits prod.splits)

lemma low_eq_maps: "low_eq s t \<Longrightarrow> low_eq (s\<lparr>maps := m\<rparr>) (t\<lparr>maps := m\<rparr>)"
  by (simp add: low_eq_iff)

lemma log_before_low: "low_eq s t \<Longrightarrow> res_rel (=) (log_before s) (log_before t)"
proof -
  assume st: "low_eq s t"
  have "res_rel (=) (if mapfile_loaded (maps s) then lookup_symbol (ucast (reg_pc s)) s else Inr (None, s))
      (if mapfile_loaded (maps t) then lookup_symbol (ucast (reg_pc t)) t else Inr (None, t))"
    using st by (simp add: low_eq_field(1,8) lookup_symbol_low)
  then show ?thesis
    unfolding log_before_def Let_def debug_low [OF st] low_eq_field(9) [OF st] low_eq_field(1) [OF st]
    using st by (auto intro!: res_rel_bindr [where P = "(=)"] simp: low_intros low_eq_field(1) low_eq_field(8))
qed

end
