(* ===== verification/Monitor.thy ===== *)
theory Monitor
  imports Step
begin

text \<open>
  The command interpreter of the monitor (\<open>emulators/emumon.c\<close>): the shims for
  the 6809, the parsers of commands and addresses, the dumps, single stepping and
  the command loop. The lines that \<open>readline\<close> will return are part of the state;
  at the end of the input it returns NULL, which the code dereferences.
\<close>

record console = machine +
  input :: "string list"

text \<open>A machine at power on with lines to read.\<close>

definition console_on :: "string list \<Rightarrow> console" where
  "console_on ls = machine.extend power_on (console.fields ls)"

subsection \<open>The 6809 shims\<close>

definition getub :: "u32 \<Rightarrow> 'z machine_scheme \<Rightarrow> u8" where
  "getub addr s = e6809_read8 addr s"

definition disassemble_instruction :: "u32 \<Rightarrow> 'z machine_scheme \<Rightarrow> string \<times> u32" where
  "disassemble_instruction addr s =
     (let (buf, n) = d6809_disassemble (\<lambda>a. e6809_read8_debug a s) addr in (buf, addr + n))"

definition get_cpu_state :: "'z machine_scheme \<Rightarrow> string" where
  "get_cpu_state s = e6809_get_statestr s"

definition run_instruction ::
  "'z monitor \<Rightarrow> 'z syscall \<Rightarrow> 'z machine_scheme \<Rightarrow> ('z machine_scheme, u32) res" where
  "run_instruction mon dosys s = e6809_sstep mon dosys False False s"

definition write_mem :: "u32 \<Rightarrow> u32 \<Rightarrow> 'z machine_scheme \<Rightarrow> ('z machine_scheme, unit) res" where
  "write_mem addr val s = e6809_write8 addr (ucast (val AND 0xFF)) s"

subsection \<open>Commands\<close>

datatype cmd_numbers = CMD_BRK | CMD_DISASM | CMD_EXIT | CMD_GO | CMD_NOBRK | CMD_PRINT | CMD_QUIT
  | CMD_RBRK | CMD_STEP | CMD_WBRK | CMD_WRITE

definition cmd_table :: "(string \<times> cmd_numbers) list" where
  "cmd_table =
     [(''s'', CMD_STEP), (''step'', CMD_STEP),
      (''x'', CMD_EXIT), (''exit'', CMD_EXIT),
      (''q'', CMD_QUIT), (''quit'', CMD_QUIT),
      (''g'', CMD_GO), (''go'', CMD_GO),
      (''p'', CMD_PRINT), (''print'', CMD_PRINT),
      (''d'', CMD_DISASM), (''dis'', CMD_DISASM),
      (''w'', CMD_WRITE), (''write'', CMD_WRITE),
      (''b'', CMD_BRK), (''brk'', CMD_BRK),
      (''wb'', CMD_WBRK), (''wbrk'', CMD_WBRK),
      (''nb'', CMD_NOBRK), (''nbrk'', CMD_NOBRK)]"

text \<open>\<open>get_command\<close> lowers the word in place; no command is -1 in the code.\<close>

definition get_command :: "string \<Rightarrow> string \<times> cmd_numbers option" where
  "get_command str = (let low = map tolower str in (low, map_of cmd_table low))"

text \<open>
  \<open>str_scan\<close>: the words it stores in the table and the index it returns. A
  blank after the last word makes that index one more than the last word's.
\<close>

fun str_scan :: "string \<Rightarrow> nat \<Rightarrow> string list \<times> nat" where
  "str_scan str 0 =
     (let str = dropWhile (\<lambda>c. \<not> isgraph c) str in if str = [] then ([], 0) else ([str], 0))"
| "str_scan str (Suc maxi) =
     (let str = dropWhile (\<lambda>c. \<not> isgraph c) str
      in if str = [] then ([], 0)
         else let w = takeWhile isgraph str; str = dropWhile isgraph str
              in if str = [] then ([w], 0)
                 else let (ws, i) = str_scan (tl str) maxi in (w # ws, i + 1))"

subsection \<open>Addresses\<close>

text \<open>
  \<open>parse_addr\<close> cuts the string at the plus sign in place. The result is the
  address (or -1), the string it leaves, and what it stored in \<open>*issym\<close>.
\<close>

function parse_addr :: "mapstate \<Rightarrow> string \<Rightarrow> u32 \<times> string \<times> bool option" where
  "parse_addr m [] = (minus_one, [], None)"
| "parse_addr m (c # cs) =
     (if c = CHR ''$'' then (strtol_int cs 16, c # cs, Some False)
      else if isdigit c then (strtol_int (c # cs) 10, c # cs, Some False)
      else let sym = takeWhile (\<lambda>x. x \<noteq> CHR ''+'') (c # cs);
               offptr = dropWhile (\<lambda>x. x \<noteq> CHR ''+'') (c # cs);
               offset = (if offptr = [] then 0 else fst (parse_addr m (tl offptr)))
           in if offset = minus_one then (minus_one, sym, Some False)
              else let symaddr = get_sym_address sym m
                   in if symaddr = minus_one then (minus_one, sym, Some True)
                      else (symaddr + offset, sym, Some True))"
  by pat_completeness auto
termination
proof (relation "measure (\<lambda>(m, s). length s)", simp)
  fix m :: mapstate and c cs and sym offptr :: string
  assume "offptr = dropWhile (\<lambda>x. x \<noteq> CHR ''+'') (c # cs)" "offptr \<noteq> []"
  then have "length (tl offptr) < length (c # cs)"
    using length_dropWhile_le [of "\<lambda>x. x \<noteq> CHR ''+''" "c # cs"] by (cases offptr) auto
  then show "((m, tl offptr), m, c # cs) \<in> measure (\<lambda>(m, s). length s)" by simp
qed

definition parse_addr_msg ::
  "string \<Rightarrow> 'z machine_scheme \<Rightarrow> (u32 \<times> string \<times> bool option) \<times> 'z machine_scheme" where
  "parse_addr_msg addr s =
     (let (result, str, issym) = parse_addr (maps s) addr
      in ((result, str, issym),
          if result = minus_one then put_stdout (''Address '' @ str @ '' is malformed'' @ newline) s
          else s))"

subsection \<open>Dumps\<close>

text \<open>The symbol at an address, if a map is loaded.\<close>

definition symbol_at ::
  "u32 \<Rightarrow> 'z machine_scheme \<Rightarrow> ('z machine_scheme, (string option \<times> u32) option) res" where
  "symbol_at addr s = (if mapfile_loaded (maps s) then lookup_symbol addr s else Inr (None, s))"

text \<open>
  The disassembly loop of \<open>dump_mem\<close>. An instruction has at least one byte, so a
  next address that is not above this one is an overflow of the \<open>int\<close>, which C
  leaves undefined.
\<close>

function dump_disasm :: "u32 \<Rightarrow> u32 \<Rightarrow> 'z machine_scheme \<Rightarrow> ('z machine_scheme, unit) res" where
  "dump_disasm addr end s =
     (if sint addr \<le> sint end then
        let (buf, newaddr) = disassemble_instruction addr s
        in if \<not> sint addr < sint newaddr then Inl (Fault, s)
           else bindr (symbol_at addr s) (\<lambda>r s.
                  dump_disasm newaddr end
                    (put_stdout (sym_prefix ''+$'' addr r @ '': '' @ fmt_m16s buf @ newline) s))
      else ok (put_stdout newline s))"
  by pat_completeness auto
termination
  by (relation "measure (\<lambda>(addr, end, s). nat (sint end + 1 - sint addr))") auto

text \<open>The loop of \<open>dump_mem\<close> over the lines of sixteen bytes.\<close>

definition dump_line :: "u32 \<Rightarrow> u8 list \<Rightarrow> string" where
  "dump_line addr bs = fmt_04X (unat addr) @ '': '' @
     concat (map (\<lambda>b. fmt_02X (unat b) @ '' '') bs) @
     concat (replicate (16 - length bs) ''   '') @ ''  '' @
     map (\<lambda>b. let c = char_of (unat b) in if isprint c then c else CHR ''.'') bs @ newline"

function dump_bytes :: "u32 \<Rightarrow> u32 \<Rightarrow> 'z machine_scheme \<Rightarrow> string" where
  "dump_bytes addr end s =
     (let n = min 16 (nat (sint end + 1 - sint addr));
          bs = map (\<lambda>i. getub (addr + of_nat i) s) [0..<n];
          addr1 = addr + of_nat n
      in if sint addr < sint addr1 \<and> sint addr1 \<le> sint end
         then dump_line addr bs @ dump_bytes addr1 end s
         else dump_line addr bs)"
  by pat_completeness auto
termination
  by (relation "measure (\<lambda>(addr, end, s). nat (sint end + 1 - sint addr))") auto

text \<open>\<open>dump_mem\<close>. The comparison with \<open>end + 1\<close> overflows for the largest \<open>int\<close>.\<close>

definition dump_mem :: "u32 \<Rightarrow> u32 \<Rightarrow> cmd_numbers \<Rightarrow> 'z machine_scheme \<Rightarrow> ('z machine_scheme, unit) res" where
  "dump_mem start end cmd s =
     (if sint start > sint end then ok (put_stdout (''addresses out of order'' @ newline) s)
      else if cmd = CMD_DISASM then dump_disasm start end s
      else if end = 0x7FFFFFFF then Inl (Fault, s)
      else ok (put_stdout (''$'' @ fmt_04X (unat start) @ '' to $'' @ fmt_04X (unat end) @ '':'' @ newline @
                 dump_bytes start end s) s))"


subsection \<open>Stepping\<close>

text \<open>\<open>run_instructions\<close>, with the processor step as an argument.\<close>

primrec run_instructions ::
  "('z machine_scheme \<Rightarrow> ('z machine_scheme, u32) res) \<Rightarrow> nat \<Rightarrow> u32 \<Rightarrow>
   'z machine_scheme \<Rightarrow> ('z machine_scheme, u32) res" where
  "run_instructions step 0 addr s = Inr (addr, s)"
| "run_instructions step (Suc n) addr s =
     (let buf = fst (disassemble_instruction addr s)
      in bindr (symbol_at addr s) (\<lambda>r s.
           let s = put_stdout (sym_prefix ''+'' addr r @ '': '' @ fmt_m16s buf @ '' | '') s;
               s = s\<lparr>bp := ignore_breakpoint addr (bp s)\<rparr>
           in bindr (step s) (\<lambda>addr s.
                run_instructions step n addr (put_stdout (get_cpu_state s @ newline) s))))"

subsection \<open>The command loop\<close>

text \<open>
  The local variables of \<open>monitor\<close> that outlive one command: the pointers of the
  last scans, where \<open>None\<close> is a pointer that has never been set, and \<open>issym\<close>.
\<close>

record monitor_locals =
  arg :: "string option list"
  issym :: "bool option"

definition locals_initial :: monitor_locals where
  "locals_initial = \<lparr>arg = replicate 10 None, issym = None\<rparr>"

definition store_args :: "string list \<Rightarrow> string option list \<Rightarrow> string option list" where
  "store_args ws old = map Some ws @ drop (length ws) old"

definition monitor_usage :: string where
  "monitor_usage =
     ''Monitor usage:'' @ newline @
     [] @ newline @
     ''s, step <num>             - execute 1 or <num> instructions'' @ newline @
     ''x, exit                   - exit the monitor, back to running'' @ newline @
     ''q, quit                   - quit the emulation'' @ newline @
     ''g, go <addr>              - start execution at address'' @ newline @
     ''p, print <addr> [<addr2>] - dump memory in the address range'' @ newline @
     ''d, dis <addr> [<addr2>]   - disassemble memory in the address range'' @ newline @
     ''w, write <addr> <value>   - overwrite memory with value'' @ newline @
     ''b, brk [<addr>]           - set instruction breakpoint at <addr> or'' @ newline @
     ''                            show list of breakpoints'' @ newline @
     ''wb, wbrk <addr>           - set a write breakpoint at <addr>'' @ newline @
     ''nb, nbrk [<addr>]         - remove breakpoint at <addr>, or all'' @ newline @
     [] @ newline @
     ''Addresses and Values'' @ newline @
     [] @ newline @
     ''Decimal literals start with [0-9], e.g. 23'' @ newline @
     ''Hexadecimal literals start with $, e.g. $1234'' @ newline @
     ''Symbols start with _ or [A-Za-z], e.g. _printf'' @ newline @
     ''Synbols + offset, e.g. _printf+23, _printf+$100'' @ newline @
     [] @ newline"

definition bpt_str :: "brkpt_nums \<Rightarrow> string" where
  "bpt_str t = (case t of BRK_EMPTY \<Rightarrow> [] | BRK_WRITE \<Rightarrow> ''wr'' | BRK_INST \<Rightarrow> ''pc'')"

definition fmt_05d :: "int \<Rightarrow> string" where
  "fmt_05d i = (if i < 0 then ''-'' @ pad_left 4 (CHR ''0'') (dec_str (nat (- i)))
     else pad_left 5 (CHR ''0'') (dec_str (nat i)))"

fun print_breakpoints :: "brkpoint list \<Rightarrow> 'z machine_scheme \<Rightarrow> ('z machine_scheme, unit) res" where
  "print_breakpoints [] s = ok s"
| "print_breakpoints (p # ps) s =
     (if bp_type p = BRK_EMPTY then print_breakpoints ps s
      else let s = put_stdout (''  $'' @ fmt_04X (unat (bp_addr p)) @ '' ('' @ fmt_05d (sint (bp_addr p)) @
                     ''): '' @ bpt_str (bp_type p)) s
           in bindr (symbol_at (bp_addr p) s) (\<lambda>r s.
                print_breakpoints ps (put_stdout ((case r of
                  Some (Some nm, offset) \<Rightarrow> [CHR 0x09] @ nm @ ''+$'' @ hex_str (unat offset)
                | _ \<Rightarrow> []) @ newline) s)))"

definition set_breakpoint_msg :: "u32 \<Rightarrow> brkpt_nums \<Rightarrow> 'z machine_scheme \<Rightarrow> 'z machine_scheme" where
  "set_breakpoint_msg addr ty s =
     (case set_breakpoint addr ty (bp s) of
        Some b \<Rightarrow> s\<lparr>bp := b\<rparr>
      | None \<Rightarrow> put_stdout (''No free breakpoint slot to set a breakpoint!'' @ newline) s)"

text \<open>An argument: a pointer that was never set is a fault.\<close>

definition the_arg :: "nat \<Rightarrow> monitor_locals \<Rightarrow> 's \<Rightarrow> ('s, string) res" where
  "the_arg k l s = (case arg l ! k of None \<Rightarrow> Inl (Fault, s) | Some str \<Rightarrow> Inr (str, s))"

text \<open>\<open>parse_addr_msg(arg[k], ...)\<close>, which may cut the argument.\<close>

definition arg_addr ::
  "nat \<Rightarrow> monitor_locals \<Rightarrow> 'z machine_scheme \<Rightarrow> ('z machine_scheme, u32 \<times> bool option \<times> monitor_locals) res" where
  "arg_addr k l s =
     bindr (the_arg k l s) (\<lambda>str s.
       let ((addr, str, sym), s) = parse_addr_msg str s
       in Inr ((addr, sym, l\<lparr>arg := (arg l)[k := Some str]\<rparr>), s))"

text \<open>How a command ends: the loop goes on with a program counter, or the monitor returns.\<close>

datatype outcome = Next monitor_locals u32 | Return u32

definition usage_msg :: "string \<Rightarrow> string \<Rightarrow> 'z machine_scheme \<Rightarrow> 'z machine_scheme" where
  "usage_msg cmd rest s = put_stdout (''  Usage: '' @ cmd @ rest @ newline) s"

definition cmd_brk :: "nat \<Rightarrow> monitor_locals \<Rightarrow> 'z machine_scheme \<Rightarrow> ('z machine_scheme, monitor_locals) res" where
  "cmd_brk arg_count l s =
     (if arg_count = 2 then
        bindr (arg_addr 1 l s) (\<lambda>(addr, _, l) s.
          Inr (l, if addr \<noteq> minus_one then set_breakpoint_msg addr BRK_INST s else s))
      else bindr (print_breakpoints (brkpointlist (bp s))
                   (put_stdout (''Breakpoints: '' @ newline @ newline) s)) (\<lambda>_ s. Inr (l, s)))"

definition cmd_wbrk ::
  "string \<Rightarrow> nat \<Rightarrow> monitor_locals \<Rightarrow> 'z machine_scheme \<Rightarrow> ('z machine_scheme, monitor_locals) res" where
  "cmd_wbrk name arg_count l s =
     (if arg_count \<noteq> 2 then Inr (l, usage_msg name '' <addr>'' s)
      else bindr (arg_addr 1 l s) (\<lambda>(addr, _, l) s.
             Inr (l, if addr \<noteq> minus_one then set_breakpoint_msg addr BRK_WRITE s else s)))"

definition cmd_nobrk :: "nat \<Rightarrow> monitor_locals \<Rightarrow> 'z machine_scheme \<Rightarrow> ('z machine_scheme, monitor_locals) res" where
  "cmd_nobrk arg_count l s =
     (if arg_count = 2 then
        bindr (arg_addr 1 l s) (\<lambda>(addr, _, l) s.
          Inr (l, if addr \<noteq> minus_one then s\<lparr>bp := remove_breakpoint addr (bp s)\<rparr> else s))
      else Inr (l, s\<lparr>bp := remove_all_breakpoints (bp s)\<rparr>))"

definition cmd_go ::
  "string \<Rightarrow> nat \<Rightarrow> monitor_locals \<Rightarrow> u32 \<Rightarrow> 'z machine_scheme \<Rightarrow> ('z machine_scheme, outcome) res" where
  "cmd_go name arg_count l curpc s =
     (if arg_count \<noteq> 2 then Inr (Next l curpc, usage_msg name '' <addr>'' s)
      else bindr (arg_addr 1 l s) (\<lambda>(addr, _, l) s.
             Inr (if addr \<noteq> minus_one then Return addr else Next l curpc, s)))"

text \<open>The dump commands. The code tests the first address twice.\<close>

definition cmd_dump ::
  "string \<Rightarrow> cmd_numbers \<Rightarrow> nat \<Rightarrow> monitor_locals \<Rightarrow> 'z machine_scheme \<Rightarrow> ('z machine_scheme, monitor_locals) res" where
  "cmd_dump name cmd arg_count l s =
     (if arg_count < 2 \<or> arg_count > 3 then Inr (l, usage_msg name '' <addr> [<addr2>]'' s)
      else bindr (arg_addr 1 l s) (\<lambda>(addr, issymbol, l) s.
           let l = (case issymbol of None \<Rightarrow> l | Some b \<Rightarrow> l\<lparr>issym := Some b\<rparr>)
           in bindr (if arg_count = 3
                     then bindr (arg_addr 2 l s) (\<lambda>(addr2, _, l) s. Inr ((addr2, l), s))
                     else case issym l of
                       None \<Rightarrow> Inl (Fault, s)
                     | Some False \<Rightarrow> Inr ((addr + 0xFF, l), s)
                     | Some True \<Rightarrow> bindr (the_arg 1 l s) (\<lambda>str s.
                         Inr ((get_sym_end_address str (maps s), l), s))) (\<lambda>(addr2, l) s.
                bindr (if addr \<noteq> minus_one \<or> addr \<noteq> minus_one then dump_mem addr addr2 cmd s else ok s)
                  (\<lambda>_ s. Inr (l, s)))))"

definition cmd_step ::
  "('z machine_scheme \<Rightarrow> ('z machine_scheme, u32) res) \<Rightarrow> string \<Rightarrow> nat \<Rightarrow> monitor_locals \<Rightarrow> u32 \<Rightarrow>
   'z machine_scheme \<Rightarrow> ('z machine_scheme, u32) res" where
  "cmd_step step name arg_count l curpc s =
     (if arg_count > 2 then Inr (curpc, usage_msg name '' [<num>]'' s)
      else bindr (if arg_count = 2
                  then bindr (the_arg 1 l s) (\<lambda>str s. Inr (strtol_int str 10, s))
                  else Inr (1, s)) (\<lambda>count s.
             run_instructions step (nat (sint count)) curpc s))"

definition cmd_write ::
  "string \<Rightarrow> nat \<Rightarrow> monitor_locals \<Rightarrow> 'z machine_scheme \<Rightarrow> ('z machine_scheme, monitor_locals) res" where
  "cmd_write name arg_count l s =
     (if arg_count \<noteq> 3 then Inr (l, usage_msg name '' <addr> <value>'' s)
      else bindr (arg_addr 1 l s) (\<lambda>(addr, _, l) s.
           bindr (the_arg 2 l s) (\<lambda>str s.
             let val = (if str \<noteq> [] \<and> hd str = CHR ''$'' then strtol_int (tl str) 16 else strtol_int str 10)
             in bindr (write_mem addr val s) (\<lambda>_ s. Inr (l, s)))))"

text \<open>One command: the line is scanned, its first word looked up, the switch run.\<close>

definition exec_command ::
  "('z machine_scheme \<Rightarrow> ('z machine_scheme, u32) res) \<Rightarrow> string \<Rightarrow> monitor_locals \<Rightarrow> u32 \<Rightarrow>
   'z machine_scheme \<Rightarrow> ('z machine_scheme, outcome) res" where
  "exec_command step line l curpc s =
     (let (ws, i) = str_scan line 5; arg_count = i + 1;
          l = l\<lparr>arg := store_args ws (arg l)\<rparr>
      in bindr (the_arg 0 l s) (\<lambda>str s.
         let (name, cmd) = get_command str;
             l = l\<lparr>arg := (arg l)[0 := Some name]\<rparr>;
             again = (\<lambda>l s. Inr (Next l curpc, s))
         in case cmd of
              Some CMD_QUIT \<Rightarrow> Inl (Exit 0, s)
            | Some CMD_EXIT \<Rightarrow> Inr (Return minus_one, s)
            | Some CMD_BRK \<Rightarrow> bindr (cmd_brk arg_count l s) again
            | Some CMD_WBRK \<Rightarrow> bindr (cmd_wbrk name arg_count l s) again
            | Some CMD_NOBRK \<Rightarrow> bindr (cmd_nobrk arg_count l s) again
            | Some CMD_GO \<Rightarrow> cmd_go name arg_count l curpc s
            | Some CMD_DISASM \<Rightarrow> bindr (cmd_dump name CMD_DISASM arg_count l s) again
            | Some CMD_PRINT \<Rightarrow> bindr (cmd_dump name CMD_PRINT arg_count l s) again
            | Some CMD_STEP \<Rightarrow> bindr (cmd_step step name arg_count l curpc s) (\<lambda>pc s. Inr (Next l pc, s))
            | Some CMD_WRITE \<Rightarrow> bindr (cmd_write name arg_count l s) again
            | _ \<Rightarrow> Inr (Next l curpc, put_stdout monitor_usage s)))"

text \<open>
  The loop of \<open>monitor\<close> reads a line for every command, and the monitor that a
  single step may enter reads lines of its own, so the number of lines left
  bounds the recursion: with no line left, \<open>readline\<close> returns NULL.
\<close>

definition monitor_entry :: "u32 \<Rightarrow> 'z machine_scheme \<Rightarrow> 'z machine_scheme" where
  "monitor_entry curpc s =
     (let (hit, s) = check_brk curpc BRK_INST s
      in if hit then put_stdout (''Stopped at $'' @ fmt_04X (unat curpc) @ newline) s else s)"

fun monitor_loop ::
  "nat \<Rightarrow> ('z console_ext) syscall \<Rightarrow> monitor_locals \<Rightarrow> u32 \<Rightarrow> 'z console_scheme \<Rightarrow> ('z console_scheme, u32) res" where
  "monitor_loop 0 dosys l curpc s = Inl (Fault, s)"
| "monitor_loop (Suc n) dosys l curpc s =
     (case input s of
        [] \<Rightarrow> Inl (Fault, s)
      | line # rest \<Rightarrow>
          let s = s\<lparr>input := rest\<rparr>
          in if line = [] then Inr (minus_one, s)
             else bindr (exec_command
                    (run_instruction (\<lambda>pc s. monitor_loop n dosys locals_initial pc (monitor_entry pc s)) dosys)
                    line l curpc s) (\<lambda>out s.
                  case out of Return addr \<Rightarrow> Inr (addr, s)
                  | Next l curpc \<Rightarrow> monitor_loop n dosys l curpc s))"

definition monitor :: "('z console_ext) syscall \<Rightarrow> ('z console_ext) monitor" where
  "monitor dosys curpc s =
     monitor_loop (length (input s)) dosys locals_initial curpc (monitor_entry curpc s)"

end
