(* ===== verification/Syscalls.thy ===== *)
theory Syscalls
  imports Monitor
begin

text \<open>
  The FUZIX system call handler (\<open>emulators/syscalls.c\<close>, the 6809 part). The host
  operating system is a parameter: a function from a call and the host's own
  state to a reply and the new state. Pointers into the emulated memory are
  byte addresses of \<open>ram\<close>; an access that leaves the array is a fault.
\<close>

subsection \<open>The host\<close>

text \<open>\<open>struct stat\<close> and \<open>struct termios\<close> of the host, as far as the handler uses them.\<close>

record hstat =
  h_dev :: int
  h_ino :: int
  h_mode :: int
  h_nlink :: int
  h_uid :: int
  h_gid :: int
  h_rdev :: int
  h_size :: int
  h_atime :: int
  h_mtime :: int
  h_ctime :: int

record termios =
  t_iflag :: u32
  t_oflag :: u32
  t_lflag :: u32
  t_cc :: "nat \<Rightarrow> u8"

text \<open>
  A call of the C library: its name and arguments. Most take integers, or a path
  and integers, or two paths.
\<close>

datatype hostcall =
    H_call string "u32 list"
  | H_path string string "u32 list"
  | H_path2 string string string
  | H_read u32 nat
  | H_write u32 "u8 list"
  | H_lseek u32 int u32
  | H_tcsetattr u32 u32 termios
  | H_execv string "string list"

text \<open>
  A reply: the result, \<open>errno\<close> if the call set it, and what the call left in the
  caller's buffers: bytes read, a \<open>struct stat\<close>, a \<open>struct termios\<close>, the
  entries of a directory stream (\<open>None\<close> for a NULL stream), two numbers (pipe
  descriptors, window size, wait status), a string (the name of a temporary file,
  the text of an error).
\<close>

record hostreply =
  rv :: int
  rerr :: "u32 option"
  rbytes :: "u8 list"
  rstat :: hstat
  rterm :: termios
  rdir :: "(int \<times> string) list option"
  rpair :: "int \<times> int"
  rname :: string

type_synonym 'h os = "hostcall \<Rightarrow> 'h \<Rightarrow> hostreply \<times> 'h"

abbreviation EACCES :: u32 where "EACCES \<equiv> 13"
abbreviation EFAULT :: u32 where "EFAULT \<equiv> 14"
abbreviation EINVAL :: u32 where "EINVAL \<equiv> 22"
abbreviation ENOMEM :: u32 where "ENOMEM \<equiv> 12"

text \<open>
  The static variables of the handler and the global \<open>errno\<close>. Both file name
  buffers start with the root directory, whose length \<open>rfn\<close> points behind.
\<close>

record 'h process = console +
  curbrk :: u16
  initbrk :: u16
  errno :: u32
  emuname :: string
  fuzix_root :: string
  realfilename :: "string list"
  whichrfn :: nat
  host :: 'h

text \<open>A process at power on, with lines to read and the host's state.\<close>

definition process_on :: "string list \<Rightarrow> 'h \<Rightarrow> 'h process" where
  "process_on ls h = console.extend (console_on ls) (process.fields 0 0 0 [] [] [[], []] 0 h)"

definition host_call ::
  "'h os \<Rightarrow> hostcall \<Rightarrow> ('h, 'z) process_scheme \<Rightarrow> hostreply \<times> ('h, 'z) process_scheme" where
  "host_call os c s =
     (let (r, h) = os c (host s)
      in (r, s\<lparr>host := h, errno := (case rerr r of Some e \<Rightarrow> e | None \<Rightarrow> errno s)\<rparr>))"

text \<open>A case that ends with \<open>result = f(...)\<close>.\<close>

definition call_result ::
  "'h os \<Rightarrow> hostcall \<Rightarrow> ('h, 'z) process_scheme \<Rightarrow> (('h, 'z) process_scheme, int) res" where
  "call_result os c s = (let (r, s) = host_call os c s in Inr (rv r, s))"

definition fail_with :: "u32 \<Rightarrow> ('h, 'z) process_scheme \<Rightarrow> (('h, 'z) process_scheme, int) res" where
  "fail_with e s = Inr (-1, s\<lparr>errno := e\<rparr>)"

subsection \<open>Arguments and memory\<close>

definition get_sp :: "'z machine_scheme \<Rightarrow> u16" where
  "get_sp s = r_s (e6809_get_regs s)"

definition get_memptr :: "u16 \<Rightarrow> u16 option" where
  "get_memptr addr = (if addr = 0 then None else Some addr)"

definition siarg :: "u16 \<Rightarrow> 'z machine_scheme \<Rightarrow> int" where
  "siarg off s =
     (let sp = get_sp s + 2 + off;
          val = uint (push_bit 8 (ucast (e6809_read8 (ucast sp) s)) OR
                      ucast (e6809_read8 (ucast sp + 1) s) :: u32)
      in if val > 0x8000 then val - 0x10000 else val)"

definition uiarg :: "u16 \<Rightarrow> 'z machine_scheme \<Rightarrow> u32" where
  "uiarg off s =
     (let sp = get_sp s + 2 + off
      in push_bit 8 (ucast (e6809_read8 (ucast sp) s)) OR ucast (e6809_read8 (ucast sp + 1) s))"

definition ularg :: "u16 \<Rightarrow> 'z machine_scheme \<Rightarrow> u32" where
  "ularg off s =
     (let sp = ucast (get_sp s + 2 + off)
      in push_bit 24 (ucast (e6809_read8 sp s)) OR push_bit 16 (ucast (e6809_read8 (sp + 1) s)) OR
         push_bit 8 (ucast (e6809_read8 (sp + 2) s)) OR ucast (e6809_read8 (sp + 3) s))"

definition putui :: "u16 \<Rightarrow> u16 \<Rightarrow> 'z machine_scheme \<Rightarrow> ('z machine_scheme, unit) res" where
  "putui addr val s =
     bindr (e6809_write8 (ucast addr) (ucast (drop_bit 8 val)) s) (\<lambda>_.
       e6809_write8 (ucast (addr + 1)) (ucast (val AND 0xFF)))"

definition getui :: "u16 \<Rightarrow> 'z machine_scheme \<Rightarrow> u16" where
  "getui addr s =
     push_bit 8 (ucast (e6809_read8 (ucast addr) s)) OR ucast (e6809_read8 (ucast addr + 1) s)"

text \<open>Bytes of the array \<open>ram\<close> through a pointer.\<close>

definition load_bytes :: "nat \<Rightarrow> nat \<Rightarrow> 'z machine_scheme \<Rightarrow> ('z machine_scheme, u8 list) res" where
  "load_bytes a n s =
     (if a + n \<le> 65536 then Inr (map (\<lambda>i. ram s (of_nat (a + i))) [0..<n], s) else Inl (Fault, s))"

definition store_bytes :: "nat \<Rightarrow> u8 list \<Rightarrow> 'z machine_scheme \<Rightarrow> ('z machine_scheme, unit) res" where
  "store_bytes a bs s =
     (if a + length bs \<le> 65536
      then ok (s\<lparr>ram := (\<lambda>x. if a \<le> unat x \<and> unat x < a + length bs then bs ! (unat x - a) else ram s x)\<rparr>)
      else Inl (Fault, s))"

text \<open>The members of a structure, one store after the other.\<close>

fun store_fields :: "nat \<Rightarrow> (nat \<times> u8 list) list \<Rightarrow> 'z machine_scheme \<Rightarrow> ('z machine_scheme, unit) res" where
  "store_fields a [] s = ok s"
| "store_fields a ((off, bs) # fs) s = bindr (store_bytes (a + off) bs s) (\<lambda>_. store_fields a fs)"

definition be16 :: "u16 \<Rightarrow> u8 list" where
  "be16 w = [ucast (drop_bit 8 w), ucast w]"

definition be32 :: "u32 \<Rightarrow> u8 list" where
  "be32 w = [ucast (drop_bit 24 w), ucast (drop_bit 16 w), ucast (drop_bit 8 w), ucast w]"

definition of_be16 :: "u8 list \<Rightarrow> u16" where
  "of_be16 bs = push_bit 8 (ucast (bs ! 0)) OR ucast (bs ! 1)"

definition of_be32 :: "u8 list \<Rightarrow> u32" where
  "of_be32 bs = push_bit 24 (ucast (bs ! 0)) OR push_bit 16 (ucast (bs ! 1)) OR
     push_bit 8 (ucast (bs ! 2)) OR ucast (bs ! 3)"

text \<open>The C string at an address; without a NUL it runs off the array.\<close>

function cstr_at :: "u16 \<Rightarrow> 'z machine_scheme \<Rightarrow> string option" where
  "cstr_at a s =
     (if ram s a = 0 then Some []
      else if a = 0xFFFF then None
      else map_option ((#) (char_of (unat (ram s a)))) (cstr_at (a + 1) s))"
  by pat_completeness auto
termination
proof (relation "measure (\<lambda>(a, s). 65536 - unat a)", simp)
  fix a :: u16 and s :: "'z machine_scheme"
  assume "a \<noteq> 0xFFFF"
  then have a: "unat a < 65535" using unsigned_less [of a, where ?'a = nat] by (simp add: word_unat_eq_iff)
  then have "unat (a + 1) = Suc (unat a)" by (simp add: unat_word_ariths)
  with a show "((a + 1, s), a, s) \<in> measure (\<lambda>(a, s). 65536 - unat a)" by simp
qed

declare cstr_at.simps [simp del]


subsection \<open>File names\<close>

text \<open>
  \<open>xlate_filename\<close> returns its argument, or one of the two buffers with the name
  copied behind the root directory. A buffer has room for 8192 bytes.
\<close>

datatype cptr = In_ram u16 | In_buffer nat

definition c_string :: "u16 \<Rightarrow> 'z machine_scheme \<Rightarrow> ('z machine_scheme, string) res" where
  "c_string a s = (case cstr_at a s of None \<Rightarrow> Inl (Fault, s) | Some str \<Rightarrow> Inr (str, s))"

definition xlate_filename ::
  "u16 option \<Rightarrow> ('h, 'z) process_scheme \<Rightarrow> (('h, 'z) process_scheme, cptr option) res" where
  "xlate_filename name s =
     (case name of
        None \<Rightarrow> Inr (None, s)
      | Some a \<Rightarrow>
          if char_of (unat (ram s a)) \<noteq> CHR ''/'' then Inr (Some (In_ram a), s)
          else bindr (c_string a s) (\<lambda>str s.
                 let i = whichrfn s; full = fuzix_root s @ str
                 in if length full \<ge> 8192 then Inl (Fault, s)
                    else Inr (Some (In_buffer i),
                           s\<lparr>realfilename := (realfilename s)[i := full], whichrfn := 1 - i\<rparr>)))"

definition deref :: "cptr \<Rightarrow> ('h, 'z) process_scheme \<Rightarrow> (('h, 'z) process_scheme, string) res" where
  "deref p s = (case p of In_ram a \<Rightarrow> c_string a s | In_buffer i \<Rightarrow> Inr (realfilename s ! i, s))"

text \<open>\<open>set_fuzix_root\<close>: a directory that cannot be opened ends the program.\<close>

definition set_fuzix_root ::
  "'h os \<Rightarrow> string \<Rightarrow> ('h, 'z) process_scheme \<Rightarrow> (('h, 'z) process_scheme, unit) res" where
  "set_fuzix_root os dirname s =
     bindr (if dirname \<noteq> [] then
              let (r, s) = host_call os (H_path ''opendir'' dirname []) s
              in if rdir r = None
                 then let (e, s) = host_call os (H_call ''strerror'' [errno s]) s
                      in Inl (Exit 1, put_stderr (''Unable to use FUZIXROOT '' @ dirname @ '': '' @ rname e @ newline) s)
                 else ok (snd (host_call os (H_call ''closedir'' []) s))
            else ok s) (\<lambda>_ s.
       if length dirname \<ge> 8192 then Inl (Fault, s)
       else ok (s\<lparr>realfilename := [dirname, dirname], fuzix_root := dirname\<rparr>))"

text \<open>The cases that take one path, or two, and fail with \<open>EFAULT\<close> on a NULL pointer.\<close>

definition with_path ::
  "u16 \<Rightarrow> (cptr \<Rightarrow> ('h, 'z) process_scheme \<Rightarrow> (('h, 'z) process_scheme, int) res) \<Rightarrow>
   ('h, 'z) process_scheme \<Rightarrow> (('h, 'z) process_scheme, int) res" where
  "with_path off f s =
     bindr (xlate_filename (get_memptr (ucast (uiarg off s))) s) (\<lambda>p s.
       case p of None \<Rightarrow> fail_with EFAULT s | Some p \<Rightarrow> f p s)"

definition path_call ::
  "'h os \<Rightarrow> string \<Rightarrow> u16 list \<Rightarrow> ('h, 'z) process_scheme \<Rightarrow> (('h, 'z) process_scheme, int) res" where
  "path_call os f offs =
     with_path 0 (\<lambda>p s. let args = map (\<lambda>off. uiarg off s) offs
       in bindr (deref p s) (\<lambda>path s. call_result os (H_path f path args) s))"

definition path2_call ::
  "'h os \<Rightarrow> string \<Rightarrow> ('h, 'z) process_scheme \<Rightarrow> (('h, 'z) process_scheme, int) res" where
  "path2_call os f =
     with_path 0 (\<lambda>p. with_path 2 (\<lambda>q s.
       bindr (deref p s) (\<lambda>path s. bindr (deref q s) (\<lambda>newpath s.
         call_result os (H_path2 f path newpath) s))))"

text \<open>The cases that hand integer arguments on.\<close>

definition int_call ::
  "'h os \<Rightarrow> string \<Rightarrow> u16 list \<Rightarrow> ('h, 'z) process_scheme \<Rightarrow> (('h, 'z) process_scheme, int) res" where
  "int_call os f offs s = call_result os (H_call f (map (\<lambda>off. uiarg off s) offs)) s"

subsection \<open>open and directories\<close>

text \<open>The FUZIX open flags and those of the host, Linux.\<close>

definition open_flag_map :: "(u32 \<times> u32) list" where
  "open_flag_map =
     [(4, 0x400), (8, 0x101000), (16, 0x800), (256, 0x40), (512, 0x80), (1024, 0x200),
      (2048, 0x100), (4096, 0x80000)]"

definition open_flags :: "u32 \<Rightarrow> u32" where
  "open_flags oflags =
     foldl (\<lambda>flags (f, h). flags OR (if oflags AND f \<noteq> 0 then h else 0)) (oflags AND 3) open_flag_map"

text \<open>A FUZIX directory entry: the inode, and 30 bytes of name padded with NULs.\<close>

definition dirent_bytes :: "int \<times> string \<Rightarrow> u8 list" where
  "dirent_bytes e = (case e of (ino, name) \<Rightarrow>
     be16 (word_of_int ino) @ take 30 (map (\<lambda>c. of_nat (of_char c)) name @ replicate 30 0))"

fun write_dirents :: "'h os \<Rightarrow> u32 \<Rightarrow> (int \<times> string) list \<Rightarrow> ('h, 'z) process_scheme \<Rightarrow> ('h, 'z) process_scheme" where
  "write_dirents os fd [] s = s"
| "write_dirents os fd (e # es) s =
     write_dirents os fd es (snd (host_call os (H_write fd (dirent_bytes e)) s))"

text \<open>\<open>make_dirent_file\<close>: the \<open>whence\<close> and the offset of its \<open>lseek\<close> are both 0.\<close>

definition make_dirent_file ::
  "'h os \<Rightarrow> string \<Rightarrow> ('h, 'z) process_scheme \<Rightarrow> int \<times> ('h, 'z) process_scheme" where
  "make_dirent_file os path s =
     (let (r, s) = host_call os (H_path ''opendir'' path []) s
      in case rdir r of
           None \<Rightarrow> (-1, s)
         | Some entries \<Rightarrow>
             let (t, s) = host_call os (H_call ''mkstemp'' []) s; fd = word_of_int (rv t)
             in if rv t = -1 then (-1, snd (host_call os (H_call ''closedir'' []) s))
                else let s = write_dirents os fd entries s;
                         s = snd (host_call os (H_lseek fd 0 0) s);
                         s = snd (host_call os (H_call ''closedir'' []) s);
                         s = snd (host_call os (H_path ''unlink'' (rname t) []) s)
                     in (rv t, s))"

definition sys_open :: "'h os \<Rightarrow> ('h, 'z) process_scheme \<Rightarrow> (('h, 'z) process_scheme, int) res" where
  "sys_open os =
     with_path 0 (\<lambda>p s.
       let flags = open_flags (uiarg 2 s); mode = uiarg 4 s
       in bindr (deref p s) (\<lambda>path s.
            let (result, s) = make_dirent_file os path s
            in if result = -1 then call_result os (H_path ''open'' path [flags, mode]) s
               else Inr (result, s)))"

subsection \<open>read, write and lseek\<close>

definition sys_read :: "'h os \<Rightarrow> ('h, 'z) process_scheme \<Rightarrow> (('h, 'z) process_scheme, int) res" where
  "sys_read os s =
     (case get_memptr (ucast (uiarg 2 s)) of
        None \<Rightarrow> fail_with EFAULT s
      | Some buf \<Rightarrow>
          let (r, s) = host_call os (H_read (uiarg 0 s) (unat (uiarg 4 s))) s
          in bindr (store_bytes (unat buf) (rbytes r) s) (\<lambda>_ s. Inr (rv r, s)))"

definition sys_write :: "'h os \<Rightarrow> ('h, 'z) process_scheme \<Rightarrow> (('h, 'z) process_scheme, int) res" where
  "sys_write os s =
     (case get_memptr (ucast (uiarg 2 s)) of
        None \<Rightarrow> fail_with EFAULT s
      | Some buf \<Rightarrow>
          bindr (load_bytes (unat buf) (unat (uiarg 4 s)) s) (\<lambda>bs s.
            call_result os (H_write (uiarg 0 s) bs) s))"

text \<open>\<open>_lseek\<close> stores the new offset even when it is -1, and returns 0 or -1.\<close>

definition sys_lseek :: "'h os \<Rightarrow> ('h, 'z) process_scheme \<Rightarrow> (('h, 'z) process_scheme, int) res" where
  "sys_lseek os s =
     (case get_memptr (ucast (uiarg 2 s)) of
        None \<Rightarrow> fail_with EFAULT s
      | Some ooff \<Rightarrow>
          bindr (load_bytes (unat ooff) 4 s) (\<lambda>bs s.
            let (r, s) = host_call os (H_lseek (uiarg 0 s) (sint (of_be32 bs)) (uiarg 4 s)) s
            in bindr (store_bytes (unat ooff) (be32 (word_of_int (rv r))) s) (\<lambda>_ s.
                 Inr (if rv r = -1 then -1 else 0, s))))"

subsection \<open>Structures in emulated memory\<close>

text \<open>\<open>copystat\<close>: the members of \<open>struct _uzistat\<close> in the order of the code.\<close>

definition stat_fields :: "hstat \<Rightarrow> (nat \<times> u8 list) list" where
  "stat_fields h =
     [(20, be16 (word_of_int (h_dev h))), (22, be16 (word_of_int (h_ino h))),
      (24, be16 (word_of_int (h_mode h))), (26, be16 (word_of_int (h_nlink h))),
      (28, be16 (word_of_int (h_uid h))), (30, be16 (word_of_int (h_gid h))),
      (32, be16 (word_of_int (h_rdev h))), (0, be32 (word_of_int (h_size h))),
      (4, be32 (word_of_int (h_atime h))), (8, be32 (word_of_int (h_mtime h))),
      (12, be32 (word_of_int (h_ctime h)))]"

definition copystat :: "hstat \<Rightarrow> nat \<Rightarrow> 'z machine_scheme \<Rightarrow> ('z machine_scheme, unit) res" where
  "copystat h dst s = store_fields dst (stat_fields h) s"

definition finish_stat ::
  "'h os \<Rightarrow> hostcall \<Rightarrow> u16 \<Rightarrow> ('h, 'z) process_scheme \<Rightarrow> (('h, 'z) process_scheme, int) res" where
  "finish_stat os c ustat s =
     (let (r, s) = host_call os c s
      in if rv r = -1 then Inr (-1, s)
         else bindr (copystat (rstat r) (unat ustat) s) (\<lambda>_ s. Inr (rv r, s)))"

definition sys_stat :: "'h os \<Rightarrow> ('h, 'z) process_scheme \<Rightarrow> (('h, 'z) process_scheme, int) res" where
  "sys_stat os =
     with_path 0 (\<lambda>p s.
       case get_memptr (ucast (uiarg 2 s)) of
         None \<Rightarrow> fail_with EFAULT s
       | Some ustat \<Rightarrow> bindr (deref p s) (\<lambda>path s. finish_stat os (H_path ''stat'' path []) ustat s))"

definition sys_fstat :: "'h os \<Rightarrow> ('h, 'z) process_scheme \<Rightarrow> (('h, 'z) process_scheme, int) res" where
  "sys_fstat os s =
     (case get_memptr (ucast (uiarg 2 s)) of
        None \<Rightarrow> fail_with EFAULT s
      | Some ustat \<Rightarrow> finish_stat os (H_call ''fstat'' [uiarg 0 s]) ustat s)"

text \<open>
  The terminal structures. Flags: FUZIX value and Linux value; characters: index
  in the FUZIX array and in the Linux array. VMIN and VEOF share FUZIX index 0.
\<close>

definition iflag_map :: "(u16 \<times> u32) list" where
  "iflag_map = [(0x0002, 0x100), (0x0020, 0x40), (0x0080, 0x20)]"

definition oflag_map :: "(u16 \<times> u32) list" where
  "oflag_map = [(0x0001, 0x1), (0x0004, 0x4)]"

definition lflag_map :: "(u16 \<times> u32) list" where
  "lflag_map = [(0x0001, 0x8), (0x0002, 0x10), (0x0004, 0x20), (0x0010, 0x2), (0x0040, 0x1)]"

definition cc_map :: "(nat \<times> nat) list" where
  "cc_map = [(0, 6), (1, 5), (0, 4), (2, 2), (3, 0), (4, 3), (5, 1), (6, 8), (7, 9), (11, 13)]"

text \<open>The macros \<open>maptoflag\<close> and \<open>mapfromflag\<close>.\<close>

definition maptoflags :: "(u16 \<times> u32) list \<Rightarrow> u32 \<Rightarrow> u16" where
  "maptoflags fm hostflag =
     foldl (\<lambda>f (fv, hv). if hostflag AND hv \<noteq> 0 then f OR fv else f AND NOT fv) 0 fm"

definition mapfromflags :: "(u16 \<times> u32) list \<Rightarrow> u16 \<Rightarrow> u32 \<Rightarrow> u32" where
  "mapfromflags fm fuzflag hostflag =
     foldl (\<lambda>h (fv, hv). if fuzflag AND fv \<noteq> 0 then h OR hv else h AND NOT hv) hostflag fm"

definition to_fuzix_termios :: "nat \<Rightarrow> termios \<Rightarrow> 'z machine_scheme \<Rightarrow> ('z machine_scheme, unit) res" where
  "to_fuzix_termios f t s =
     store_fields f (map (\<lambda>(fi, hi). (8 + fi, [t_cc t hi])) cc_map @
       [(0, be16 (maptoflags iflag_map (t_iflag t))), (2, be16 (maptoflags oflag_map (t_oflag t))),
        (6, be16 (maptoflags lflag_map (t_lflag t)))]) s"

definition from_fuzix_termios ::
  "nat \<Rightarrow> termios \<Rightarrow> 'z machine_scheme \<Rightarrow> ('z machine_scheme, termios) res" where
  "from_fuzix_termios f t s =
     bindr (load_bytes f 20 s) (\<lambda>bs s.
       Inr (\<lparr>t_iflag = mapfromflags iflag_map (of_be16 (take 2 bs)) (t_iflag t),
             t_oflag = mapfromflags oflag_map (of_be16 (take 2 (drop 2 bs))) (t_oflag t),
             t_lflag = mapfromflags lflag_map (of_be16 (take 2 (drop 6 bs))) (t_lflag t),
             t_cc = foldl (\<lambda>cc (fi, hi). cc(hi := bs ! (8 + fi))) (t_cc t) cc_map\<rparr>, s))"


subsection \<open>ioctl\<close>

definition sys_tcget :: "'h os \<Rightarrow> ('h, 'z) process_scheme \<Rightarrow> (('h, 'z) process_scheme, int) res" where
  "sys_tcget os s =
     (case get_memptr (ucast (uiarg 4 s)) of
        None \<Rightarrow> fail_with EFAULT s
      | Some f \<Rightarrow>
          let (r, s) = host_call os (H_call ''tcgetattr'' [uiarg 0 s]) s
          in if rv r = -1 then Inr (-1, s)
             else bindr (to_fuzix_termios (unat f) (rterm r) s) (\<lambda>_ s. Inr (rv r, s)))"

definition sys_tcset :: "'h os \<Rightarrow> u32 \<Rightarrow> ('h, 'z) process_scheme \<Rightarrow> (('h, 'z) process_scheme, int) res" where
  "sys_tcset os flags s =
     (let fd = uiarg 0 s; (r, s) = host_call os (H_call ''tcgetattr'' [fd]) s
      in case get_memptr (ucast (uiarg 4 s)) of
           None \<Rightarrow> fail_with EFAULT s
         | Some f \<Rightarrow>
             bindr (from_fuzix_termios (unat f) (rterm r) s) (\<lambda>t s.
               call_result os (H_tcsetattr fd flags t) s))"

definition sys_winsize :: "'h os \<Rightarrow> ('h, 'z) process_scheme \<Rightarrow> (('h, 'z) process_scheme, int) res" where
  "sys_winsize os s =
     (case get_memptr (ucast (uiarg 4 s)) of
        None \<Rightarrow> fail_with EFAULT s
      | Some fw \<Rightarrow>
          let (r, s) = host_call os (H_call ''winsize'' [uiarg 0 s]) s
          in if rv r = -1 then Inr (-1, s)
             else bindr (store_fields (unat fw)
                    [(0, be16 (word_of_int (fst (rpair r)))), (2, be16 (word_of_int (snd (rpair r))))] s)
                    (\<lambda>_ s. Inr (rv r, s)))"

text \<open>TCSADRAIN, TCSAFLUSH and TCSANOW are 1, 2 and 0; TCOOFF and TCOON are 0 and 1.\<close>

definition sys_ioctl :: "'h os \<Rightarrow> ('h, 'z) process_scheme \<Rightarrow> (('h, 'z) process_scheme, int) res" where
  "sys_ioctl os s =
     (let options = uiarg 2 s in switch
       [(1, sys_tcget os),
        (3, sys_tcset os 1),
        (4, sys_tcset os 2),
        (2, sys_tcset os 0),
        (8, \<lambda>s. call_result os (H_call ''ioctl'' [uiarg 0 s, 0]) s),
        (9, \<lambda>s. call_result os (H_call ''ioctl'' [uiarg 0 s, 1]) s),
        (7, \<lambda>s. Inr (0, put_stderr (''TIOCHANGUP not yet implemented'' @ newline) s)),
        (6, int_call os ''tcflush'' [0, 4]),
        (12, int_call os ''isatty'' [0]),
        (10, sys_winsize os)]
       (\<lambda>s. Inl (Exit 1, put_stderr (''Unimplemented ioctl '' @ fmt_d (sint options) @ newline) s))
       options s)"

subsection \<open>brk and sbrk\<close>

definition set_initial_brk :: "u16 \<Rightarrow> ('h, 'z) process_scheme \<Rightarrow> ('h, 'z) process_scheme" where
  "set_initial_brk addr s = s\<lparr>initbrk := addr, curbrk := addr\<rparr>"

definition sys_brk :: "('h, 'z) process_scheme \<Rightarrow> (('h, 'z) process_scheme, int) res" where
  "sys_brk s =
     (let brkval = ucast (uiarg 0 s); sp = get_sp s
      in if brkval < initbrk s \<or> brkval \<ge> sp then fail_with ENOMEM s
         else Inr (0, s\<lparr>curbrk := brkval\<rparr>))"

definition sys_sbrk :: "('h, 'z) process_scheme \<Rightarrow> (('h, 'z) process_scheme, int) res" where
  "sys_sbrk s =
     (let sp = get_sp s; oldbrkval = curbrk s; brkval = curbrk s + word_of_int (siarg 0 s)
      in if brkval < initbrk s \<or> brkval \<ge> sp then fail_with ENOMEM s
         else Inr (uint oldbrkval, s\<lparr>curbrk := brkval\<rparr>))"

subsection \<open>execve\<close>

definition MAX_ARGS :: nat where "MAX_ARGS = 200"

text \<open>
  The loop that collects the arguments into \<open>arglist\<close>, which has room for
  \<open>MAX_ARGS\<close> pointers, the NULL at the end included.
\<close>

function collect_args ::
  "nat \<Rightarrow> u16 \<Rightarrow> 'z machine_scheme \<Rightarrow> ('z machine_scheme, string list) res" where
  "collect_args i addr s =
     (if i \<ge> MAX_ARGS then Inl (Fault, s)
      else if getui addr s = 0 then Inr ([], s)
      else bindr (c_string (getui addr s) s) (\<lambda>str s.
             bindr (collect_args (i + 1) (addr + 2) s) (\<lambda>strs s. Inr (str # strs, s))))"
  by pat_completeness auto
termination by (relation "measure (\<lambda>(i, addr, s). MAX_ARGS - i)") auto

declare collect_args.simps [simp del]

definition can_open :: "'h os \<Rightarrow> string \<Rightarrow> ('h, 'z) process_scheme \<Rightarrow> bool \<times> ('h, 'z) process_scheme" where
  "can_open os path s =
     (let (r, s) = host_call os (H_path ''open'' path [0, 0]) s
      in if rv r = -1 then (False, s)
         else (True, snd (host_call os (H_call ''close'' [word_of_int (rv r)]) s)))"

text \<open>
  \<open>execve\<close>: the program is opened under its translated name or, if that fails,
  its own; then \<open>main\<close> is called, which does not return.
\<close>

definition sys_execve :: "'h os \<Rightarrow> ('h, 'z) process_scheme \<Rightarrow> (('h, 'z) process_scheme, int) res" where
  "sys_execve os =
     with_path 0 (\<lambda>p s.
       bindr (deref p s) (\<lambda>path s.
       let (found, s) = can_open os path s
       in bindr (if found then Inr (path, s) else c_string (ucast (uiarg 0 s)) s) (\<lambda>prog s.
          let (found, s) = can_open os prog s
          in if \<not> found then fail_with EACCES s
             else bindr (collect_args 2 (ucast (uiarg 2 s) + 2) s) (\<lambda>strs s.
                    Inl (Main (emuname s # prog # strs), s)))))"

subsection \<open>The other calls\<close>

definition sys_time :: "'h os \<Rightarrow> ('h, 'z) process_scheme \<Rightarrow> (('h, 'z) process_scheme, int) res" where
  "sys_time os s =
     (case get_memptr (ucast (uiarg 0 s)) of
        None \<Rightarrow> fail_with EFAULT s
      | Some ktim \<Rightarrow>
          let (r, s) = host_call os (H_call ''time'' []) s
          in bindr (store_bytes (unat ktim) (be32 (word_of_int (rv r))) s) (\<lambda>_ s. Inr (0, s)))"

text \<open>
  \<open>signal\<close> indexes \<open>sighandlist\<close>, which has two elements, SIG_DFL and SIG_IGN
  (0 and 1), by the signal number.
\<close>

definition sys_signal :: "'h os \<Rightarrow> ('h, 'z) process_scheme \<Rightarrow> (('h, 'z) process_scheme, int) res" where
  "sys_signal os s =
     (let signum = uiarg 0 s; sighandler = uiarg 2 s
      in if sighandler > 1 then fail_with EINVAL s
         else if signum \<ge> 2 then Inl (Fault, s)
         else Inr (0, snd (host_call os (H_call ''signal'' [signum, signum]) s)))"

text \<open>\<open>_pause\<close> has no \<open>break\<close>: it runs on into \<open>kill\<close>. The product is an \<open>int\<close>.\<close>

definition sys_kill :: "'h os \<Rightarrow> ('h, 'z) process_scheme \<Rightarrow> (('h, 'z) process_scheme, int) res" where
  "sys_kill os = int_call os ''kill'' [0, 2]"

definition sys_pause :: "'h os \<Rightarrow> ('h, 'z) process_scheme \<Rightarrow> (('h, 'z) process_scheme, int) res" where
  "sys_pause os s =
     (let duration = uiarg 0 s
      in if duration \<noteq> 0
         then (if unat duration * 1000000 \<ge> 2 ^ 31 then Inl (Fault, s)
               else sys_kill os (snd (host_call os (H_call ''usleep'' [duration * 1000000]) s)))
         else sys_kill os (snd (host_call os (H_call ''pause'' []) s)))"

definition sys_pipe :: "'h os \<Rightarrow> ('h, 'z) process_scheme \<Rightarrow> (('h, 'z) process_scheme, int) res" where
  "sys_pipe os s =
     (let addr = ucast (uiarg 0 s) :: u16
      in if addr = 0 then fail_with EFAULT s
         else let (r, s) = host_call os (H_call ''pipe'' []) s
              in if rv r = -1 then Inr (-1, s)
                 else bindr (putui addr (word_of_int (fst (rpair r))) s) (\<lambda>_ s.
                      bindr (putui (addr + 2) (word_of_int (snd (rpair r))) s) (\<lambda>_ s. Inr (rv r, s))))"

text \<open>F_SETFD is 2 and FD_CLOEXEC is 1.\<close>

definition sys_fcntl :: "'h os \<Rightarrow> ('h, 'z) process_scheme \<Rightarrow> (('h, 'z) process_scheme, int) res" where
  "sys_fcntl os s =
     (if uiarg 2 s = 3 \<and> uiarg 4 s = 4096
      then call_result os (H_call ''fcntl'' [uiarg 0 s, 2, 1]) s
      else Inr (-1, s))"

definition sys_waitpid :: "'h os \<Rightarrow> ('h, 'z) process_scheme \<Rightarrow> (('h, 'z) process_scheme, int) res" where
  "sys_waitpid os s =
     (case get_memptr (ucast (uiarg 2 s)) of
        None \<Rightarrow> fail_with EFAULT s
      | Some iptr \<Rightarrow>
          let (r, s) = host_call os (H_call ''waitpid'' [uiarg 0 s, uiarg 4 s]) s
          in bindr (store_bytes (unat iptr) (be16 (word_of_int (fst (rpair r)))) s) (\<lambda>_ s. Inr (rv r, s)))"

subsection \<open>The switch\<close>

definition sys_files :: "'h os \<Rightarrow> (u32 \<times> (('h, 'z) process_scheme \<Rightarrow> (('h, 'z) process_scheme, int) res)) list" where
  "sys_files os =
     [(0, \<lambda>s. Inl (Exit (siarg 0 s), s)),
      (1, sys_open os),
      (2, int_call os ''close'' [0]),
      (3, path2_call os ''rename''),
      (5, path2_call os ''link''),
      (6, path_call os ''unlink'' []),
      (7, sys_read os),
      (8, sys_write os),
      (9, sys_lseek os),
      (10, path_call os ''chdir'' []),
      (11, \<lambda>s. Inr (0, snd (host_call os (H_call ''sync'' []) s))),
      (12, path_call os ''access'' [2]),
      (13, path_call os ''chmod'' [2]),
      (14, path_call os ''chown'' [2, 4]),
      (15, sys_stat os),
      (16, sys_fstat os),
      (17, int_call os ''dup'' [0])]"

definition sys_process :: "'h os \<Rightarrow> (u32 \<times> (('h, 'z) process_scheme \<Rightarrow> (('h, 'z) process_scheme, int) res)) list" where
  "sys_process os =
     [(18, int_call os ''getpid'' []),
      (19, int_call os ''getppid'' []),
      (20, int_call os ''getuid'' []),
      (21, int_call os ''umask'' [0]),
      (23, sys_execve os),
      (25, int_call os ''setuid'' [0]),
      (26, int_call os ''setgid'' [0]),
      (27, sys_time os),
      (29, sys_ioctl os),
      (30, sys_brk),
      (31, sys_sbrk),
      (32, int_call os ''fork'' []),
      (35, sys_signal os),
      (36, int_call os ''dup2'' [0, 2]),
      (37, sys_pause os),
      (39, sys_kill os),
      (40, sys_pipe os)]"

text \<open>\<open>getgid\<close> breaks before it assigns \<open>result\<close>, which is read uninitialised.\<close>

definition sys_rest :: "'h os \<Rightarrow> (u32 \<times> (('h, 'z) process_scheme \<Rightarrow> (('h, 'z) process_scheme, int) res)) list" where
  "sys_rest os =
     [(41, \<lambda>s. Inl (Fault, s)),
      (44, int_call os ''geteuid'' []),
      (45, int_call os ''getegid'' []),
      (47, sys_fcntl os),
      (48, int_call os ''fchdir'' [0]),
      (49, int_call os ''fchmod'' [0, 2]),
      (50, int_call os ''fchown'' [0, 2, 4]),
      (51, path_call os ''mkdir'' [2]),
      (52, path_call os ''rmdir'' []),
      (53, int_call os ''setpgrp'' []),
      (55, sys_waitpid os),
      (60, int_call os ''flock'' [0, 2]),
      (61, int_call os ''getpgrp'' []),
      (67, int_call os ''sleep'' [0]),
      (68, \<lambda>s. call_result os (H_call ''ftruncate'' [uiarg 0 s, ularg 2 s]) s),
      (77, int_call os ''setpgid'' [0, 2]),
      (78, int_call os ''setsid'' []),
      (79, int_call os ''getsid'' [0])]"

text \<open>
  \<open>do_syscall\<close>. Three cases return 0 or -1 without the mask at the end; the
  caller keeps the low 16 bits in any case.
\<close>

definition do_syscall :: "'h os \<Rightarrow> (('h, 'z) process_ext console_ext) syscall" where
  "do_syscall os op s =
     bindr (switch (sys_files os @ sys_process os @ sys_rest os)
              (\<lambda>s. Inl (Exit 1, put_stderr (''Unhandled syscall '' @ fmt_d (sint op) @ newline) s)) op
              (s\<lparr>errno := 0\<rparr>)) (\<lambda>result s.
       Inr ((word_of_int result AND 0xFFFF, False, errno s), s))"

subsection \<open>Arguments and environment\<close>

text \<open>
  \<open>set_arg_env\<close>. Strings are copied from the last to the first, downwards; the
  length with the NUL is 16 bits wide.
\<close>

definition c_bytes :: "string \<Rightarrow> u8 list" where
  "c_bytes str = map (\<lambda>c. of_nat (of_char c)) str @ [0]"

fun push_strings :: "string list \<Rightarrow> u16 \<Rightarrow> 'z machine_scheme \<Rightarrow> ('z machine_scheme, u16 list \<times> u16) res" where
  "push_strings [] posn s = Inr (([], posn), s)"
| "push_strings (str # strs) posn s =
     bindr (push_strings strs posn s) (\<lambda>(posns, posn) s.
       let len = of_nat (length str + 1); posn = posn - len
       in case get_memptr posn of
            None \<Rightarrow> if len = 0 then Inr ((posn # posns, posn), s) else Inl (Fault, s)
          | Some a \<Rightarrow> bindr (store_bytes (unat a) (take (unat len) (c_bytes str)) s) (\<lambda>_ s.
                        Inr ((posn # posns, posn), s)))"

fun push_pointers :: "u16 list \<Rightarrow> u16 \<Rightarrow> 'z machine_scheme \<Rightarrow> ('z machine_scheme, u16) res" where
  "push_pointers [] posn s = Inr (posn, s)"
| "push_pointers (p # ps) posn s =
     bindr (push_pointers ps posn s) (\<lambda>posn s.
       let posn = posn - 2 in bindr (putui posn p s) (\<lambda>_ s. Inr (posn, s)))"

definition set_arg_env :: "u16 \<Rightarrow> string list \<Rightarrow> string list \<Rightarrow> 'z machine_scheme \<Rightarrow> ('z machine_scheme, u16) res" where
  "set_arg_env sp argv envp s =
     (if length argv > MAX_ARGS \<or> length envp > MAX_ARGS then Inl (Fault, s)
      else let posn = sp - 2 in
           bindr (putui posn 0 s) (\<lambda>_ s.
           bindr (push_strings envp posn s) (\<lambda>(eposn, posn) s.
           bindr (push_strings argv posn s) (\<lambda>(aposn, posn) s.
           let posn = posn - 2 in
           bindr (putui posn 0 s) (\<lambda>_ s.
           bindr (push_pointers eposn posn s) (\<lambda>envpposn s.
           let posn = envpposn - 2 in
           bindr (putui posn 0 s) (\<lambda>_ s.
           bindr (push_pointers aposn posn s) (\<lambda>argvposn s.
           bindr (putui (argvposn - 2) envpposn s) (\<lambda>_ s.
           bindr (putui (argvposn - 4) argvposn s) (\<lambda>_ s.
           bindr (putui (argvposn - 6) (of_nat (length argv)) s) (\<lambda>_ s.
             Inr (argvposn - 6, s))))))))))))"

end
