(* ===== verification/Frame.thy ===== *)
theory Frame
  imports Step "HOL-Library.Sublist"
begin

text \<open>
  What one processor step may change besides registers and memory. Everything
  below is about the part of the state that is not the processor's own: the
  breakpoints, the symbol table, the terminal, the log and whatever extends the
  machine record.
\<close>

subsection \<open>The environment of the processor\<close>

definition env :: "'z machine_scheme \<Rightarrow> 'z \<times> brkstate \<times> mapstate \<times> string \<times> string \<times> string option" where
  "env s = (machine.more s, bp s, maps s, stdout s, stderr s, logfile s)"

definition step_rel :: "'z machine_scheme \<Rightarrow> 'z machine_scheme \<Rightarrow> bool" where
  "step_rel s t \<longleftrightarrow> machine.more t = machine.more s \<and> brkpointlist (bp t) = brkpointlist (bp s) \<and>
     maps t = (maps s)\<lparr>mapidx := mapidx (maps t)\<rparr> \<and>
     mapidx (maps t) \<le> max (mapidx (maps s)) (mapcnt (maps s)) \<and> (logfile t = None \<longleftrightarrow> logfile s = None) \<and>
     prefix (stdout s) (stdout t) \<and> prefix (stderr s) (stderr t)"

lemma step_rel_env: "env t = env s \<Longrightarrow> step_rel s t"
  by (simp add: env_def step_rel_def)

lemma step_rel_refl [simp]: "step_rel s s"
  by (simp add: step_rel_def)

lemma step_rel_trans: "step_rel s t \<Longrightarrow> step_rel t u \<Longrightarrow> step_rel s u"
  unfolding step_rel_def
  by (cases "maps s"; cases "maps t"; cases "maps u") (auto intro: prefix_order.trans)

lemma env_upd [simp]:
  "env (s\<lparr>reg_x := v\<rparr>) = env s" "env (s\<lparr>reg_y := v\<rparr>) = env s" "env (s\<lparr>reg_u := v\<rparr>) = env s"
  "env (s\<lparr>reg_s := v\<rparr>) = env s" "env (s\<lparr>reg_pc := pc\<rparr>) = env s" "env (s\<lparr>reg_a := v\<rparr>) = env s"
  "env (s\<lparr>reg_b := v\<rparr>) = env s" "env (s\<lparr>reg_dp := v\<rparr>) = env s" "env (s\<lparr>reg_cc := v\<rparr>) = env s"
  "env (s\<lparr>irq_status := i\<rparr>) = env s" "env (s\<lparr>cycles := v\<rparr>) = env s" "env (s\<lparr>write_brkpt := b\<rparr>) = env s"
  "env (s\<lparr>ram := r\<rparr>) = env s" "env (s\<lparr>fefcval := f\<rparr>) = env s"
  "env (set_cc fl v s) = env s" "env (add_cycles n s) = env s" "env (set_reg_d v s) = env s"
  by (simp_all add: env_def set_reg_d_def)

lemma env_xyus [simp]: "env (set_xyus r v s) = env s"
  by (cases r) simp_all

lemma env_reads [simp]:
  "env (snd (pc_read8 s)) = env s" "env (snd (pc_read16 s)) = env s"
  "env (snd (pull8 sp s)) = env s" "env (snd (pull16 sp s)) = env s"
  by (simp_all add: pc_read8_def pc_read16_def pull8_def pull16_def split_beta Let_def)

lemma env_insts [simp]:
  "env (snd (inst_neg x s)) = env s" "env (snd (inst_com x s)) = env s" "env (snd (inst_lsr x s)) = env s"
  "env (snd (inst_ror x s)) = env s" "env (snd (inst_asr x s)) = env s" "env (snd (inst_asl x s)) = env s"
  "env (snd (inst_rol x s)) = env s" "env (snd (inst_dec x s)) = env s" "env (snd (inst_inc x s)) = env s"
  "env (snd (inst_sub8 x y s)) = env s" "env (snd (inst_sbc x y s)) = env s" "env (snd (inst_and x y s)) = env s"
  "env (snd (inst_eor x y s)) = env s" "env (snd (inst_adc x y s)) = env s" "env (snd (inst_or x y s)) = env s"
  "env (snd (inst_add8 x y s)) = env s" "env (snd (inst_add16 x y s)) = env s" "env (snd (inst_sub16 x y s)) = env s"
  "env (inst_tst8 x s) = env s" "env (inst_tst16 x s) = env s" "env (inst_clr s) = env s"
  "env (inst_mul s) = env s" "env (inst_sex s) = env s" "env (inst_daa s) = env s"
  by (simp_all add: inst_neg_def inst_com_def inst_lsr_def inst_ror_def inst_asr_def inst_asl_def
      inst_rol_def inst_dec_def inst_inc_def inst_sub8_def inst_sbc_def inst_and_def inst_eor_def
      inst_adc_def inst_or_def inst_add8_def inst_add16_def inst_sub16_def inst_tst8_def inst_tst16_def
      inst_clr_def inst_mul_def inst_sex_def inst_daa_def Let_def)

lemma env_branch [simp]: "env (inst_bra8 t op s) = env s" "env (inst_bra16 t op s) = env s"
  by (simp_all add: inst_bra8_def inst_bra16_def split_beta Let_def)

lemma env_pull_if: "(\<And>s. env (f s) = env s) \<Longrightarrow> env (pull_if b f n s) = env s"
  by (simp add: pull_if_def)

lemma env_pul [simp]: "env (inst_pul op sp osp s) = env s"
  by (simp add: inst_pul_def Let_def split_beta env_pull_if)

lemma env_rti_state [simp]: "env (if b then inst_pul m sp osp s else inst_pul m' sp osp s) = env s"
  by simp

subsection \<open>Operations that keep it\<close>

definition final :: "('s, 'a) res \<Rightarrow> 's" where
  "final r = (case r of Inl (h, t) \<Rightarrow> t | Inr (x, t) \<Rightarrow> t)"

lemma final_simps [simp]: "final (Inl (h, t)) = t" "final (Inr (x, t)) = t"
  by (simp_all add: final_def)

lemma step_rel_write8: "step_rel s (final (write8 a d s))"
  by (auto simp: write8_def Let_def e6809_write8_def check_brk_def is_breakpoint_def step_rel_def
      put_stdout_def put_stderr_def)

lemma map_search_le: "i \<le> n \<Longrightarrow> map_search es addr n i \<le> n"
  by (induction es addr n i rule: map_search.induct) (subst map_search.simps, auto)

lemma step_rel_lookup: "step_rel s (final (lookup_symbol a s))"
proof -
  let ?j = "map_search (map_entries (maps s)) a (mapcnt (maps s)) 0"
  have "final (get_symbol_and_offset a (maps s)) \<in> {maps s, (maps s)\<lparr>mapidx := ?j\<rparr>}"
    by (simp add: get_symbol_and_offset_def Let_def)
  moreover have "?j \<le> mapcnt (maps s)" by (simp add: map_search_le)
  ultimately have "maps s = final (get_symbol_and_offset a (maps s)) \<or>
      (\<exists>i \<le> mapcnt (maps s). final (get_symbol_and_offset a (maps s)) = (maps s)\<lparr>mapidx := i\<rparr>)" by auto
  moreover have "final (lookup_symbol a s) = s\<lparr>maps := final (get_symbol_and_offset a (maps s))\<rparr>"
    by (simp add: lookup_symbol_def final_def split: sum.splits prod.splits)
  ultimately show ?thesis
    by (auto simp: step_rel_def le_max_iff_disj)
qed

lemma step_rel_brk: "step_rel s (snd (check_brk a ty s))"
  by (simp add: check_brk_def is_breakpoint_def step_rel_def)

lemma step_rel_log: "step_rel s (put_log t s)"
  by (simp add: put_log_def step_rel_def)

text \<open>
  A relation that the processor's own work respects: it is closed under
  composition and holds when a step changed only what \<open>step_rel\<close> allows. The
  monitor and the system calls are the client's; if they respect the relation, a
  whole step does.
\<close>

locale respected =
  fixes R :: "'z machine_scheme \<Rightarrow> 'z machine_scheme \<Rightarrow> bool"
  assumes R_step: "step_rel s t \<Longrightarrow> R s t"
    and R_trans: "R s t \<Longrightarrow> R t u \<Longrightarrow> R s u"
begin

definition keeps :: "('z machine_scheme \<Rightarrow> ('z machine_scheme, 'r) res) \<Rightarrow> bool" where
  "keeps f \<longleftrightarrow> (\<forall>s. R s (final (f s)))"

lemma R_env: "env t = env s \<Longrightarrow> R s t"
  by (rule R_step) (rule step_rel_env)

lemma keepsD: "keeps f \<Longrightarrow> R s (final (f s))"
  by (simp add: keeps_def)

lemma keeps_ok: "(\<And>s. env (f s) = env s) \<Longrightarrow> keeps (\<lambda>s. Inr (x s, f s))"
  by (simp add: keeps_def R_env)

lemma keeps_pair: "(\<And>s. env (snd (f s)) = env s) \<Longrightarrow> keeps (\<lambda>s. Inr (f s))"
  unfolding keeps_def by (metis R_env final_simps(2) prod.collapse)

lemma keeps_bind: "keeps f \<Longrightarrow> (\<And>x. keeps (g x)) \<Longrightarrow> keeps (\<lambda>s. bindr (f s) g)"
  unfolding keeps_def bindr_def by (auto split: sum.splits simp: final_def) (metis R_trans old.sum.simps(5,6) old.prod.case)+

lemma keeps_after: "(\<And>s. env (h s) = env s) \<Longrightarrow> keeps f \<Longrightarrow> keeps (\<lambda>s. f (h s))"
  unfolding keeps_def by (metis R_env R_trans)

lemma keeps_if: "keeps f \<Longrightarrow> keeps g \<Longrightarrow> keeps (\<lambda>s. if b s then f s else g s)"
  by (simp add: keeps_def)

lemma keeps_die [simp]: "keeps (die m)"
  by (simp add: keeps_def die_def put_stdout_def R_step step_rel_def)

lemma keeps_write8: "keeps (write8 a d)"
  by (simp add: keeps_def R_step step_rel_write8)

lemma keeps_write16: "keeps (write16 a d)"
  unfolding write16_def by (intro keeps_bind keeps_write8)

lemma R_bind: "R s (final m) \<Longrightarrow> (\<And>x t. R t (final (g x t))) \<Longrightarrow> R s (final (bindr m g))"
proof -
  assume m: "R s (final m)" and g: "\<And>x t. R t (final (g x t))"
  show "R s (final (bindr m g))"
  proof (cases m)
    case (Inr p)
    then show ?thesis using m R_trans [OF _ g] by (cases p) simp
  next
    case (Inl p)
    then show ?thesis using m by (cases p) simp
  qed
qed

lemma R_ok: "env t = env s \<Longrightarrow> R s (final (Inr (x, t)))"
  by (simp add: R_env)

lemma R_write8: "env t = env s \<Longrightarrow> R s (final (write8 a d t))"
  by (rule R_trans [OF R_env keepsD [OF keeps_write8]])

lemma R_write16: "env t = env s \<Longrightarrow> R s (final (write16 a d t))"
  by (rule R_trans [OF R_env keepsD [OF keeps_write16]])

lemma R_refl [simp]: "R s s"
  by (simp add: R_env)

lemma keeps_id: "(\<And>s. env (snd (f s)) = env s) \<Longrightarrow> keeps (\<lambda>s. Inr (f s))"
  by (rule keeps_pair)

lemma keeps_const [simp]: "keeps (\<lambda>s. Inr (x s, s))"
  by (rule keeps_ok) simp

lemma keeps_direct [simp]: "keeps ea_direct"
  unfolding ea_direct_def split_beta Let_def by (rule keeps_ok) simp

lemma keeps_imm [simp]: "keeps ea_extended" "keeps imm8" "keeps imm16"
  unfolding ea_extended_def imm8_def imm16_def by (rule keeps_pair, simp)+

lemma keeps_indexed_modes: "\<forall>(k, f) \<in> set (ea_indexed_modes op r). keeps f"
  unfolding ea_indexed_modes_def Let_def split_beta by (simp add: keeps_def R_env)

lemma keeps_indexed [simp]: "keeps ea_indexed"
proof -
  have sw: "keeps (switch (ea_indexed_modes op r) (die m) k)" for op r m k
    by (rule switch_all [OF keeps_indexed_modes]) simp
  have "R s (final (ea_indexed s))" for s
    unfolding ea_indexed_def Let_def split_beta
    by (auto simp: ea_indexed_7_def R_env intro: R_trans [OF R_env keepsD [OF sw]])
  then show ?thesis by (simp add: keeps_def)
qed

lemma keeps_mem [simp]: "keeps ea \<Longrightarrow> keeps (mem8 ea)" "keeps ea \<Longrightarrow> keeps (mem16 ea)"
  unfolding mem8_def mem16_def by (erule keeps_bind, simp)+

lemma keeps_bodies [simp]:
  "keeps ea \<Longrightarrow> (\<And>x s. env (snd (inst x s)) = env s) \<Longrightarrow> keeps (rmw ea inst c)"
  "keeps ea \<Longrightarrow> keeps (tst_mem ea c)"
  "keeps ea \<Longrightarrow> keeps (clr_mem ea c)"
  "keeps opd \<Longrightarrow> (\<And>x y s. env (snd (inst2 x y s)) = env s) \<Longrightarrow> keeps (alu_a inst2 opd c)"
  "keeps opd \<Longrightarrow> (\<And>x y s. env (snd (inst2 x y s)) = env s) \<Longrightarrow> keeps (alu_b inst2 opd c)"
  "keeps opd \<Longrightarrow> (\<And>x y s. env (snd (inst2 x y s)) = env s) \<Longrightarrow> keeps (alu_d inst2 opd c)"
  "keeps opd \<Longrightarrow> (\<And>x y s. env (snd (inst2 x y s)) = env s) \<Longrightarrow> keeps (cmp_with reg inst2 opd c)"
  "keeps opd \<Longrightarrow> keeps (ld_a opd c)"
  "keeps opd \<Longrightarrow> keeps (ld_b opd c)"
  "keeps opd \<Longrightarrow> keeps (ld_d opd c)"
  "keeps opd \<Longrightarrow> keeps (ld_r r opd c)"
  "keeps ea \<Longrightarrow> keeps (st8 reg ea c)"
  "keeps ea \<Longrightarrow> keeps (st16 reg ea c)"
  "keeps ea \<Longrightarrow> keeps (jmp_ea ea c)"
  unfolding rmw_def tst_mem_def clr_mem_def alu_a_def alu_b_def alu_d_def cmp_with_def ld_a_def
    ld_b_def ld_d_def ld_r_def st8_def st16_def jmp_ea_def Let_def split_beta
  by (auto simp: keeps_def intro!: R_bind R_ok R_write8 R_write16)

lemma keeps_on [simp]:
  "(\<And>x s. env (snd (inst x s)) = env s) \<Longrightarrow> keeps (on_a inst c)"
  "(\<And>x s. env (snd (inst x s)) = env s) \<Longrightarrow> keeps (on_b inst c)"
  by (auto simp: keeps_def on_a_def on_b_def split_beta Let_def R_env)

lemma keeps_lea [simp]: "keeps (lea r)" "keeps (lea_z r)"
  unfolding lea_def lea_z_def Let_def keeps_def by (auto simp: R_env intro!: R_bind keepsD [OF keeps_indexed])

lemma R_push8: "env t = env s \<Longrightarrow> R s (final (push8 sp d t))"
  unfolding push8_def Let_def by (rule R_write8) simp

lemma R_push16: "env t = env s \<Longrightarrow> R s (final (push16 sp d t))"
  unfolding push16_def by (intro R_bind R_push8) simp_all

lemma R_push_if: "(\<And>s. R s (final (f s))) \<Longrightarrow> R s (final (push_if b f n s))"
  by (auto simp: push_if_def R_env intro!: R_bind)

lemma R_psh: "R s (final (inst_psh op sp d s))"
  unfolding inst_psh_def by (intro R_bind R_push_if R_push16 R_push8) simp_all

lemma R_psh': "env t = env s \<Longrightarrow> R s (final (inst_psh op sp d t))"
  by (rule R_trans [OF R_env R_psh])

lemma keeps_stack_ops [simp]: "keeps (psh_op sp osp)" "keeps (pul_op sp osp)" "keeps inst_cwai"
  "keeps (swi_vector v)" "keeps inst_rti"
  unfolding keeps_def psh_op_def pul_op_def inst_cwai_def swi_vector_def inst_rti_def Let_def split_beta
  by (auto simp: R_env intro!: R_bind R_psh')

lemma keeps_jsr [simp]: "keeps ea \<Longrightarrow> keeps (jsr_ea ea c)"
  unfolding keeps_def jsr_ea_def by (auto simp: R_env intro!: R_bind R_push16)

lemma keeps_exgtfr: "keeps (exgtfr_read r)" "keeps (exgtfr_write r d)"
  unfolding exgtfr_read_def exgtfr_write_def exgtfr_die_def
  by (rule switch_all, simp_all add: keeps_ok)+

lemma keeps_exg_tfr [simp]: "keeps inst_exg" "keeps inst_tfr"
  unfolding keeps_def inst_exg_def inst_tfr_def Let_def split_beta
  by (auto intro!: R_bind R_trans [OF R_env keepsD [OF keeps_exgtfr(1)]] keepsD [OF keeps_exgtfr(1)]
      keepsD [OF keeps_exgtfr(2)])

definition keeps_all :: "(u32 \<times> 'z body) list \<Rightarrow> bool" where
  "keeps_all tab \<longleftrightarrow> (\<forall>(k, f) \<in> set tab. keeps f)"

lemma keeps_switch: "keeps_all tab \<Longrightarrow> keeps (switch tab (die m) k)"
  unfolding keeps_all_def by (erule switch_all) simp

lemmas keeps_cases = keeps_all_def keeps_ok keeps_exg_tfr

lemma keeps_page0_a:
  "keeps_all page0_neg_ror" "keeps_all page0_asr_dec" "keeps_all page0_inc_clr"
  "keeps_all page0_sub_cmp" "keeps_all page0_sbc_bit" "keeps_all page0_ld_st8"
  by (simp_all add: keeps_all_def page0_neg_ror_def page0_asr_dec_def page0_inc_clr_def
      page0_sub_cmp_def page0_sbc_bit_def page0_ld_st8_def keeps_ok)

lemma keeps_page0_b:
  "keeps_all page0_eor_or" "keeps_all page0_add_cmpx" "keeps_all page0_ldx_stu"
  "keeps_all page0_addd_mul" "keeps_all page0_branch"
  by (simp_all add: keeps_all_def page0_eor_or_def page0_add_cmpx_def page0_ldx_stu_def
      page0_addd_mul_def page0_branch_def keeps_ok)

lemma keeps_page0_jump: "keeps_all page0_jump"
  by (simp add: keeps_all_def page0_jump_def split_beta)
     (auto simp: keeps_def Let_def R_env intro!: R_bind R_push16)

lemma keeps_page0_stack: "keeps_all page0_stack"
  by (simp add: keeps_all_def page0_stack_def split_beta)
     (auto simp: keeps_def Let_def simp: R_env intro!: R_bind keepsD [OF keeps_exg_tfr(1)] keepsD [OF keeps_exg_tfr(2)])

lemma keeps_page1: "keeps_all page1_ops"
  by (simp add: keeps_all_def page1_ops_def page1_branch_def page1_cmp_ld_def page1_st_swi2_def keeps_ok)

lemma keeps_page2: "keeps_all page2"
  by (simp add: keeps_all_def page2_def)

lemma keeps_exec_page12 [simp]: "keeps exec_page1" "keeps exec_page2"
  unfolding keeps_def exec_page1_def exec_page2_def Let_def split_beta
  by (auto intro!: R_trans [OF R_env keepsD [OF keeps_switch]] keeps_page1 keeps_page2)

lemma keeps_swi [simp]:
  "(\<And>n. keeps (dosys n)) \<Longrightarrow> keeps (inst_swi dosys)"
  by (auto simp: keeps_def inst_swi_def Let_def split_beta intro!: R_bind R_ok)

lemma keeps_page0:
  "(\<And>n. keeps (dosys n)) \<Longrightarrow> keeps_all (page0_ops dosys)"
  using keeps_page0_a keeps_page0_b keeps_page0_jump keeps_page0_stack
  unfolding keeps_all_def page0_ops_def set_append ball_Un
  by (simp add: page0_system_def keeps_ok)

lemma keeps_exec_page0:
  "(\<And>n. keeps (dosys n)) \<Longrightarrow> keeps (exec_page0 dosys)"
  unfolding keeps_def exec_page0_def Let_def split_beta
  by (auto intro!: R_trans [OF R_env keepsD [OF keeps_switch]] keeps_page0 simp: keeps_def)

lemma keeps_irq: "keeps take_irq" "keeps take_firq"
  unfolding keeps_def take_irq_def take_firq_def Let_def
  by (auto simp: R_env intro!: R_bind R_psh')

lemma keeps_log_before: "keeps log_before"
  unfolding keeps_def log_before_def Let_def
  by (auto simp: R_step step_rel_log intro!: R_bind R_step [OF step_rel_lookup])

lemma keeps_enter_monitor:
  assumes "\<And>a. keeps (mon a)"
  shows "keeps (enter_monitor mon)"
proof -
  have m: "R s (final (mon a t))" if "R s t" for s a t
    using R_trans [OF that keepsD [OF assms]] .
  have b: "R s (snd (check_brk a ty s))" for s a ty by (rule R_step [OF step_rel_brk])
  have "R s ((snd (check_brk a ty s))\<lparr>write_brkpt := False\<rparr>)" for s a ty
    by (rule R_trans [OF b R_env]) simp
  note b = b this
  then show ?thesis
    unfolding keeps_def enter_monitor_def Let_def split_beta
    by (auto simp: R_env b intro!: R_bind m)
qed

lemma keeps_sstep:
  assumes "\<And>a. keeps (mon a)" "\<And>n. keeps (dosys n)"
  shows "keeps (e6809_sstep mon dosys irq_i irq_f)"
  unfolding keeps_def e6809_sstep_def Let_def
  by (auto simp: R_env log_after_def intro!: R_bind R_step [OF step_rel_log]
      R_trans [OF R_env keepsD [OF keeps_enter_monitor [OF assms(1)]]]
      keepsD [OF keeps_irq(1)] keepsD [OF keeps_irq(2)] keepsD [OF keeps_log_before]
      keepsD [OF keeps_exec_page0 [OF assms(2)]])

end

interpretation frame: respected step_rel
  by unfold_locales (auto intro: step_rel_trans)

text \<open>
  One processor step, whatever the opcode and the interrupts, leaves the
  breakpoints and the symbol table alone (only the lookup cache may move, within
  the table), does not touch the state that extends the machine, takes nothing
  back that has been written to the terminal, and neither opens nor closes the
  log, if that holds for the monitor and the system calls it may run.
\<close>

lemma step_changes_only_the_processor:
  fixes mon :: "'z monitor"
  assumes "\<forall>a s. step_rel s (final (mon a s))" "\<forall>n s. step_rel s (final (dosys n s))"
    and "e6809_sstep mon dosys irq_i irq_f s = Inr (r, t)"
  shows "machine.more t = machine.more s \<and> brkpointlist (bp t) = brkpointlist (bp s) \<and>
     maps t = (maps s)\<lparr>mapidx := mapidx (maps t)\<rparr> \<and>
     (\<exists>out. stdout t = stdout s @ out) \<and> (logfile t = None \<longleftrightarrow> logfile s = None)"
proof -
  have "step_rel s (final (e6809_sstep mon dosys irq_i irq_f s))"
    by (rule frame.keepsD [OF frame.keeps_sstep]) (use assms(1,2) in \<open>simp_all add: frame.keeps_def\<close>)
  then show ?thesis using assms(3) by (simp add: step_rel_def prefix_def)
qed


lemma step_changes_only_the_processor_witness:
  "brkpointlist (bp (snd (projr (e6809_sstep (\<lambda>a s. Inr (a, s)) (\<lambda>n s. Inr ((0, False, 0), s)) False False
     (power_on\<lparr>ram := \<lambda>_. 0x12\<rparr>))))) = brkpointlist (bp power_on)"
proof -
  let ?m = "power_on\<lparr>ram := \<lambda>_. 0x12\<rparr>"
  have "\<not> fst (check_brk (ucast (reg_pc ?m)) BRK_INST (?m\<lparr>cycles := 0\<rparr>))"
    by (simp add: check_brk_def is_breakpoint_def power_on_def brk_initial_def NUM_BRKPOINTS_def list_ex_iff)
  then have "\<exists>r t. e6809_sstep (\<lambda>a s. Inr (a, s)) (\<lambda>n s. Inr ((0, False, 0), s)) False False ?m = Inr (r, t)"
    by (simp add: e6809_sstep_def enter_monitor_def split_beta Let_def power_on_def check_brk_def
        is_breakpoint_def exec_page0_def pc_read8_def read8_def e6809_read8_def opcode_tables log_before_def)
  then obtain r t where "e6809_sstep (\<lambda>a s. Inr (a, s)) (\<lambda>n s. Inr ((0, False, 0), s)) False False ?m = Inr (r, t)"
    by blast
  from step_changes_only_the_processor [OF _ _ this] this show ?thesis by simp
qed

end
