(* ===== verification/MonSpec.thy ===== *)
theory MonSpec
  imports Monitor Frame
begin

text \<open>
  The command loop as a client of the processor step and the system calls: the
  relations that a command, a step or a whole monitor session respects, and the
  recursive equation of \<open>monitor\<close>, which the bound on the number of rounds
  does not change.
\<close>


declare dump_disasm.simps [simp del] dump_bytes.simps [simp del] run_instructions.simps(2) [simp del]

subsection \<open>What the monitor may change\<close>

lemma length_brk_ops [simp]:
  "length (brkpointlist (remove_breakpoint a b)) = length (brkpointlist b)"
  "length (brkpointlist (remove_all_breakpoints b)) = length (brkpointlist b)"
  "length (brkpointlist (ignore_breakpoint a b)) = length (brkpointlist b)"
  by (simp_all add: remove_breakpoint_def remove_all_breakpoints_def ignore_breakpoint_def)

lemma length_set_breakpoint:
  "set_breakpoint a t b = Some b' \<Longrightarrow> length (brkpointlist b') = length (brkpointlist b)"
  by (auto simp: set_breakpoint_def dest: length_set_slot)

text \<open>
  The commands change more than a step: they edit the breakpoints, but keep the
  length of the table.
\<close>

locale respected_monitor = respected R for R :: "'z machine_scheme \<Rightarrow> 'z machine_scheme \<Rightarrow> bool" +
  assumes R_brk: "length (brkpointlist b) = length (brkpointlist (bp s)) \<Longrightarrow> R s (s\<lparr>bp := b\<rparr>)"
begin

lemma R_bind_eq:
  "R s (final m) \<Longrightarrow> (\<And>x t. m = Inr (x, t) \<Longrightarrow> R t (final (g x t))) \<Longrightarrow> R s (final (bindr m g))"
  by (cases m) (auto intro: R_trans)

lemma R_put [simp]: "R s (put_stdout t s)"
  by (rule R_step) (simp add: step_rel_def put_stdout_def)

lemma R_put': "R s t \<Longrightarrow> R s (put_stdout x t)"
  by (rule R_trans [OF _ R_put])

lemma keeps_symbol_at: "keeps (symbol_at a)"
  unfolding symbol_at_def by (intro keeps_if keeps_const) (simp add: keeps_def R_step step_rel_lookup)

lemma keeps_run_instructions:
  assumes "keeps step"
  shows "keeps (run_instructions step n pc)"
proof (induction n arbitrary: pc)
  case (Suc n)
  have st: "R s (final (step t))" if "R s t" for s t
    using R_trans [OF that keepsD [OF assms]] .
  have rest: "R s (final (run_instructions step n a t))" if "R s t" for s t a
    using R_trans [OF that keepsD [OF Suc]] .
  have "R s ((put_stdout x s)\<lparr>bp := ignore_breakpoint pc (bp (put_stdout x s))\<rparr>)" for x s
    by (rule R_trans [OF R_put R_brk]) simp
  then show ?case
    unfolding keeps_def run_instructions.simps Let_def
    by (auto intro!: R_bind st rest keepsD [OF keeps_symbol_at])
qed (simp add: keeps_def)

lemma keeps_print_breakpoints: "keeps (print_breakpoints ps)"
proof (induction ps)
  case (Cons p ps)
  have rest: "R s (final (print_breakpoints ps t))" if "R s t" for s t
    using R_trans [OF that keepsD [OF Cons]] .
  have sy: "R s (final (symbol_at a (put_stdout x s)))" for s a x
    by (rule R_trans [OF R_put keepsD [OF keeps_symbol_at]])
  show ?case unfolding keeps_def
    by (auto simp: Let_def keepsD [OF Cons] intro!: R_bind rest sy)
qed (simp add: keeps_def)

lemma keeps_dump_disasm: "R s (final (dump_disasm a b s))"
proof (induction a b s rule: dump_disasm.induct)
  case (1 a b s)
  have sy: "R s (final (symbol_at a s))" by (rule keepsD [OF keeps_symbol_at])
  obtain buf na where d: "disassemble_instruction a s = (buf, na)" by (cases "disassemble_instruction a s")
  show ?case
  proof (cases "sint a \<le> sint b \<and> sint a < sint na")
    case True
    let ?x = "\<lambda>r. sym_prefix ''+$'' a r @ '': '' @ fmt_m16s buf @ newline"
    have "dump_disasm a b s = bindr (symbol_at a s) (\<lambda>r s. dump_disasm na b (put_stdout (?x r) s))"
      using True by (subst dump_disasm.simps) (simp add: d)
    moreover have "R t (final (dump_disasm na b (put_stdout (?x r) t)))" if "symbol_at a s = Inr (r, t)" for r t
      by (rule R_trans [OF R_put 1]) (use True d that in simp_all)
    ultimately show ?thesis using sy by (auto intro!: R_bind_eq)
  qed (subst dump_disasm.simps, auto simp: d)
qed

lemma keeps_dump_mem: "R s (final (dump_mem a b c s))"
  by (simp add: dump_mem_def keeps_dump_disasm)

lemma R_set_msg: "R s (set_breakpoint_msg a ty s)"
  by (auto simp: set_breakpoint_msg_def R_brk length_set_breakpoint split: option.splits)

lemma keeps_the_arg [simp]: "R s (final (the_arg k l s))"
  by (simp add: the_arg_def split: option.splits)

lemma keeps_arg_addr [simp]: "R s (final (arg_addr k l s))"
  unfolding arg_addr_def parse_addr_msg_def by (auto simp: split_beta Let_def intro!: R_bind)

lemma R_write_mem: "R s (final (write_mem a v s))"
proof -
  have "step_rel s (final (e6809_write8 a d s))" for d
    by (auto simp: e6809_write8_def step_rel_def put_stdout_def put_stderr_def)
  then show ?thesis by (simp add: write_mem_def R_step)
qed

lemma keeps_commands:
  "R s (final (cmd_brk c l s))" "R s (final (cmd_wbrk nm c l s))" "R s (final (cmd_nobrk c l s))"
  "R s (final (cmd_go nm c l pc s))" "R s (final (cmd_dump nm cmd c l s))" "R s (final (cmd_write nm c l s))"
  unfolding cmd_brk_def cmd_wbrk_def cmd_nobrk_def cmd_go_def cmd_dump_def cmd_write_def usage_msg_def Let_def split_beta
  by (auto simp: R_set_msg R_brk keeps_dump_mem R_write_mem
      intro!: R_bind R_trans [OF R_put keepsD [OF keeps_print_breakpoints]] split: option.splits bool.splits)

lemma keeps_exec_command:
  assumes "keeps step"
  shows "keeps (exec_command step line l pc)"
proof -
  have "R s (final (cmd_step step nm c l pc s))" for nm c l pc s
    unfolding cmd_step_def usage_msg_def
    by (auto intro!: R_bind keepsD [OF keeps_run_instructions [OF assms]])
  then show ?thesis
    unfolding keeps_def exec_command_def Let_def split_beta
    by (auto simp: keeps_commands intro!: R_bind split: option.splits cmd_numbers.splits)
qed

lemma R_monitor_entry: "R s (monitor_entry pc s)"
proof -
  have "R s (snd (check_brk pc BRK_INST s))" by (rule R_step [OF step_rel_brk])
  then show ?thesis by (auto simp: monitor_entry_def split_beta Let_def intro: R_put')
qed

end

text \<open>Relations that also allow lines to be read hold across the whole monitor.\<close>

locale respected_console = respected_monitor R for R :: "'z console_scheme \<Rightarrow> 'z console_scheme \<Rightarrow> bool" +
  assumes R_input: "length xs \<le> length (input s) \<Longrightarrow> R s (s\<lparr>input := xs\<rparr>)"
begin

lemma keeps_entered: "keeps (f pc) \<Longrightarrow> keeps (\<lambda>s. f pc (monitor_entry pc s))"
  unfolding keeps_def using R_trans [OF R_monitor_entry] by blast

lemma keeps_loop:
  assumes dos: "\<And>n. keeps (dosys n)"
  shows "keeps (monitor_loop n dosys l pc)"
proof (induction n arbitrary: l pc)
  case (Suc n)
  have ex: "keeps (exec_command (run_instruction
      (\<lambda>pc s. monitor_loop n dosys locals_initial pc (monitor_entry pc s)) dosys) line l pc)" for line l pc
    unfolding run_instruction_def
    by (intro keeps_exec_command keeps_sstep keeps_entered [of "monitor_loop n dosys locals_initial"] Suc dos)
  show ?case
    unfolding keeps_def
    by (auto simp: Let_def R_input split: list.splits outcome.splits
        intro!: R_bind R_trans [OF R_input keepsD [OF ex]] keepsD [OF Suc])
qed (simp add: keeps_def)

lemma keeps_monitor:
  assumes "\<And>n. keeps (dosys n)"
  shows "keeps (monitor dosys pc)"
  unfolding keeps_def monitor_def
  by (intro allI R_trans [OF R_monitor_entry keepsD [OF keeps_loop]] assms)

end

subsection \<open>The input only shrinks\<close>

definition input_le :: "'z console_scheme \<Rightarrow> 'z console_scheme \<Rightarrow> bool" where
  "input_le s t \<longleftrightarrow> length (input t) \<le> length (input s)"

lemma more_input: "machine.more t = machine.more s \<Longrightarrow> input t = input s"
  by (cases s; cases t) simp

interpretation inp: respected_console input_le
  by unfold_locales (auto simp: input_le_def step_rel_def dest: more_input)

text \<open>Two monitors, or two steps, that agree while at most \<open>n\<close> lines are left.\<close>

definition agree_on :: "nat \<Rightarrow> ('z console_scheme \<Rightarrow> 'b) \<Rightarrow> ('z console_scheme \<Rightarrow> 'b) \<Rightarrow> bool" where
  "agree_on n f g \<longleftrightarrow> (\<forall>s. length (input s) \<le> n \<longrightarrow> f s = g s)"

lemma input_simps [simp]:
  "input (s\<lparr>cycles := c\<rparr>) = input s" "input (s\<lparr>write_brkpt := b\<rparr>) = input s"
  "input (s\<lparr>bp := x\<rparr>) = input s" "input (put_stdout t s) = input s"
  "input (snd (check_brk a ty s)) = input s" "input (monitor_entry a s) = input s"
  by (simp_all add: put_stdout_def check_brk_def monitor_entry_def split_beta Let_def)

lemma sstep_agree:
  assumes "\<And>pc. agree_on n (mon pc) (mon' pc)"
  shows "agree_on n (e6809_sstep mon dosys i f) (e6809_sstep mon' dosys i f)"
proof -
  have "enter_monitor mon s = enter_monitor mon' s" if "length (input s) \<le> n" for s
    using assms that unfolding agree_on_def enter_monitor_def by (simp add: split_beta Let_def)
  then show ?thesis unfolding agree_on_def e6809_sstep_def by simp
qed

lemma inp_keepsD: "inp.keeps f \<Longrightarrow> f s = Inr (x, t) \<Longrightarrow> length (input t) \<le> length (input s)"
  using inp.keepsD [of f s] by (simp add: input_le_def)

lemma input_symbol_at: "symbol_at a s = Inr (r, t) \<Longrightarrow> length (input t) \<le> length (input s)"
  by (rule inp_keepsD [OF inp.keeps_symbol_at])

lemma run_instructions_agree:
  assumes ag: "agree_on n step step'" and k: "inp.keeps step'"
  shows "agree_on n (run_instructions step c pc) (run_instructions step' c pc)"
proof (induction c arbitrary: pc)
  case (Suc c)
  have "run_instructions step (Suc c) pc s = run_instructions step' (Suc c) pc s" if s: "length (input s) \<le> n" for s
    unfolding run_instructions.simps Let_def
  proof (rule bindr_cong [OF refl])
    fix r s1 assume s1: "symbol_at pc s = Inr (r, s1)"
    let ?t = "(put_stdout (sym_prefix ''+'' pc r @ '': '' @ fmt_m16s (fst (disassemble_instruction pc s)) @ '' | '') s1)
      \<lparr>bp := ignore_breakpoint pc (bp (put_stdout (sym_prefix ''+'' pc r @ '': '' @ fmt_m16s (fst (disassemble_instruction pc s)) @ '' | '') s1))\<rparr>"
    have t: "length (input ?t) \<le> n" using input_symbol_at [OF s1] s by simp
    then have st: "step ?t = step' ?t" using ag by (simp add: agree_on_def)
    show "bindr (step ?t) (\<lambda>addr s. run_instructions step c addr (put_stdout (get_cpu_state s @ newline) s)) =
       bindr (step' ?t) (\<lambda>addr s. run_instructions step' c addr (put_stdout (get_cpu_state s @ newline) s))"
      unfolding st
    proof (rule bindr_cong [OF refl])
      fix a u assume "step' ?t = Inr (a, u)"
      then have "length (input u) \<le> n" using inp_keepsD [OF k] t order.trans by blast
      then show "run_instructions step c a (put_stdout (get_cpu_state u @ newline) u) =
          run_instructions step' c a (put_stdout (get_cpu_state u @ newline) u)"
        using Suc [unfolded agree_on_def] by simp
    qed
  qed
  then show ?case by (simp add: agree_on_def)
qed (simp add: agree_on_def)

lemma exec_command_agree:
  assumes "agree_on n step step'" "inp.keeps step'" "length (input s) \<le> n"
  shows "exec_command step line l pc s = exec_command step' line l pc s"
proof -
  have "run_instructions step c pc s = run_instructions step' c pc s" for c pc
    using run_instructions_agree [OF assms(1,2)] assms(3) by (simp add: agree_on_def)
  then have "cmd_step step nm c l pc s = cmd_step step' nm c l pc s" for nm c l
    by (auto simp: cmd_step_def the_arg_def split: option.splits simp del: run_instructions.simps)
  then show ?thesis
    unfolding exec_command_def by (auto simp: Let_def the_arg_def split: option.splits cmd_numbers.splits prod.splits)
qed

lemma loops_agree:
  assumes dos: "\<And>n. inp.keeps (dosys n)"
  shows "k \<le> n \<Longrightarrow> k \<le> m \<Longrightarrow> agree_on k (monitor_loop n dosys l pc) (monitor_loop m dosys l pc)"
proof (induction k arbitrary: n m l pc)
  case 0
  then show ?case by (cases n; cases m) (auto simp: agree_on_def)
next
  case (Suc k)
  obtain n' m' where nm: "n = Suc n'" "m = Suc m'" "k \<le> n'" "k \<le> m'"
    using Suc.prems by (cases n; cases m) auto
  define step where "step j = run_instruction
    (\<lambda>pc s. monitor_loop j dosys locals_initial pc (monitor_entry pc s)) dosys" for j
  have entry: "length (input (monitor_entry pc s)) \<le> length (input s)" for pc s
    using inp.R_monitor_entry [of s pc] by (simp add: input_le_def)
  have "agree_on k (\<lambda>s. monitor_loop n' dosys locals_initial pc (monitor_entry pc s))
      (\<lambda>s. monitor_loop m' dosys locals_initial pc (monitor_entry pc s))" for pc
    using Suc.IH [OF nm(3,4), of locals_initial pc] entry order.trans unfolding agree_on_def by blast
  then have st: "agree_on k (step n') (step m')"
    unfolding step_def run_instruction_def by (rule sstep_agree)
  have ks: "inp.keeps (step m')"
    unfolding step_def run_instruction_def
    by (intro inp.keeps_sstep inp.keeps_entered inp.keeps_loop dos)
  have "monitor_loop n dosys l pc s = monitor_loop m dosys l pc s" if s: "length (input s) \<le> Suc k" for s
  proof (cases "input s")
    case (Cons line rest)
    let ?s = "s\<lparr>input := rest\<rparr>"
    have len: "length (input ?s) \<le> k" using s Cons by simp
    have ex: "exec_command (step n') line l pc ?s = exec_command (step m') line l pc ?s"
      by (rule exec_command_agree [OF st ks len])
    have "bindr (exec_command (step m') line l pc ?s)
        (\<lambda>out s. case out of Return addr \<Rightarrow> Inr (addr, s) | Next l pc \<Rightarrow> monitor_loop n' dosys l pc s) =
      bindr (exec_command (step m') line l pc ?s)
        (\<lambda>out s. case out of Return addr \<Rightarrow> Inr (addr, s) | Next l pc \<Rightarrow> monitor_loop m' dosys l pc s)"
    proof (rule bindr_cong [OF refl])
      fix out t assume "exec_command (step m') line l pc ?s = Inr (out, t)"
      then have "length (input t) \<le> k"
        using inp_keepsD [OF inp.keeps_exec_command [OF ks]] len order.trans by blast
      then show "(case out of Return addr \<Rightarrow> Inr (addr, t) | Next l pc \<Rightarrow> monitor_loop n' dosys l pc t) =
         (case out of Return addr \<Rightarrow> Inr (addr, t) | Next l pc \<Rightarrow> monitor_loop m' dosys l pc t)"
        using Suc.IH [OF nm(3,4)] by (auto simp: agree_on_def split: outcome.split)
    qed
    then show ?thesis using Cons ex by (simp add: nm(1,2) step_def Let_def)
  qed (simp add: nm(1,2))
  then show ?case by (simp add: agree_on_def)
qed

text \<open>
  C38. The command loop always comes to an end and its result does not depend on
  the bound: a monitor that is given any number of rounds from the number of
  lines left on computes what \<open>monitor\<close> computes, nested monitors included, if
  the system calls do not invent input. So \<open>monitor\<close> satisfies the recursive
  equation of the code, in which the single step enters \<open>monitor\<close> itself.
\<close>

theorem monitor_recursion:
  assumes dos: "\<forall>n s. length (input (final (dosys n s))) \<le> length (input s)"
  shows "(\<forall>n \<ge> length (input s).
       monitor_loop n dosys l pc s = monitor_loop (length (input s)) dosys l pc s) \<and>
    monitor dosys pc s = (let s = monitor_entry pc s in
     monitor_loop (length (input s)) dosys locals_initial pc s) \<and>
    (input s = line # rest \<longrightarrow> line \<noteq> [] \<longrightarrow> monitor_loop (length (input s)) dosys l pc s =
      bindr (exec_command (run_instruction (monitor dosys) dosys) line l pc (s\<lparr>input := rest\<rparr>))
        (\<lambda>out t. case out of Return addr \<Rightarrow> Inr (addr, t)
          | Next l pc \<Rightarrow> monitor_loop (length (input t)) dosys l pc t))"
proof (intro conjI impI)
  have k: "\<And>n. inp.keeps (dosys n)"
    using dos by (simp add: inp.keeps_def input_le_def)
  have ag: "length (input u) \<le> n \<Longrightarrow> length (input u) \<le> m \<Longrightarrow>
      monitor_loop n dosys l pc u = monitor_loop m dosys l pc u" for n m l pc u
    using loops_agree [where dosys = dosys, OF k, where k = "length (input u)" and n = n and m = m and l = l and pc = pc] unfolding agree_on_def by blast
  show "\<forall>n \<ge> length (input s). monitor_loop n dosys l pc s = monitor_loop (length (input s)) dosys l pc s"
    by (intro allI impI ag) simp_all
  show "monitor dosys pc s = (let s = monitor_entry pc s in
     monitor_loop (length (input s)) dosys locals_initial pc s)"
    by (simp add: monitor_def)
  assume i: "input s = line # rest" and "line \<noteq> []"
  let ?n = "length rest"
  let ?mon = "\<lambda>pc s. monitor_loop ?n dosys locals_initial pc (monitor_entry pc s)"
  have "agree_on ?n (?mon pc) (monitor dosys pc)" for pc
    unfolding agree_on_def monitor_def by (intro allI impI ag) simp_all
  then have st: "agree_on ?n (run_instruction ?mon dosys) (run_instruction (monitor dosys) dosys)"
    unfolding run_instruction_def by (rule sstep_agree)
  have ks: "inp.keeps (run_instruction (monitor dosys) dosys)"
    unfolding run_instruction_def by (intro inp.keeps_sstep inp.keeps_monitor [where dosys = dosys, OF k] k)
  note ex = exec_command_agree [OF st ks, of "s\<lparr>input := rest\<rparr>" line l pc]
  show "monitor_loop (length (input s)) dosys l pc s =
      bindr (exec_command (run_instruction (monitor dosys) dosys) line l pc (s\<lparr>input := rest\<rparr>))
        (\<lambda>out t. case out of Return addr \<Rightarrow> Inr (addr, t)
          | Next l pc \<Rightarrow> monitor_loop (length (input t)) dosys l pc t)"
  proof -
    have "monitor_loop (length (input s)) dosys l pc s =
      bindr (exec_command (run_instruction (monitor dosys) dosys) line l pc (s\<lparr>input := rest\<rparr>))
        (\<lambda>out t. case out of Return addr \<Rightarrow> Inr (addr, t) | Next l pc \<Rightarrow> monitor_loop ?n dosys l pc t)"
      using \<open>line \<noteq> []\<close> ex unfolding i by (simp add: i Let_def)
    also have "\<dots> = bindr (exec_command (run_instruction (monitor dosys) dosys) line l pc (s\<lparr>input := rest\<rparr>))
        (\<lambda>out t. case out of Return addr \<Rightarrow> Inr (addr, t)
          | Next l pc \<Rightarrow> monitor_loop (length (input t)) dosys l pc t)"
    proof (rule bindr_cong [OF refl])
      fix out t
      assume "exec_command (run_instruction (monitor dosys) dosys) line l pc (s\<lparr>input := rest\<rparr>) = Inr (out, t)"
      then have "length (input t) \<le> ?n"
        using inp_keepsD [OF inp.keeps_exec_command [OF ks]] by fastforce
      then show "(case out of Return addr \<Rightarrow> Inr (addr, t) | Next l pc \<Rightarrow> monitor_loop ?n dosys l pc t) =
        (case out of Return addr \<Rightarrow> Inr (addr, t)
          | Next l pc \<Rightarrow> monitor_loop (length (input t)) dosys l pc t)"
        using ag [of t ?n "length (input t)"] by (simp split: outcome.split)
    qed
    finally show ?thesis .
  qed
qed

lemma monitor_recursion_witness:
  "monitor_loop 7 (\<lambda>n s. Inr ((0, False, 0), s)) locals_initial 0 (console_on [''x'']) =
   monitor_loop 1 (\<lambda>n s. Inr ((0, False, 0), s)) locals_initial 0 (console_on [''x''])"
proof -
  have i: "input (console_on [''x'']) = [''x'']"
    by (simp add: console_on_def machine.extend_def console.fields_def)
  show ?thesis
    using monitor_recursion [of "\<lambda>n s. Inr ((0, False, 0), s)" "console_on [''x'']" locals_initial 0] unfolding i
    by simp
qed

end
