(* ===== verification/MapSpec.thy ===== *)
theory MapSpec
  imports Mapfile "HOL-Library.Multiset"
begin

text \<open>
  What the symbol table promises: the array is the sorted list of the symbol
  lines of the file, a lookup by address is the nearest symbol below whatever
  the cached index was, the extent of a symbol by name agrees with the lookups
  by address, and the two ways in which the code leaves its arrays.
\<close>

subsection \<open>Sorting\<close>

definition addrs_ok :: "mapentry list \<Rightarrow> bool" where
  "addrs_ok es \<longleftrightarrow> (\<forall>e \<in> set es. me_addr e \<le> 0xFFFF)"

abbreviation by_addr :: "mapentry list \<Rightarrow> bool" where
  "by_addr es \<equiv> sorted (map me_addr es)"

lemma mapcompare_le:
  assumes "me_addr x \<le> 0xFFFF" "me_addr y \<le> 0xFFFF"
  shows "mapcompare x y \<le> 0 \<longleftrightarrow> me_addr x \<le> me_addr y"
proof -
  let ?a = "uint (me_addr x)" and ?b = "uint (me_addr y)"
  have ab: "0 \<le> ?a" "?a \<le> 65535" "0 \<le> ?b" "?b \<le> 65535"
    using assms unsigned_greater_eq [of "me_addr x"] unsigned_greater_eq [of "me_addr y"]
    by (simp_all add: word_le_def)
  then have d: "- 2147483648 \<le> ?a - ?b" "?a - ?b < 2147483648" by linarith+
  have "sint (me_addr x - me_addr y) = signed_take_bit 31 (?a - ?b)"
    by (simp add: sint_uint uint_word_arith_bintrs signed_take_bit_take_bit)
  also have "\<dots> = ?a - ?b"
    by (rule signed_take_bit_int_eq_self) (use d in simp_all)
  finally show ?thesis
    by (simp add: mapcompare_def word_le_def)
qed

lemma mset_map_insort [simp]: "mset (map_insort x es) = add_mset x (mset es)"
  by (induction es) auto

lemma mset_map_qsort [simp]: "mset (map_qsort es) = mset es"
  by (induction es) auto

lemma set_map_qsort [simp]: "set (map_qsort es) = set es"
  by (metis mset_map_qsort set_mset_mset)

lemma length_map_qsort [simp]: "length (map_qsort es) = length es"
  by (metis mset_map_qsort size_mset)

lemma by_addr_insort:
  "addrs_ok (x # es) \<Longrightarrow> by_addr es \<Longrightarrow> by_addr (map_insort x es)"
proof (induction es)
  case (Cons y ys)
  then have "by_addr (map_insort x ys)" by (simp add: addrs_ok_def)
  moreover have "set (map_insort x ys) = insert x (set ys)"
    by (metis mset_map_insort set_mset_add_mset_insert set_mset_mset)
  ultimately show ?case
    using Cons.prems by (auto simp: addrs_ok_def mapcompare_le)
qed simp

lemma by_addr_qsort: "addrs_ok es \<Longrightarrow> by_addr (map_qsort es)"
  by (induction es) (auto simp: addrs_ok_def intro!: by_addr_insort)

lemma replicate_one: "replicate (Suc 0) x = [x]"
  by simp

lemma map_store_from:
  "i + length es \<le> length cells \<Longrightarrow>
   map_store i es cells = Some (take i cells @ map Some es @ drop (i + length es) cells)"
proof (induction es arbitrary: i cells)
  case (Cons e es)
  have "take (Suc i) (cells[i := Some e]) = take i cells @ [Some e]"
    using Cons.prems by (simp add: take_Suc_conv_app_nth)
  then show ?case using Cons by simp
qed simp

lemma map_store_overflow:
  "length cells < i + length es \<Longrightarrow> es \<noteq> [] \<Longrightarrow> map_store i es cells = None"
proof (induction es arbitrary: i cells)
  case (Cons e es)
  show ?case
  proof (cases "es = []")
    case False
    then show ?thesis using Cons.prems Cons.IH [of "cells[i := Some e]" "Suc i"] by simp
  qed (use Cons.prems in simp)
qed simp

definition map_loaded :: "mapentry list \<Rightarrow> mapstate \<Rightarrow> bool" where
  "map_loaded es m \<longleftrightarrow> maparray m = Arr (es @ [map_sentinel]) \<and> mapcnt m = length es \<and>
     mapidx m \<le> length es \<and> by_addr es \<and> addrs_ok es \<and> mapfile_loaded m"

text \<open>
  C17. Loading a map file for the first time returns, and leaves the entries of
  exactly the lines with " C " sorted by address, if their addresses are those
  of the 16-bit machine (the comparison subtracts them).
\<close>

theorem read_mapfile_sorts:
  assumes "maparray m = Null" "mapcnt m = 0" "mapidx m = 0"
    and "addrs_ok (map map_line_entry (map_lines txt))"
  shows "\<exists>m' es. read_mapfile (Some txt) m = Inr ((), m') \<and> map_loaded es m' \<and>
     mset es = mset (map map_line_entry (map_lines txt))"
proof -
  let ?es = "map map_line_entry (map_lines txt)"
  have "map_store 0 ?es (replicate (length ?es + 1) None) = Some (map Some ?es @ [None])"
    by (subst map_store_from) (simp_all del: replicate_Suc add: replicate_one)
  then show ?thesis
    using assms by (auto simp: read_mapfile_def map_loaded_def Let_def by_addr_qsort addrs_ok_def comp_def)
qed

text \<open>
  Loading a second map over a non-empty one never returns: the fill loop
  starts at the old count in an array that is uninitialised below it.
\<close>

lemma second_map_faults:
  assumes "map_loaded es m" "es \<noteq> []" "map_lines txt \<noteq> []"
  shows "\<exists>m'. read_mapfile (Some txt) m = Inl (Fault, m')"
proof -
  let ?es = "map map_line_entry (map_lines txt)" and ?i = "length es"
  show ?thesis
  proof (cases "?i + length ?es \<le> length ?es + 1")
    case True
    then have i: "?i = 1" using assms(2) by (cases es) auto
    then have "map_store 1 ?es (replicate (length ?es + 1) None) = Some (None # map Some ?es)"
      by (subst map_store_from) simp_all
    with assms i show ?thesis
      by (cases "map_lines txt") (simp_all add: read_mapfile_def map_loaded_def Let_def)
  next
    case False
    then have "map_store ?i ?es (replicate (length ?es + 1) None) = None"
      using assms(3) by (intro map_store_overflow) simp_all
    with assms show ?thesis
      by (simp add: read_mapfile_def map_loaded_def Let_def)
  qed
qed

subsection \<open>Lookup by address\<close>

text \<open>The entries at or below an address are a prefix of the table.\<close>

definition below :: "mapentry list \<Rightarrow> u32 \<Rightarrow> mapentry list" where
  "below es addr = takeWhile (\<lambda>e. me_addr e \<le> addr) es"

lemma below_filter: "by_addr es \<Longrightarrow> below es addr = filter (\<lambda>e. me_addr e \<le> addr) es"
proof (induction es)
  case (Cons e es)
  then show ?case
  proof (cases "me_addr e \<le> addr")
    case False
    with Cons.prems have "filter (\<lambda>e. me_addr e \<le> addr) es = []"
      by (auto simp: filter_empty_conv)
    with False show ?thesis by (simp add: below_def)
  qed (simp add: below_def)
qed (simp add: below_def)

lemma covers_below:
  assumes s: "by_addr es" and a: "addr < 0xFFFF" and i: "i < length es"
  shows "covers (es @ [map_sentinel]) i addr \<longleftrightarrow> length (below es addr) = Suc i"
proof -
  let ?t = "es @ [map_sentinel]" and ?n = "length (below es addr)"
  have le: "me_addr (es ! j) \<le> addr" if "j < ?n" for j
    using that nth_mem [of j "below es addr"] set_takeWhileD
    unfolding below_def by (fastforce simp: takeWhile_nth)
  have gt: "\<not> me_addr (?t ! ?n) \<le> addr"
  proof (cases "?n < length es")
    case True
    then show ?thesis using nth_length_takeWhile [of "\<lambda>e. me_addr e \<le> addr" es]
      by (simp add: below_def nth_append)
  next
    case False
    then have "?n = length es" using length_takeWhile_le [of "\<lambda>e. me_addr e \<le> addr" es]
      by (simp add: below_def)
    with a show ?thesis by (simp add: map_sentinel_def not_le)
  qed
  have n_le: "?n \<le> length es" by (simp add: below_def length_takeWhile_le)
  have mono: "me_addr (es ! j) \<le> me_addr (es ! k)" if "j \<le> k" "k < length es" for j k
    using sorted_nth_mono [OF s, of j k] that by simp
  have small: "j < ?n" if j: "me_addr (es ! j) \<le> addr" "j < length es" for j
  proof (rule ccontr)
    assume "\<not> j < ?n"
    with mono [of ?n j] j have "me_addr (es ! ?n) \<le> addr" "?n < length es" by auto
    with gt show False by (simp add: nth_append)
  qed
  show ?thesis
  proof
    assume "covers ?t i addr"
    then have c: "me_addr (es ! i) \<le> addr" "\<not> me_addr (?t ! Suc i) \<le> addr"
      using i by (simp_all add: covers_def nth_append not_le)
    have "i < ?n" using small [OF c(1) i] .
    moreover have "\<not> Suc i < ?n"
      using le [of "Suc i"] c(2) n_le by (auto simp: nth_append)
    ultimately show "?n = Suc i" by simp
  next
    assume n: "?n = Suc i"
    with le [of i] gt i show "covers ?t i addr"
      by (simp add: covers_def nth_append not_le)
  qed
qed

lemma map_search_spec:
  "i \<le> n \<Longrightarrow> (let j = map_search es addr n i in
     i \<le> j \<and> j \<le> n \<and> (j < n \<longrightarrow> covers es j addr) \<and> (\<forall>k. i \<le> k \<and> k < j \<longrightarrow> \<not> covers es k addr))"
proof (induction es addr n i rule: map_search.induct)
  case (1 es addr n i)
  show ?case
  proof (cases "i < n \<and> \<not> covers es i addr")
    case True
    then show ?thesis using 1 by (subst map_search.simps) (auto simp: Let_def le_Suc_eq not_less_eq_eq Suc_le_eq dest: le_neq_implies_less)
  next
    case False
    then show ?thesis using 1 by (subst map_search.simps) (auto simp: Let_def)
  qed
qed

definition nearest :: "mapentry list \<Rightarrow> u32 \<Rightarrow> (string option \<times> u32) option" where
  "nearest es addr = (let low = filter (\<lambda>e. me_addr e \<le> addr) es
     in if low = [] then None else Some (me_sym (last low), addr - me_addr (last low)))"

lemma nearest_below: "by_addr es \<Longrightarrow> nearest es addr = (if below es addr = [] then None
     else Some (me_sym (last (below es addr)), addr - me_addr (last (below es addr))))"
  by (simp add: nearest_def below_filter Let_def)

lemma covers_nearest:
  assumes "by_addr es" "addr < 0xFFFF" "i < length es" "covers (es @ [map_sentinel]) i addr"
  shows "nearest es addr = Some (me_sym (es ! i), addr - me_addr (es ! i))"
proof -
  have n: "length (below es addr) = Suc i" using assms covers_below by blast
  have "below es addr ! i = es ! i" using n unfolding below_def by (intro takeWhile_nth) simp
  moreover have "below es addr \<noteq> []" using n by auto
  ultimately have "below es addr \<noteq> []" "last (below es addr) = es ! i"
    using n by (simp_all add: last_conv_nth)
  then show ?thesis by (simp add: nearest_below [OF assms(1)])
qed

lemma no_cover_nearest:
  assumes "by_addr es" "addr < 0xFFFF" "\<forall>k < length es. \<not> covers (es @ [map_sentinel]) k addr"
  shows "nearest es addr = None"
proof (rule ccontr)
  assume "nearest es addr \<noteq> None"
  then obtain i where i: "length (below es addr) = Suc i"
    by (cases "below es addr") (auto simp: nearest_below [OF assms(1)])
  moreover have "length (below es addr) \<le> length es" by (simp add: below_def length_takeWhile_le)
  ultimately have "i < length es" by simp
  with i assms covers_below show False by blast
qed

lemma map_loaded_mapidx: "map_loaded es m \<Longrightarrow> i \<le> length es \<Longrightarrow> map_loaded es (m\<lparr>mapidx := i\<rparr>)"
  by (simp add: map_loaded_def)

lemma lookup_nearest:
  assumes m: "map_loaded es m" and a: "addr < 0xFFFF"
  shows "\<exists>i \<le> length es. get_symbol_and_offset addr m = Inr (nearest es addr, m\<lparr>mapidx := i\<rparr>) \<and>
    (es \<noteq> [] \<and> nearest es addr = None \<longrightarrow> i = length es)"
proof -
  let ?t = "es @ [map_sentinel]" and ?k = "mapidx m"
  have e: "map_entries m = ?t" "mapcnt m = length es" "?k \<le> length es" and s: "by_addr es"
    using m by (simp_all add: map_loaded_def map_entries_def)
  have at_end: "?k < length es" if "me_addr (?t ! ?k) \<le> addr"
  proof (rule ccontr)
    assume "\<not> ?k < length es"
    with e have "?k = length es" by simp
    with that a show False by (simp add: map_sentinel_def)
  qed
  consider (empty) "es = []" | (hit) "es \<noteq> []" "covers ?t ?k addr" | (miss) "es \<noteq> []" "\<not> covers ?t ?k addr"
    by blast
  then show ?thesis
  proof cases
    case empty
    then show ?thesis using e by (intro exI [of _ "?k"]) (simp add: get_symbol_and_offset_def nearest_def)
  next
    case hit
    then have k: "?k < length es" using at_end by (simp add: covers_def)
    with hit e covers_nearest [OF s a k hit(2)] show ?thesis
      by (intro exI [of _ "?k"]) (simp add: get_symbol_and_offset_def Let_def nth_append)
  next
    case miss
    let ?j = "map_search ?t addr (length es) 0"
    have j: "?j \<le> length es" "?j < length es \<Longrightarrow> covers ?t ?j addr"
        "\<forall>k < ?j. \<not> covers ?t k addr"
      using map_search_spec [of 0 "length es" ?t addr] by (auto simp: Let_def)
    have g: "get_symbol_and_offset addr m =
        (if ?j < length es then Inr (Some (me_sym (?t ! ?j), addr - me_addr (?t ! ?j)), m\<lparr>mapidx := ?j\<rparr>)
         else Inr (None, m\<lparr>mapidx := ?j\<rparr>))"
      using miss e at_end by (auto simp: get_symbol_and_offset_def Let_def)
    show ?thesis
    proof (cases "?j < length es")
      case True
      with g j(1) covers_nearest [OF s a True j(2) [OF True]] show ?thesis
        by (intro exI [of _ ?j]) (simp add: nth_append)
    next
      case False
      with j have "?j = length es" by simp
      with j(3) no_cover_nearest [OF s a] g show ?thesis by (intro exI [of _ ?j]) simp
    qed
  qed
qed

text \<open>From 0xFFFF on no entry covers an address: the sentinel ends the last one there.\<close>

lemma no_cover_high:
  assumes "addrs_ok es" "0xFFFF \<le> addr" "i < length es"
  shows "\<not> covers (es @ [map_sentinel]) i addr"
proof -
  have "me_addr ((es @ [map_sentinel]) ! (i + 1)) \<le> addr"
  proof (cases "i + 1 < length es")
    case True
    then have "me_addr (es ! (i + 1)) \<le> 0xFFFF"
      using assms(1) by (auto simp: addrs_ok_def)
    with True assms(2) show ?thesis by (simp add: nth_append)
  next
    case False
    with assms show ?thesis by (simp add: nth_append map_sentinel_def)
  qed
  then show ?thesis by (simp add: covers_def not_less)
qed

lemma lookup_high:
  assumes m: "map_loaded es m" and a: "0xFFFF \<le> addr"
  shows "get_symbol_and_offset addr m =
    (if es \<noteq> [] \<and> mapidx m = length es then Inl (Fault, m) else Inr (None, m\<lparr>mapidx := length es\<rparr>))"
proof -
  let ?t = "es @ [map_sentinel]" and ?k = "mapidx m"
  have e: "map_entries m = ?t" "mapcnt m = length es" "?k \<le> length es" and ok: "addrs_ok es"
    using m by (simp_all add: map_loaded_def map_entries_def)
  have nc: "\<not> covers ?t i addr" if "i < length es" for i
    using no_cover_high [OF ok a that] .
  have j: "map_search ?t addr (length es) 0 = length es"
    using map_search_spec [of 0 "length es" ?t addr] nc by (auto simp: Let_def le_less)
  consider (empty) "es = []" | (behind) "es \<noteq> []" "?k = length es" | (before) "es \<noteq> []" "?k < length es"
    using e(3) by fastforce
  then show ?thesis
  proof cases
    case empty
    then show ?thesis using e by (simp add: get_symbol_and_offset_def)
  next
    case behind
    then show ?thesis using e a by (simp add: get_symbol_and_offset_def Let_def map_sentinel_def)
  next
    case before
    then show ?thesis using e nc [OF before(2)] j by (simp add: get_symbol_and_offset_def Let_def)
  qed
qed

text \<open>
  C15. On a loaded table the lookup of an address below 0xFFFF gives the last
  symbol at or below it with the distance to it, or nothing when there is none,
  whatever the cached index was; the table stays loaded and only the cache moves.
  From 0xFFFF on, where the sentinel lies, nothing is found, and the cached index
  is moved to the sentinel; if it is there already, because an earlier lookup
  found nothing, the code reads behind the array.
\<close>

theorem lookup_by_address:
  assumes "map_loaded es m"
  shows "if addr < 0xFFFF
    then \<exists>m'. get_symbol_and_offset addr m = Inr (nearest es addr, m') \<and> map_loaded es m' \<and>
      m' = m\<lparr>mapidx := mapidx m'\<rparr>
    else get_symbol_and_offset addr m =
      (if es \<noteq> [] \<and> mapidx m = length es then Inl (Fault, m) else Inr (None, m\<lparr>mapidx := length es\<rparr>))"
proof (cases "addr < 0xFFFF")
  case True
  obtain i where "i \<le> length es" "get_symbol_and_offset addr m = Inr (nearest es addr, m\<lparr>mapidx := i\<rparr>)"
    using lookup_nearest [OF assms True] by blast
  with True show ?thesis using map_loaded_mapidx [OF assms] by simp
next
  case False
  then have "0xFFFF \<le> addr" by simp
  with False show ?thesis using lookup_high [OF assms] by simp
qed

text \<open>
  After a lookup that found nothing the cached index points at the sentinel,
  and a lookup of an address from 0xFFFF on reads past the array.
\<close>

lemma failed_lookup_then_fault:
  assumes "map_loaded es m" "es \<noteq> []" "addr < 0xFFFF" "nearest es addr = None" "0xFFFF \<le> high"
  shows "\<exists>m'. get_symbol_and_offset addr m = Inr (None, m') \<and>
     get_symbol_and_offset high m' = Inl (Fault, m')"
proof -
  have g: "get_symbol_and_offset addr m = Inr (None, m\<lparr>mapidx := length es\<rparr>)"
    using lookup_nearest [OF assms(1,3)] assms(2,4) by auto
  have "get_symbol_and_offset high (m\<lparr>mapidx := length es\<rparr>) = Inl (Fault, m\<lparr>mapidx := length es\<rparr>)"
    using assms by (simp add: get_symbol_and_offset_def map_loaded_def map_entries_def Let_def map_sentinel_def)
  with g show ?thesis by blast
qed

subsection \<open>Lookup by name\<close>

lemma find_sym_spec:
  "find_sym nm es \<le> length es \<and> (find_sym nm es < length es \<longrightarrow> me_sym (es ! find_sym nm es) = Some nm) \<and>
   (find_sym nm es = length es \<longleftrightarrow> (\<forall>e \<in> set es. me_sym e \<noteq> Some nm))"
  by (induction es) auto

lemma first_of_filter:
  assumes "filter P [a..<b] = j # js"
  shows "a \<le> j" "j < b" "P j" "\<forall>k. a \<le> k \<and> k < j \<longrightarrow> \<not> P k"
proof -
  from assms obtain us vs where u: "[a..<b] = us @ j # vs" "\<forall>k \<in> set us. \<not> P k" "P j"
    by (auto simp: filter_eq_Cons_iff)
  from arg_cong [OF u(1), of length] have l: "length us < b - a" by simp
  have nth: "(us @ j # vs) ! k = a + k" if "k < b - a" for k
    using that by (simp flip: u(1))
  from nth [OF l] have j: "j = a + length us" by simp
  have "k \<in> set us" if "a \<le> k" "k < j" for k
  proof -
    have "k - a < length us" using that j by simp
    moreover from this that j l nth [of "k - a"] have "us ! (k - a) = k" by (simp add: nth_append)
    ultimately show ?thesis using nth_mem by metis
  qed
  with u(2,3) j l show "a \<le> j" "j < b" "P j" "\<forall>k. a \<le> k \<and> k < j \<longrightarrow> \<not> P k" by auto
qed

text \<open>
  C16. The extent of a symbol agrees with the lookup by address: every address
  from the one that \<open>get_sym_address\<close> returns to the one that
  \<open>get_sym_end_address\<close> returns is found at a symbol of that same address, with
  its distance as the offset.
\<close>

theorem symbol_extent:
  assumes m: "map_loaded es m" and start: "get_sym_address nm m = start" "start \<noteq> minus_one"
    and finish: "get_sym_end_address nm m = finish" "finish \<noteq> minus_one"
    and a: "start \<le> a" "a \<le> finish"
  shows "\<exists>e \<in> set es. me_addr e = start \<and> nearest es a = Some (me_sym e, a - start)"
proof -
  let ?t = "es @ [map_sentinel]" and ?n = "length es"
  have e: "map_entries m = ?t" "mapcnt m = ?n" and s: "by_addr es" and ok: "addrs_ok es"
    using m by (simp_all add: map_loaded_def map_entries_def)
  define i where "i = find_sym nm es"
  have i: "i < ?n" "start = me_addr (es ! i)"
    using start e by (simp_all add: get_sym_address_def i_def Let_def nth_append split: if_splits)
  let ?P = "\<lambda>j. me_addr (?t ! j) > me_addr (?t ! i)"
  from finish e i obtain j js where f: "filter ?P [i + 1..<?n + 1] = j # js"
      and fin: "finish = me_addr (?t ! j) - 1"
    by (auto simp: get_sym_end_address_def i_def [symmetric] Let_def split: if_splits list.splits)
  note j = first_of_filter [OF f]
  have t_i: "?t ! i = es ! i" using i by (simp add: nth_append)
  have hi: "me_addr (?t ! j) \<le> 0xFFFF"
    using ok j(2) by (cases "j < ?n") (auto simp: nth_append addrs_ok_def map_sentinel_def)
  have "a < me_addr (?t ! j)"
  proof -
    have "me_addr (?t ! j) \<noteq> 0" using j(3) by auto
    then have "unat (me_addr (?t ! j) - 1) < unat (me_addr (?t ! j))"
      by (simp add: unat_minus_one unat_gt_0)
    with a(2) fin show ?thesis by (simp add: word_le_nat_alt word_less_nat_alt)
  qed
  define k where "k = j - 1"
  have k: "i \<le> k" "k < ?n" "Suc k = j" using j(1,2) by (auto simp: k_def)
  have "me_addr (?t ! k) \<le> start"
    using j(4) k i t_i by (cases "k = i") (auto simp: not_less)
  moreover have "start \<le> me_addr (?t ! k)"
    using sorted_nth_mono [OF s k(1)] k(2) i by (simp add: nth_append)
  ultimately have addr_k: "me_addr (es ! k) = start" using k by (simp add: nth_append)
  have "covers ?t k a"
    using addr_k a(1) k \<open>a < me_addr (?t ! j)\<close> by (simp add: covers_def nth_append)
  moreover have "a < 0xFFFF" using \<open>a < me_addr (?t ! j)\<close> hi by simp
  ultimately have "nearest es a = Some (me_sym (es ! k), a - start)"
    using covers_nearest [OF s _ k(2)] addr_k by simp
  with addr_k k(2) show ?thesis by (intro bexI [of _ "es ! k"]) simp_all
qed

definition demo_map :: mapstate where
  "demo_map = \<lparr>mapfile_loaded = True, maparray = Arr [\<lparr>me_addr = 0x100, me_sym = Some ''_main''\<rparr>,
     \<lparr>me_addr = 0x180, me_sym = Some ''_exit''\<rparr>, map_sentinel], mapidx = 0, mapcnt = 2\<rparr>"

lemma demo_loaded: "map_loaded [\<lparr>me_addr = 0x100, me_sym = Some ''_main''\<rparr>,
     \<lparr>me_addr = 0x180, me_sym = Some ''_exit''\<rparr>] demo_map"
  by (simp add: map_loaded_def demo_map_def addrs_ok_def)

lemma read_mapfile_sorts_witness:
  "\<exists>m' es. read_mapfile (Some (''0180 C _exit'' @ newline @ ''0100 C _main'' @ newline)) map_initial
     = Inr ((), m') \<and> map_loaded es m' \<and>
     mset es = {#\<lparr>me_addr = 0x180, me_sym = Some ''_exit''\<rparr>, \<lparr>me_addr = 0x100, me_sym = Some ''_main''\<rparr>#}"
proof -
  let ?f = "''0180 C _exit'' @ newline @ ''0100 C _main'' @ newline"
  have f: "map map_line_entry (map_lines ?f) =
    [\<lparr>me_addr = 0x180, me_sym = Some ''_exit''\<rparr>, \<lparr>me_addr = 0x100, me_sym = Some ''_main''\<rparr>]"
    by code_simp
  have "addrs_ok (map map_line_entry (map_lines ?f))" unfolding f by (simp add: addrs_ok_def)
  then have "\<exists>m' es. read_mapfile (Some ?f) map_initial = Inr ((), m') \<and> map_loaded es m' \<and>
      mset es = mset (map map_line_entry (map_lines ?f))"
    by (intro read_mapfile_sorts) (simp_all add: map_initial_def)
  then show ?thesis unfolding f by (simp only: mset.simps)
qed

lemma second_map_faults_witness:
  "\<exists>m'. read_mapfile (Some (''0200 C _f'' @ newline)) demo_map = Inl (Fault, m')"
proof -
  have "map_lines (''0200 C _f'' @ newline) \<noteq> []" by code_simp
  then show ?thesis by (intro second_map_faults [OF demo_loaded]) simp_all
qed

lemma lookup_by_address_witness:
  "(\<exists>m'. get_symbol_and_offset 0x190 demo_map = Inr (Some (Some ''_exit'', 0x10), m')) \<and>
   get_symbol_and_offset 0xFFFF demo_map = Inr (None, demo_map\<lparr>mapidx := 2\<rparr>)"
  using lookup_by_address [OF demo_loaded, of "0x190"] lookup_by_address [OF demo_loaded, of "0xFFFF"]
  by (auto simp: nearest_def demo_map_def)

lemma failed_lookup_then_fault_witness:
  "\<exists>m'. get_symbol_and_offset 0x20 demo_map = Inr (None, m') \<and>
     get_symbol_and_offset 0xFFFF m' = Inl (Fault, m')"
  by (rule failed_lookup_then_fault [OF demo_loaded]) (simp_all add: nearest_def)

lemma symbol_extent_witness:
  "nearest [\<lparr>me_addr = 0x100, me_sym = Some ''_main''\<rparr>,
     \<lparr>me_addr = 0x180, me_sym = Some ''_exit''\<rparr>] 0x17F = Some (Some ''_main'', 0x7F)"
proof -
  have "get_sym_address ''_main'' demo_map = 0x100" "get_sym_end_address ''_main'' demo_map = 0x17F"
    by (simp_all add: demo_map_def get_sym_address_def get_sym_end_address_def map_entries_def Let_def upt_rec)
  from symbol_extent [OF demo_loaded this(1) _ this(2), of "0x17F"] show ?thesis by simp
qed
end
