(* ===== verification/BrkSpec.thy ===== *)
theory BrkSpec
  imports Breakpoints
begin

text \<open>
  The breakpoint table as a set with room for 30 elements, through the
  interpretation of the table interface in \<open>Breakpoints\<close>.
\<close>

text \<open>Breakpoints set one after the other, as the command line and the monitor do.\<close>

fun set_breakpoints :: "(u32 \<times> brkpt_nums) list \<Rightarrow> brkstate \<Rightarrow> brkstate option" where
  "set_breakpoints [] b = Some b"
| "set_breakpoints ((a, t) # xs) b =
     (case set_breakpoint a t b of None \<Rightarrow> None | Some b \<Rightarrow> set_breakpoints xs b)"

lemma set_breakpoints_bps: "set_breakpoints xs b = bps.set_bps xs b"
  by (induction xs b rule: set_breakpoints.induct) (auto split: option.splits)

lemma set_breakpoint_frame:
  "set_breakpoint a t b = Some b' \<Longrightarrow>
   ignored_addr b' = ignored_addr b \<and> length (brkpointlist b') = length (brkpointlist b)"
  by (auto simp: set_breakpoint_def dest: length_set_slot)

lemma set_breakpoints_frame:
  "set_breakpoints xs b = Some b' \<Longrightarrow> ignored_addr b' = ignored_addr b"
  by (induction xs b rule: set_breakpoints.induct)
     (auto split: option.splits dest: set_breakpoint_frame)

definition proper_brks :: "(u32 \<times> brkpt_nums) list \<Rightarrow> bool" where
  "proper_brks xs \<longleftrightarrow> (\<forall>(a, t) \<in> set xs. t \<noteq> BRK_EMPTY)"

text \<open>
  C18. The table implements a set of at most 30 breakpoints: after \<open>monitor_init\<close>
  any list of that many can be set; from then on the check at an address that is
  not being ignored answers membership and changes nothing, removing an address
  removes exactly its breakpoints, and there is no room for another one exactly
  when 30 have been set.
\<close>

theorem table_refines_set:
  assumes len: "length (brkpointlist b0) = NUM_BRKPOINTS" and pr: "proper_brks xs"
    and fits: "length xs \<le> NUM_BRKPOINTS"
  shows "\<exists>b. set_breakpoints xs (monitor_init b0) = Some b \<and>
     (\<forall>addr ty. ty \<noteq> BRK_EMPTY \<longrightarrow> addr \<noteq> ignored_addr b0 \<longrightarrow>
        is_breakpoint addr ty b = ((addr, ty) \<in> set xs, b)) \<and>
     (\<forall>a. armed (remove_breakpoint a b) = {(x, t) \<in> set xs. x \<noteq> a}) \<and>
     (\<forall>a t. set_breakpoint a t b = None \<longleftrightarrow> length xs = NUM_BRKPOINTS)"
proof -
  let ?b = "monitor_init b0"
  have free: "free_slots ?b = NUM_BRKPOINTS" using len by (simp add: monitor_init_def)
  have p: "\<forall>(a, t) \<in> set xs. t \<noteq> BRK_EMPTY" using pr by (simp add: proper_brks_def)
  obtain b where b: "set_breakpoints xs ?b = Some b"
    using bps.set_bps_fits [OF p, of ?b] fits free by (auto simp: set_breakpoints_bps)
  have el: "armed b = set xs"
    using bps.set_bps_elems [OF p, of ?b b] b by (simp add: set_breakpoints_bps monitor_init_def)
  have ig: "ignored_addr b = ignored_addr b0"
    using set_breakpoints_frame [OF b] by (simp add: monitor_init_def remove_all_breakpoints_def)
  have "free_slots b + length xs = free_slots ?b"
    using bps.set_bps_uses [OF p, of ?b b] b by (simp add: set_breakpoints_bps)
  with free fits have "\<forall>a t. set_breakpoint a t b = None \<longleftrightarrow> length xs = NUM_BRKPOINTS"
    by (auto simp: bps.set_free)
  with b el ig show ?thesis by (auto simp: is_breakpoint_armed bps.del_elems)
qed

lemma table_refines_set_witness:
  "\<exists>b. set_breakpoints [(0x100, BRK_INST), (0x200, BRK_WRITE)] (monitor_init brk_initial) = Some b \<and>
     is_breakpoint 0x200 BRK_WRITE b = (True, b) \<and> is_breakpoint 0x200 BRK_INST b = (False, b)"
  using table_refines_set [of brk_initial "[(0x100, BRK_INST), (0x200, BRK_WRITE)]"]
  by (auto simp: brk_initial_def NUM_BRKPOINTS_def proper_brks_def)

text \<open>
  An ignored address is skipped for one check only: the check there fails
  whatever is armed, and the next one answers from the table again; checks at
  other addresses in between do not use the exemption up. Addresses are those
  of the 16-bit machine.
\<close>

lemma ignored_exactly_once:
  assumes "ty \<noteq> BRK_EMPTY" "a < 0x10000"
  shows "\<exists>b1. is_breakpoint a ty (ignore_breakpoint a b) = (False, b1) \<and>
     is_breakpoint a ty b1 = ((a, ty) \<in> armed b, b1) \<and> armed b1 = armed b \<and>
     (\<forall>a' ty'. a' \<noteq> a \<longrightarrow> ty' \<noteq> BRK_EMPTY \<longrightarrow>
        is_breakpoint a' ty' (ignore_breakpoint a b) = ((a', ty') \<in> armed b, ignore_breakpoint a b))"
proof -
  have "a \<noteq> minus_one" using assms(2) by auto
  moreover have "armed (ignore_breakpoint a b) = armed b" "ignored_addr (ignore_breakpoint a b) = a"
    by (simp_all add: ignore_breakpoint_def)
  ultimately show ?thesis using assms(1)
    by (simp add: is_breakpoint_ignored is_breakpoint_armed)
qed

lemma ignored_exactly_once_witness:
  "\<exists>b1. is_breakpoint 0x100 BRK_INST (ignore_breakpoint 0x100 brk_initial) = (False, b1)"
  using ignored_exactly_once [of BRK_INST "0x100" brk_initial] by auto
end
