(* ===== verification/MonProps.thy ===== *)
theory MonProps
  imports MonSpec MapSpec BrkSpec
begin

text \<open>
  What the monitor keeps and how it reads its input: the shape of the tables,
  addresses that read back, when a step enters the monitor, and the inputs that
  make it use a pointer it never set.
\<close>


subsection \<open>Well-formed tables\<close>

definition table_wf :: "'z machine_scheme \<Rightarrow> bool" where
  "table_wf s \<longleftrightarrow> length (brkpointlist (bp s)) = NUM_BRKPOINTS \<and> mapidx (maps s) \<le> mapcnt (maps s) \<and>
     (case maparray (maps s) of
        Arr es \<Rightarrow> \<exists>xs. es = xs @ [map_sentinel] \<and> length xs = mapcnt (maps s)
      | _ \<Rightarrow> mapcnt (maps s) = 0)"

definition keeps_wf :: "'z console_scheme \<Rightarrow> 'z console_scheme \<Rightarrow> bool" where
  "keeps_wf s t \<longleftrightarrow> (table_wf s \<longrightarrow> table_wf t)"

lemma table_wf_step_rel: "step_rel s t \<Longrightarrow> table_wf s \<Longrightarrow> table_wf t"
  unfolding step_rel_def table_wf_def by (cases "maps s"; cases "maps t") (auto split: maparr.splits)

lemma table_wf_upd [simp]:
  "length (brkpointlist b) = length (brkpointlist (bp s)) \<Longrightarrow> table_wf (s\<lparr>bp := b\<rparr>) = table_wf s"
  "table_wf (s\<lparr>input := xs\<rparr>) = table_wf s"
  by (auto simp: table_wf_def split: maparr.splits)

interpretation wf: respected_console keeps_wf
  by unfold_locales (auto simp: keeps_wf_def intro: table_wf_step_rel)

lemma lookup_no_fault:
  assumes "table_wf s" "a < 0xFFFF"
  shows "\<exists>r t. lookup_symbol a s = Inr (r, t)"
proof (cases "mapcnt (maps s) = 0")
  case False
  then obtain xs where xs: "maparray (maps s) = Arr (xs @ [map_sentinel])" "length xs = mapcnt (maps s)"
      "mapidx (maps s) \<le> length xs"
    using assms(1) by (auto simp: table_wf_def split: maparr.splits)
  have e: "map_entries (maps s) = xs @ [map_sentinel]" using xs by (simp add: map_entries_def)
  have "mapidx (maps s) < length xs" if "me_addr ((xs @ [map_sentinel]) ! mapidx (maps s)) \<le> a"
  proof (rule ccontr)
    assume "\<not> mapidx (maps s) < length xs"
    then have "mapidx (maps s) = length xs" using xs by simp
    with that assms(2) show False by (simp add: map_sentinel_def)
  qed
  then show ?thesis using xs(2,3) False
    by (auto simp: lookup_symbol_def get_symbol_and_offset_def e Let_def)
qed (simp add: lookup_symbol_def get_symbol_and_offset_def)

text \<open>
  C39. The breakpoint table keeps its 30 slots and the symbol table its shape (the
  cached index within it, the sentinel last) through any processor step and any
  monitor session, whatever commands are typed, if the system calls keep them;
  and with tables of that shape no lookup of an address below 0xFFFF reads
  outside the array.
\<close>

theorem tables_stay_well_formed:
  assumes dos: "\<forall>n s. table_wf s \<longrightarrow> table_wf (final (dosys n s))"
    and wf: "table_wf s"
  shows "table_wf (final (monitor dosys pc s)) \<and>
     table_wf (final (e6809_sstep (monitor dosys) dosys irq_i irq_f s)) \<and>
     (\<forall>a < 0xFFFF. \<exists>r t. lookup_symbol a s = Inr (r, t) \<and> table_wf t)"
proof (intro conjI allI impI)
  have k: "\<And>n. wf.keeps (dosys n)" using dos by (simp add: wf.keeps_def keeps_wf_def)
  have m: "\<And>pc. wf.keeps (monitor dosys pc)"
    by (rule wf.keeps_monitor [where dosys = dosys, OF k])
  show "table_wf (final (monitor dosys pc s))"
    using wf.keepsD [OF m, of s pc] wf by (simp add: keeps_wf_def)
  have "wf.keeps (e6809_sstep (monitor dosys) dosys irq_i irq_f)" by (intro wf.keeps_sstep m k)
  from wf.keepsD [OF this] wf show "table_wf (final (e6809_sstep (monitor dosys) dosys irq_i irq_f s))"
    by (simp add: keeps_wf_def)
  fix a :: u32 assume "a < 0xFFFF"
  with wf obtain r t where "lookup_symbol a s = Inr (r, t)" using lookup_no_fault by blast
  moreover from this have "table_wf t" using table_wf_step_rel [OF step_rel_lookup [of s a] wf] by simp
  ultimately show "\<exists>r t. lookup_symbol a s = Inr (r, t) \<and> table_wf t" by blast
qed

lemma tables_stay_well_formed_witness:
  "table_wf (final (monitor (\<lambda>n s. Inr ((0, False, 0), s)) 0 (console_on [''b 256'', ''s 2'', ''x''])))"
  by (rule conjunct1 [OF tables_stay_well_formed])
     (simp_all add: table_wf_def console_on_def machine.extend_def console.fields_def power_on_def
       brk_initial_def map_initial_def)

subsection \<open>Addresses\<close>

text \<open>Number strings have digits of their base only.\<close>

definition plain_digits :: "nat \<Rightarrow> string \<Rightarrow> bool" where
  "plain_digits base s \<longleftrightarrow> s \<noteq> [] \<and> base \<le> 16 \<and> (\<forall>c \<in> set s. digit_value c < base \<and> \<not> isspace c \<and>
     c \<noteq> CHR ''-'' \<and> c \<noteq> CHR ''+'')"

lemma tolower_x: "tolower c = CHR ''x'' \<Longrightarrow> digit_value c = 33"
proof -
  assume t: "tolower c = CHR ''x''"
  show ?thesis
  proof (cases "65 \<le> (of_char c :: nat) \<and> (of_char c :: nat) \<le> 90")
    case True
    then have "of_char (tolower c) = (of_char c :: nat) + 32"
      by (simp add: tolower_def of_char_of)
    with t have "(of_char c :: nat) = 88" by simp
    then show ?thesis by (simp add: digit_value_def)
  next
    case False
    with t have "c = CHR ''x''" by (auto simp: tolower_def)
    then show ?thesis by (simp add: digit_value_def)
  qed
qed

lemma skip_0x_plain:
  assumes "plain_digits base s"
  shows "skip_0x s = s"
proof (cases s rule: skip_0x.cases)
  case (1 a x d cs)
  then have "digit_value x < 16" using assms by (auto simp: plain_digits_def)
  then have "tolower x \<noteq> CHR ''x''" using tolower_x by fastforce
  then show ?thesis by (simp add: 1)
qed simp_all

lemma strtol_plain:
  assumes s: "plain_digits base s" and v: "strtol_digits base 0 s = n" "n < 2 ^ 31"
  shows "strtol_int s base = of_nat n"
proof -
  obtain c cs where c: "s = c # cs" using s by (cases s) (auto simp: plain_digits_def)
  have d: "dropWhile isspace s = s" using s c by (simp add: plain_digits_def)
  have "hd s \<noteq> CHR ''-''" "hd s \<noteq> CHR ''+''" using s c by (auto simp: plain_digits_def)
  then have "strtol s base = clamp_long (int n)"
    using d skip_0x_plain [OF s] by (simp add: strtol_def Let_def flip: v(1))
  also have "\<dots> = int n" using v(2) by (simp add: clamp_long_def)
  finally show ?thesis by (simp add: strtol_int_def)
qed

lemma plain_hex_str: "plain_digits 16 (hex_str n)"
proof -
  have "hex_str n \<noteq> []" by (subst hex_str.simps) simp
  then show ?thesis using hex_str_digits [of n] hex_str_not_space [of n] by (simp add: plain_digits_def)
qed

lemma dec_str_plain: "(\<forall>c \<in> set (dec_str n). digit_value c < 10 \<and> \<not> isspace c \<and>
    c \<noteq> CHR ''-'' \<and> c \<noteq> CHR ''+'' \<and> isdigit c) \<and> dec_str n \<noteq> []"
proof -
  have "\<not> isspace (hexdig m) \<and> hexdig m \<noteq> CHR ''-'' \<and> hexdig m \<noteq> CHR ''+'' \<and> isdigit (hexdig m)"
    if "m < 10" for m
    using of_char_hexdig [of m] that by (auto simp: isspace_def isdigit_def)
  then have "\<forall>c \<in> set (dec_str n). digit_value c < 10 \<and> \<not> isspace c \<and> c \<noteq> CHR ''-'' \<and>
      c \<noteq> CHR ''+'' \<and> isdigit c"
    by (induction n rule: dec_str.induct) (subst dec_str.simps, auto)
  moreover have "dec_str n \<noteq> []" by (subst dec_str.simps) simp
  ultimately show ?thesis by blast
qed

lemma plain_dec_str: "plain_digits 10 (dec_str n)"
  using dec_str_plain [of n] by (simp add: plain_digits_def)

lemma strtol_digits_dec_str: "strtol_digits 10 0 (dec_str n) = n"
proof (induction n rule: dec_str.induct)
  case (1 n)
  show ?case
  proof (cases "n < 10")
    case True
    then show ?thesis by (subst dec_str.simps) simp
  next
    case False
    then have "strtol_digits 10 0 (dec_str n) =
        strtol_digits 10 (strtol_digits 10 0 (dec_str (n div 10))) [hexdig (n mod 10)]"
      using dec_str_plain by (subst dec_str.simps) (simp add: strtol_digits_append)
    with False 1 show ?thesis by simp
  qed
qed

lemma parse_hex: "n < 2 ^ 31 \<Longrightarrow> parse_addr m (''$'' @ hex_str n) = (of_nat n, ''$'' @ hex_str n, Some False)"
  using strtol_plain [OF plain_hex_str strtol_digits_hex_str] by simp

lemma parse_dec: "n < 2 ^ 31 \<Longrightarrow> parse_addr m (dec_str n) = (of_nat n, dec_str n, Some False)"
proof -
  assume n: "n < 2 ^ 31"
  obtain c cs where c: "dec_str n = c # cs"
    using dec_str_plain [of n] by (cases "dec_str n") auto
  have d: "isdigit c" using dec_str_plain [of n] by (simp add: c)
  then have e: "c \<noteq> CHR ''$''" by (auto simp: isdigit_def)
  have "strtol_int (c # cs) 10 = of_nat n"
    using strtol_plain [OF plain_dec_str strtol_digits_dec_str n] by (simp only: c)
  with d e show ?thesis unfolding c
    by (simp del: parse_addr.simps add: parse_addr.simps(2) [of m c cs])
qed

definition symbol_name :: "string \<Rightarrow> bool" where
  "symbol_name nm \<longleftrightarrow> nm \<noteq> [] \<and> CHR ''+'' \<notin> set nm \<and> hd nm \<noteq> CHR ''$'' \<and> \<not> isdigit (hd nm)"

lemma parse_symbol:
  assumes nm: "symbol_name nm" and tail: "rest = [] \<or> hd rest = CHR ''+''"
  shows "parse_addr m (nm @ rest) =
    (let off = (if rest = [] then 0 else fst (parse_addr m (tl rest)));
         a = get_sym_address nm m
     in if off = minus_one then (minus_one, nm, Some False)
        else if a = minus_one then (minus_one, nm, Some True) else (a + off, nm, Some True))"
proof -
  obtain c cs where c: "nm = c # cs" using nm by (cases nm) (auto simp: symbol_name_def)
  have *: "takeWhile (\<lambda>x. x \<noteq> CHR ''+'') (nm @ rest) = nm" "dropWhile (\<lambda>x. x \<noteq> CHR ''+'') (nm @ rest) = rest"
    using nm tail by (cases rest; force simp: symbol_name_def takeWhile_append dropWhile_append)+
  show ?thesis using nm * unfolding c append_Cons
    by (subst parse_addr.simps) (simp add: symbol_name_def Let_def)
qed

text \<open>
  C40. Addresses as the monitor prints them read back: a hexadecimal number behind
  the dollar sign, a decimal number, a symbol of the loaded map, and a symbol with
  either kind of offset behind a plus sign, which also leaves the bare symbol in
  the argument and reports that one was used.
\<close>

theorem addresses_read_back:
  assumes n: "n < 2 ^ 31" and nm: "symbol_name nm" "get_sym_address nm m \<noteq> minus_one"
  shows "fst (parse_addr m (''$'' @ hex_str n)) = of_nat n \<and>
    fst (parse_addr m (dec_str n)) = of_nat n \<and>
    parse_addr m nm = (get_sym_address nm m, nm, Some True) \<and>
    parse_addr m (nm @ ''+$'' @ hex_str n) = (get_sym_address nm m + of_nat n, nm, Some True) \<and>
    parse_addr m (nm @ ''+'' @ dec_str n) = (get_sym_address nm m + of_nat n, nm, Some True)"
proof -
  have "(of_nat n :: u32) \<noteq> minus_one"
  proof
    assume "(of_nat n :: u32) = minus_one"
    then have "unat (of_nat n :: u32) = unat minus_one" by simp
    with n show False by (simp add: unsigned_of_nat take_bit_nat_eq_self)
  qed
  with parse_symbol [OF nm(1), of "[]" m] parse_symbol [OF nm(1), of "''+$'' @ hex_str n" m]
    parse_symbol [OF nm(1), of "''+'' @ dec_str n" m] nm(2) parse_hex [OF n, of m] parse_dec [OF n, of m]
  show ?thesis by (simp del: parse_addr.simps)
qed

lemma addresses_read_back_witness:
  "fst (parse_addr demo_map ''_main+$1F'') = 0x11F"
proof -
  have h: "hex_str 31 = ''1F''" by code_simp
  have "get_sym_address ''_main'' demo_map = 0x100"
    by (simp add: demo_map_def get_sym_address_def map_entries_def Let_def)
  with addresses_read_back [of 31 "''_main''" demo_map] show ?thesis
    by (simp add: symbol_name_def isdigit_def h del: parse_addr.simps)
qed


subsection \<open>Breakpoints and steps\<close>

definition mon_hit :: "'z machine_scheme \<Rightarrow> bool" where
  "mon_hit s \<longleftrightarrow> write_brkpt s \<or>
     ignored_addr (bp s) \<noteq> ucast (reg_pc s) \<and> (ucast (reg_pc s), BRK_INST) \<in> armed (bp s)"

lemma enter_monitor_hit:
  "enter_monitor mon s =
     (if mon_hit s
      then bindr (mon (ucast (reg_pc s)) (s\<lparr>write_brkpt := False\<rparr>)) (\<lambda>addr s.
             let s = s\<lparr>cycles := 0\<rparr>
             in ok (if addr \<noteq> minus_one then s\<lparr>reg_pc := ucast (addr AND 0xFFFF)\<rparr> else s))
      else ok (if ignored_addr (bp s) = ucast (reg_pc s) \<and> \<not> write_brkpt s
               then s\<lparr>bp := (bp s)\<lparr>ignored_addr := minus_one\<rparr>\<rparr> else s))"
  by (auto simp: enter_monitor_def mon_hit_def check_brk_def is_breakpoint_def armed_def list_ex_iff split_beta)

text \<open>
  A step runs the monitor before anything else exactly when a write
  breakpoint has been hit or an instruction breakpoint is armed at the program
  counter and not being ignored: then what ends the monitor ends the step, and
  otherwise the monitor has no part in the step. In particular a step at an
  address that \<open>ignore_breakpoint\<close> has just named, as the step command does, never
  enters the monitor.
\<close>

lemma breakpoints_enter_the_monitor:
  "(mon_hit s \<longrightarrow> mon (ucast (reg_pc s)) (s\<lparr>cycles := 0, write_brkpt := False\<rparr>) = Inl x \<longrightarrow>
      e6809_sstep mon dosys irq_i irq_f s = Inl x) \<and>
   (\<not> mon_hit s \<longrightarrow> e6809_sstep mon dosys irq_i irq_f s = e6809_sstep mon' dosys irq_i irq_f s) \<and>
   \<not> mon_hit (s\<lparr>bp := ignore_breakpoint (ucast (reg_pc s)) (bp s), write_brkpt := False\<rparr>)"
proof -
  have "mon_hit (s\<lparr>cycles := 0\<rparr>) = mon_hit s" by (simp add: mon_hit_def)
  then show ?thesis
    by (simp add: e6809_sstep_def enter_monitor_hit)
       (simp add: mon_hit_def ignore_breakpoint_def)
qed


lemma breakpoints_enter_the_monitor_witness:
  "e6809_sstep (\<lambda>pc s. Inl (Exit 0, s)) (\<lambda>n s. Inr ((0, False, 0), s)) False False
     (power_on\<lparr>write_brkpt := True\<rparr>) = Inl (Exit 0, power_on\<lparr>write_brkpt := False\<rparr>)"
  using breakpoints_enter_the_monitor [of "power_on\<lparr>write_brkpt := True\<rparr>" "\<lambda>pc s. Inl (Exit 0, s)"
      "(Exit 0, power_on\<lparr>write_brkpt := False\<rparr>)" "\<lambda>n s. Inr ((0, False, 0), s)" False False]
  by (simp add: mon_hit_def power_on_def)

subsection \<open>Blanks and the end of the input\<close>

lemma str_scan_blank:
  assumes "\<forall>c \<in> set w. isgraph c" "w \<noteq> []"
  shows "str_scan (w @ '' '') 5 = ([w], 1)"
proof -
  have b: "\<not> isgraph (CHR '' '')" by (simp add: isgraph_def)
  have d: "dropWhile (\<lambda>c. \<not> isgraph c) (w @ '' '') = w @ '' ''" using assms by (cases w) simp_all
  have t: "takeWhile isgraph (w @ '' '') = w" "dropWhile isgraph (w @ '' '') = '' ''"
    using assms(1) b by (simp_all add: takeWhile_append dropWhile_append)
  show ?thesis
    by (simp add: eval_nat_numeral Let_def d t assms(2))
qed

lemma str_scan_none: "\<forall>c \<in> set w. \<not> isgraph c \<Longrightarrow> str_scan w n = ([], 0)"
  by (cases n) (simp_all add: Let_def)

definition takes_address :: "cmd_numbers set" where
  "takes_address = {CMD_BRK, CMD_WBRK, CMD_NOBRK, CMD_GO, CMD_STEP, CMD_DISASM, CMD_PRINT}"

text \<open>
  Three inputs make the monitor use a pointer it never set: a first line of
  blanks only, a first line with one word and a blank behind it when the word is
  a command that looks at its argument (the scanner counts the blank as a second
  word), and the end of the input.
\<close>

lemma unset_arguments_fault:
  "((\<forall>c \<in> set w. \<not> isgraph c) \<longrightarrow> exec_command step w locals_initial pc s = Inl (Fault, s)) \<and>
   ((\<forall>c \<in> set w. isgraph c) \<longrightarrow> w \<noteq> [] \<longrightarrow> (\<exists>cmd \<in> takes_address. snd (get_command w) = Some cmd) \<longrightarrow>
     exec_command step (w @ '' '') locals_initial pc s = Inl (Fault, s)) \<and>
   (input u = [] \<longrightarrow> (\<exists>t. monitor dosys pc u = Inl (Fault, t)))"
proof (intro conjI impI)
  assume "\<forall>c \<in> set w. \<not> isgraph c"
  then show "exec_command step w locals_initial pc s = Inl (Fault, s)"
    by (simp add: exec_command_def str_scan_none locals_initial_def store_args_def the_arg_def)
next
  assume w: "\<forall>c \<in> set w. isgraph c" "w \<noteq> []" "\<exists>cmd \<in> takes_address. snd (get_command w) = Some cmd"
  then obtain cmd where cmd: "snd (get_command w) = Some cmd" "cmd \<in> takes_address" by blast
  obtain nm where g: "get_command w = (nm, Some cmd)" using cmd(1) by (cases "get_command w") simp
  have "store_args [w] (replicate 10 None) = Some w # replicate 9 None"
    by (simp add: store_args_def eval_nat_numeral)
  then show "exec_command step (w @ '' '') locals_initial pc s = Inl (Fault, s)"
    using cmd(2) by (auto simp: exec_command_def str_scan_blank [OF w(1,2)] locals_initial_def the_arg_def g
      takes_address_def cmd_brk_def cmd_wbrk_def cmd_nobrk_def cmd_go_def cmd_step_def cmd_dump_def
      arg_addr_def)
next
  assume "input u = []"
  then show "\<exists>t. monitor dosys pc u = Inl (Fault, t)" by (simp add: monitor_def)
qed

lemma unset_arguments_fault_witness:
  "exec_command (\<lambda>s. Inr (0, s)) ''b '' locals_initial 0 power_on = Inl (Fault, power_on)"
proof -
  have "snd (get_command ''b'') = Some CMD_BRK" by code_simp
  moreover have "isgraph (CHR ''b'')" by (simp add: isgraph_def)
  ultimately show ?thesis
    using unset_arguments_fault [of "''b''" "\<lambda>s. Inr (0, s)" 0 power_on "console_on []"
      "\<lambda>n s. Inr ((0, False, 0), s)"]
    by (simp add: takes_address_def)
qed
end
