(* ===== verification/SysSpec.thy ===== *)
theory SysSpec
  imports Syscalls MonProps
begin

text \<open>
  What every system call leaves alone, and the composition of the processor, the
  monitor and the system calls: the assumptions of the monitor's theorems hold
  for the real handler and every host.
\<close>


subsection \<open>What a system call leaves alone\<close>

definition core :: "('h, 'z) process_scheme \<Rightarrow> _" where
  "core s = ((reg_x s, reg_y s, reg_u s, reg_s s, reg_pc s, reg_a s, reg_b s, reg_dp s, reg_cc s),
     (irq_status s, cycles s, write_brkpt s, bp s, maps s, logfile s),
     (input s, initbrk s, emuname s, fuzix_root s, process.more s))"

definition sys_rel :: "('h, 'z) process_scheme \<Rightarrow> ('h, 'z) process_scheme \<Rightarrow> bool" where
  "sys_rel s t \<longleftrightarrow> core t = core s \<and> prefix (stdout s) (stdout t) \<and> prefix (stderr s) (stderr t) \<and>
     (initbrk s \<le> curbrk s \<longrightarrow> initbrk t \<le> curbrk t)"

definition sys_keeps :: "(('h, 'z) process_scheme \<Rightarrow> (('h, 'z) process_scheme, 'r) res) \<Rightarrow> bool" where
  "sys_keeps f \<longleftrightarrow> (\<forall>s. sys_rel s (final (f s)))"

lemma sys_rel_refl [simp]: "sys_rel s s"
  by (simp add: sys_rel_def)

lemma sys_rel_trans: "sys_rel s t \<Longrightarrow> sys_rel t u \<Longrightarrow> sys_rel s u"
  unfolding sys_rel_def by (auto intro: prefix_order.trans)

lemma sys_rel_upd [simp]:
  "sys_rel s (s\<lparr>ram := r\<rparr>)" "sys_rel s (s\<lparr>fefcval := f\<rparr>)" "sys_rel s (s\<lparr>errno := e\<rparr>)"
  "sys_rel s (s\<lparr>host := h, errno := e\<rparr>)" "sys_rel s (s\<lparr>realfilename := b, whichrfn := w\<rparr>)"
  "sys_rel s (put_stdout x s)" "sys_rel s (put_stderr x s)"
  by (simp_all add: sys_rel_def core_def put_stdout_def put_stderr_def)

lemma sys_bind: "sys_rel s (final m) \<Longrightarrow> (\<And>x t. m = Inr (x, t) \<Longrightarrow> sys_rel t (final (g x t))) \<Longrightarrow>
    sys_rel s (final (bindr m g))"
  by (cases m) (auto intro: sys_rel_trans)

lemma sys_host [simp]: "sys_rel s (snd (host_call os c s))"
  by (simp add: host_call_def split_beta Let_def)

lemma sys_host_then: "sys_keeps f \<Longrightarrow> sys_rel s (final (f (snd (host_call os c s))))"
  unfolding sys_keeps_def using sys_rel_trans [OF sys_host] by blast

lemma sys_write8: "sys_rel s (final (e6809_write8 a d s))"
  by (simp add: e6809_write8_def)

lemma sys_mem [simp]:
  "sys_rel s (final (store_bytes a bs s))" "sys_rel s (final (load_bytes a n s))"
  "sys_rel s (final (c_string b s))" "sys_rel s (final (fail_with e s))"
  "sys_rel s (final (call_result os c s))" "sys_rel s (final (int_call os nm offs s))"
  by (simp_all add: store_bytes_def load_bytes_def c_string_def fail_with_def call_result_def int_call_def
      split_beta Let_def split: option.splits)

lemma sys_putui [simp]: "sys_rel s (final (putui a v s))"
  unfolding putui_def by (intro sys_bind sys_write8)

lemma sys_store_fields [simp]: "sys_rel s (final (store_fields a fs s))"
  by (induction a fs s rule: store_fields.induct) (auto intro!: sys_bind)

lemma sys_xlate [simp]: "sys_rel s (final (xlate_filename p s))"
  by (auto simp: xlate_filename_def Let_def intro!: sys_bind split: option.splits)

lemma sys_deref [simp]: "sys_rel s (final (deref p s))"
  by (simp add: deref_def split: cptr.splits)

lemma sys_with_path: "(\<And>p s. sys_rel s (final (f p s))) \<Longrightarrow> sys_rel s (final (with_path off f s))"
  by (auto simp: with_path_def intro!: sys_bind split: option.splits)

lemma sys_paths [simp]:
  "sys_rel s (final (path_call os nm offs s))" "sys_rel s (final (path2_call os nm s))"
  by (auto simp: path_call_def path2_call_def Let_def intro!: sys_with_path sys_bind)

lemma sys_host': "sys_rel s t \<Longrightarrow> sys_rel s (snd (host_call os c t))"
  by (rule sys_rel_trans [OF _ sys_host])

named_theorems sys_steps

lemma final_Inr: "final (Inr p) = snd p"
  by (cases p) simp

lemmas [sys_steps] = sys_host' sys_mem [THEN [2] sys_rel_trans] sys_putui [THEN [2] sys_rel_trans]
  sys_store_fields [THEN [2] sys_rel_trans] sys_bind

lemma sys_dirents [sys_steps]: "sys_rel s t \<Longrightarrow> sys_rel s (write_dirents os fd es t)"
  by (induction es arbitrary: t) (simp_all add: sys_host')

lemma sys_dirent_file [sys_steps]: "sys_rel s t \<Longrightarrow> sys_rel s (snd (make_dirent_file os p t))"
proof -
  assume *: "sys_rel s t"
  note o = sys_host' [OF *, of os "H_path ''opendir'' p []"]
  note m = sys_host' [OF o, of os "H_call ''mkstemp'' []"]
  show ?thesis
    unfolding make_dirent_file_def Let_def split_beta
    by (cases "rdir (fst (host_call os (H_path ''opendir'' p []) t))")
       (simp_all add: o m sys_host' sys_dirents)
qed

lemma sys_open [simp]: "sys_rel s (final (sys_open os s))"
  unfolding sys_open_def Let_def split_beta
  by (intro sys_with_path sys_bind sys_deref) (auto simp: final_Inr intro!: sys_steps)

lemma sys_files_calls [simp]:
  "sys_rel s (final (sys_read os s))" "sys_rel s (final (sys_write os s))" "sys_rel s (final (sys_lseek os s))"
  unfolding sys_read_def sys_write_def sys_lseek_def Let_def split_beta
  by (auto intro!: sys_steps split: option.splits)

lemma sys_finish_stat: "sys_rel s (final (finish_stat os c u s))"
  unfolding finish_stat_def Let_def split_beta copystat_def
  by (auto intro!: sys_steps)

lemma sys_stats [simp]: "sys_rel s (final (sys_stat os s))" "sys_rel s (final (sys_fstat os s))"
  unfolding sys_stat_def sys_fstat_def
  by (auto intro!: sys_with_path sys_bind sys_finish_stat split: option.splits)

lemma sys_from_termios [sys_steps]: "sys_rel s u \<Longrightarrow> sys_rel s (final (from_fuzix_termios f t u))"
  by (auto simp: from_fuzix_termios_def intro!: sys_steps)

lemma sys_tc [simp]:
  "sys_rel s (final (sys_tcget os s))" "sys_rel s (final (sys_tcset os fl s))" "sys_rel s (final (sys_winsize os s))"
  unfolding sys_tcget_def sys_tcset_def sys_winsize_def to_fuzix_termios_def Let_def split_beta
  by (auto intro!: sys_steps split: option.splits)

lemma sys_switch:
  "\<forall>(l, f) \<in> set tab. \<forall>s. sys_rel s (final (f s)) \<Longrightarrow> (\<And>s. sys_rel s (final (d s))) \<Longrightarrow>
   sys_rel s (final (switch tab d k s))"
proof -
  assume "\<forall>(l, f) \<in> set tab. \<forall>s. sys_rel s (final (f s))" "\<And>s. sys_rel s (final (d s))"
  then have "\<forall>s. sys_rel s (final (switch tab d k s))" by (intro switch_all [where P = "\<lambda>f. \<forall>s. sys_rel s (final (f s))"]) auto
  then show ?thesis ..
qed

lemma sys_ioctl [simp]: "sys_rel s (final (sys_ioctl os s))"
  unfolding sys_ioctl_def Let_def by (rule sys_switch) simp_all

lemma sys_breaks [simp]: "sys_rel s (final (sys_brk s))" "sys_rel s (final (sys_sbrk s))"
  by (auto simp: sys_brk_def sys_sbrk_def Let_def sys_rel_def core_def fail_with_def)

lemma sys_can_open [sys_steps]: "sys_rel s t \<Longrightarrow> sys_rel s (snd (can_open os p t))"
  by (simp add: can_open_def split_beta Let_def sys_host')

lemma sys_collect [sys_steps]: "sys_rel s t \<Longrightarrow> sys_rel s (final (collect_args i a t))"
proof (induction i a t rule: collect_args.induct)
  case (1 i a t)
  show ?case
  proof (cases "i < MAX_ARGS \<and> getui a t \<noteq> 0")
    case True
    have "sys_rel s (final (bindr (c_string (getui a t) t) (\<lambda>str t.
        bindr (collect_args (i + 1) (a + 2) t) (\<lambda>strs t. Inr (str # strs, t)))))"
    proof (cases "cstr_at (getui a t) t")
      case None
      then show ?thesis using 1 by (simp add: c_string_def)
    next
      case (Some str)
      then have c: "c_string (getui a t) t = Inr (str, t)" by (simp add: c_string_def)
      from 1(1) [OF _ _ c] True 1(2) have "sys_rel s (final (collect_args (i + 1) (a + 2) t))" by simp
      then show ?thesis unfolding c by (simp add: sys_bind)
    qed
    with True show ?thesis by (subst collect_args.simps) simp
  qed (subst collect_args.simps, use 1 in auto)
qed


lemma sys_execve [simp]: "sys_rel s (final (sys_execve os s))"
proof -
  have fin: "sys_rel u (final (let (found, s) = can_open os prog u
       in if \<not> found then fail_with EACCES s
          else bindr (collect_args 2 (ucast (uiarg 2 s) + 2) s) (\<lambda>strs s.
                 Inl (Main (emuname s # prog # strs), s))))" for u prog
    by (auto simp: split_beta Let_def intro!: sys_steps)
  show ?thesis
    unfolding sys_execve_def Let_def split_beta
    by (intro sys_with_path sys_bind sys_deref) 
       (auto simp: final_Inr split_beta Let_def intro!: sys_steps fin [unfolded Let_def split_beta])
qed

lemma sys_others [simp]:
  "sys_rel s (final (sys_time os s))" "sys_rel s (final (sys_signal os s))" "sys_rel s (final (sys_kill os s))"
  "sys_rel s (final (sys_pause os s))" "sys_rel s (final (sys_pipe os s))" "sys_rel s (final (sys_fcntl os s))"
  "sys_rel s (final (sys_waitpid os s))"
  unfolding sys_time_def sys_signal_def sys_kill_def sys_pause_def sys_pipe_def sys_fcntl_def sys_waitpid_def
    Let_def split_beta
  by (auto intro!: sys_steps split: option.splits)

lemma sys_do_syscall: "sys_rel s (final (do_syscall os op s))"
proof -
  have tab: "\<forall>(l, f) \<in> set (sys_files os @ sys_process os @ sys_rest os). \<forall>s. sys_rel s (final (f s))"
    by (simp add: sys_files_def sys_process_def sys_rest_def)
  show ?thesis
    unfolding do_syscall_def
    by (intro sys_bind sys_rel_trans [OF _ sys_switch [OF tab]]) simp_all
qed

text \<open>
  C33. A system call, whatever its number and whatever the host answers, changes
  memory, the output and its own variables only: no register, no breakpoint, no
  symbol, no input line; and the break never moves below its initial value.
\<close>

theorem system_calls_spare_the_machine:
  fixes s :: "('h, 'z) process_scheme"
  assumes "do_syscall os op s = Inr (r, t) \<or> do_syscall os op s = Inl (h, t)"
  shows "e6809_get_regs t = e6809_get_regs s \<and> reg_a t = reg_a s \<and> reg_b t = reg_b s \<and>
     bp t = bp s \<and> maps t = maps s \<and> input t = input s \<and> irq_status t = irq_status s \<and>
     (initbrk s \<le> curbrk s \<longrightarrow> initbrk t \<le> curbrk t)"
proof -
  have "final (do_syscall os op s) = t" using assms by auto
  with sys_do_syscall [of s os op] show ?thesis
    by (auto simp: sys_rel_def core_def e6809_get_regs_def)
qed

lemma process_on_simps [simp]:
  "ram (process_on ls h) = (\<lambda>_. 0)" "reg_s (process_on ls h) = 0" "initbrk (process_on ls h) = 0"
  "input (process_on ls h) = ls" "bp (process_on ls h) = brk_initial" "maps (process_on ls h) = map_initial"
  by (simp_all add: process_on_def console_on_def power_on_def process.fields_def console.fields_def
      machine.extend_def console.extend_def)

lemma system_calls_spare_the_machine_witness:
  "bp (process_on [] ()\<lparr>curbrk := 5, errno := 0\<rparr>) = bp (process_on [] ()\<lparr>curbrk := 5\<rparr>)"
proof -
  have "do_syscall os 0 (process_on [] ()\<lparr>curbrk := 5\<rparr>) =
      Inl (Exit (siarg 0 (process_on [] ()\<lparr>curbrk := 5, errno := 0\<rparr>)), process_on [] ()\<lparr>curbrk := 5, errno := 0\<rparr>)" for os
    by (simp add: do_syscall_def sys_files_def)
  from system_calls_spare_the_machine [OF disjI2 [OF this]] show ?thesis by blast
qed

lemma table_wf_cong: "bp t = bp s \<Longrightarrow> maps t = maps s \<Longrightarrow> table_wf t = table_wf s"
  by (auto simp: table_wf_def split: maparr.splits)

lemma sys_core:
  "table_wf (final (do_syscall os op s)) = table_wf s" "input (final (do_syscall os op s)) = input s"
proof -
  have "bp (final (do_syscall os op s)) = bp s" "maps (final (do_syscall os op s)) = maps s"
    "input (final (do_syscall os op s)) = input s"
    using sys_do_syscall [of s os op] by (simp_all add: sys_rel_def core_def)
  then show "table_wf (final (do_syscall os op s)) = table_wf s" "input (final (do_syscall os op s)) = input s"
    by - (rule table_wf_cong, assumption+)
qed

lemma sys_clients: "wf.keeps (do_syscall os n)" "inp.keeps (do_syscall os n)"
  by (simp_all add: wf.keeps_def inp.keeps_def keeps_wf_def input_le_def sys_core)

text \<open>
  With the real system calls the assumptions of the monitor theorems hold: a
  monitor session reads lines only forwards, ends, satisfies the recursive
  equation of the code and keeps the tables well-formed, for every host.
\<close>

lemma whole_emulator_keeps_tables:
  assumes "table_wf (s :: ('h, 'z) process_scheme)"
  shows "table_wf (final (monitor (do_syscall os) pc s)) \<and>
     length (input (final (monitor (do_syscall os) pc s))) \<le> length (input s) \<and>
     table_wf (final (e6809_sstep (monitor (do_syscall os)) (do_syscall os) irq_i irq_f s)) \<and>
     (n \<ge> length (input s) \<longrightarrow>
       monitor_loop n (do_syscall os) l pc s = monitor_loop (length (input s)) (do_syscall os) l pc s)"
proof (intro conjI impI)
  note m = wf.keeps_monitor [where dosys = "do_syscall os", OF sys_clients(1)]
    inp.keeps_monitor [where dosys = "do_syscall os", OF sys_clients(2)]
  show "table_wf (final (monitor (do_syscall os) pc s))"
    using wf.keepsD [OF m(1), of s pc] assms by (simp only: keeps_wf_def)
  show "length (input (final (monitor (do_syscall os) pc s))) \<le> length (input s)"
    using inp.keepsD [OF m(2), of s pc] by (simp only: input_le_def)
  have "wf.keeps (e6809_sstep (monitor (do_syscall os)) (do_syscall os) irq_i irq_f
      :: ('h, 'z) process_scheme \<Rightarrow> _)" by (intro wf.keeps_sstep m(1) sys_clients(1))
  from wf.keepsD [OF this, of s] assms
  show "table_wf (final (e6809_sstep (monitor (do_syscall os)) (do_syscall os) irq_i irq_f s))"
    by (simp only: keeps_wf_def)
  assume "n \<ge> length (input s)"
  with loops_agree [where dosys = "do_syscall os", OF sys_clients(2), of "length (input s)" n "length (input s)" l pc]
  show "monitor_loop n (do_syscall os) l pc s = monitor_loop (length (input s)) (do_syscall os) l pc s"
    unfolding agree_on_def by blast
qed

end
