(* ===== verification/SysLow.thy ===== *)
theory SysLow
  imports Garbage SysSpec
begin

text \<open>
  The system call handler does not look at the insignificant bits of the
  registers, except through the number it is handed. \<open>trim\<close> clears these bits;
  two machines are related by \<open>low_eq\<close> if they are equal when trimmed, and every
  case of \<open>do_syscall\<close> commutes with \<open>trim\<close>. With this, \<open>Garbage\<close> applies to the
  steps of the whole emulator.
\<close>

subsection \<open>Trimmed machines\<close>

definition trim :: "'z machine_scheme \<Rightarrow> 'z machine_scheme" where
  "trim s = s\<lparr>reg_x := take_bit 16 (reg_x s), reg_y := take_bit 16 (reg_y s), reg_u := take_bit 16 (reg_u s),
     reg_s := take_bit 16 (reg_s s), reg_a := take_bit 8 (reg_a s), reg_b := take_bit 8 (reg_b s),
     reg_dp := take_bit 8 (reg_dp s), reg_cc := take_bit 8 (reg_cc s)\<rparr>"

definition trimmed :: "('z machine_scheme, 'a) res \<Rightarrow> ('z machine_scheme, 'a) res" where
  "trimmed = map_sum (map_prod id trim) (map_prod id trim)"

lemma low_eq_trim: "low_eq s t \<longleftrightarrow> trim s = trim t"
  by (cases s; cases t) (simp add: low_eq_iff low_def trim_def)

lemma trimmed_simps [simp]:
  "trimmed (Inl (e, s)) = Inl (e, trim s)" "trimmed (Inr (x, s)) = Inr (x, trim s)"
  by (simp_all add: trimmed_def)

lemma trimmed_res_rel: "trimmed m = trimmed m' \<Longrightarrow> res_rel (=) m m'"
  by (cases m; cases m') (auto simp: trimmed_def low_eq_trim map_prod_def split: prod.splits)

text \<open>
  An operation is \<^emph>\<open>blind\<close> if it commutes with \<open>trim\<close>.
\<close>

definition blind :: "('z machine_scheme \<Rightarrow> ('z machine_scheme, 'a) res) \<Rightarrow> bool" where
  "blind f \<longleftrightarrow> (\<forall>s. f (trim s) = trimmed (f s))"

lemma blindD: "blind f \<Longrightarrow> f (trim s) = trimmed (f s)"
  by (simp add: blind_def)

lemma blind_low: "blind f \<Longrightarrow> low_eq s t \<Longrightarrow> res_rel (=) (f s) (f t)"
  by (rule trimmed_res_rel) (metis blindD low_eq_trim)

lemma bindr_trimmed [simp]:
  "(\<And>x s. g x (trim s) = trimmed (g x s)) \<Longrightarrow> bindr (trimmed m) g = trimmed (bindr m g)"
  by (cases m) (auto simp: trimmed_def map_prod_def split: prod.splits)

subsection \<open>What the handler reads and writes\<close>

lemma trim_fields [simp]:
  "reg_pc (trim s) = reg_pc s" "irq_status (trim s) = irq_status s" "ram (trim s) = ram s"
  "fefcval (trim s) = fefcval s" "stdout (trim s) = stdout s" "stderr (trim s) = stderr s"
  by (simp_all add: trim_def)

lemma trim_process [simp]:
  fixes s :: "('h, 'z) process_scheme"
  shows "host (trim s) = host s" "errno (trim s) = errno s" "curbrk (trim s) = curbrk s"
    "initbrk (trim s) = initbrk s" "emuname (trim s) = emuname s" "fuzix_root (trim s) = fuzix_root s"
    "realfilename (trim s) = realfilename s" "whichrfn (trim s) = whichrfn s"
  by (simp_all add: trim_def)

lemma trim_upd [simp]:
  fixes s :: "('h, 'z) process_scheme"
  shows "(trim s)\<lparr>errno := e\<rparr> = trim (s\<lparr>errno := e\<rparr>)"
    "(trim s)\<lparr>host := h\<rparr> = trim (s\<lparr>host := h\<rparr>)"
    "(trim s)\<lparr>realfilename := b\<rparr> = trim (s\<lparr>realfilename := b\<rparr>)"
    "(trim s)\<lparr>whichrfn := w\<rparr> = trim (s\<lparr>whichrfn := w\<rparr>)"
    "(trim s)\<lparr>curbrk := c\<rparr> = trim (s\<lparr>curbrk := c\<rparr>)"
  by (simp_all add: trim_def)

lemma trim_upd_machine [simp]:
  "(trim s)\<lparr>ram := m\<rparr> = trim (s\<lparr>ram := m\<rparr>)" "(trim s)\<lparr>fefcval := f\<rparr> = trim (s\<lparr>fefcval := f\<rparr>)"
  "put_stderr x (trim s) = trim (put_stderr x s)" "put_stdout x (trim s) = trim (put_stdout x s)"
  by (simp_all add: trim_def put_stderr_def put_stdout_def)

lemma ucast_take_bit: "(ucast (take_bit 16 x :: u32) :: u16) = ucast x"
  by (intro bit_eqI) (simp add: bit_ucast_iff bit_take_bit_iff)

lemma trim_args [simp]:
  "get_sp (trim s) = get_sp s" "uiarg off (trim s) = uiarg off s" "siarg off (trim s) = siarg off s"
  "ularg off (trim s) = ularg off s" "getui a (trim s) = getui a s" "e6809_read8 b (trim s) = e6809_read8 b s"
proof -
  show sp: "get_sp (trim s) = get_sp s"
    by (simp add: get_sp_def e6809_get_regs_def trim_def ucast_take_bit)
  show r: "e6809_read8 b (trim s) = e6809_read8 b s" for b
    by (simp add: e6809_read8_def)
  show "uiarg off (trim s) = uiarg off s" "siarg off (trim s) = siarg off s"
    "ularg off (trim s) = ularg off s" "getui a (trim s) = getui a s"
    by (simp_all add: uiarg_def siarg_def ularg_def getui_def sp r)
qed

lemma cstr_at_trim [simp]: "cstr_at a (trim s) = cstr_at a s"
proof (induction a s rule: cstr_at.induct)
  case (1 a s)
  then show ?case by (subst (1 2) cstr_at.simps) simp
qed

lemma host_call_trim [simp]:
  "fst (host_call os c (trim s)) = fst (host_call os c s)"
  "snd (host_call os c (trim s)) = trim (snd (host_call os c s))"
  by (simp_all add: host_call_def split_beta Let_def split: option.split)

lemma blind_basic [simp]:
  "fail_with e (trim s) = trimmed (fail_with e s)"
  "call_result os c (trim s) = trimmed (call_result os c s)"
  by (simp_all add: fail_with_def call_result_def split_beta Let_def)

lemma blind_memory [simp]:
  "load_bytes a n (trim s) = trimmed (load_bytes a n s)"
  "store_bytes a bs (trim s) = trimmed (store_bytes a bs s)"
  "c_string b (trim s) = trimmed (c_string b s)"
  "e6809_write8 x v (trim s) = trimmed (e6809_write8 x v s)"
  by (simp_all add: load_bytes_def store_bytes_def c_string_def e6809_write8_def cong: if_cong split: option.split)

lemma blind_putui [simp]: "putui a v (trim s) = trimmed (putui a v s)"
  by (simp add: putui_def)

lemma blind_store_fields [simp]: "store_fields a fs (trim s) = trimmed (store_fields a fs s)"
proof (induction fs arbitrary: s)
  case (Cons f fs)
  then show ?case by (cases f) simp
qed simp

lemma blind_xlate [simp]: "xlate_filename p (trim s) = trimmed (xlate_filename p s)"
  by (auto simp: xlate_filename_def Let_def split: option.split)

lemma blind_deref [simp]: "deref p (trim s) = trimmed (deref p s)"
  by (simp add: deref_def split: cptr.split)

lemma blind_with_path:
  "(\<And>p s. f p (trim s) = trimmed (f p s)) \<Longrightarrow> with_path off f (trim s) = trimmed (with_path off f s)"
  by (simp add: with_path_def split: option.split)

lemma blind_calls [simp]:
  "int_call os nm offs (trim s) = trimmed (int_call os nm offs s)"
  "path_call os nm offs (trim s) = trimmed (path_call os nm offs s)"
  "path2_call os nm (trim s) = trimmed (path2_call os nm s)"
  by (simp_all add: int_call_def path_call_def path2_call_def Let_def blind_with_path)

lemma write_dirents_trim [simp]: "write_dirents os fd es (trim s) = trim (write_dirents os fd es s)"
  by (induction es arbitrary: s) simp_all

lemma make_dirent_file_trim [simp]:
  "fst (make_dirent_file os p (trim s)) = fst (make_dirent_file os p s)"
  "snd (make_dirent_file os p (trim s)) = trim (snd (make_dirent_file os p s))"
  by (simp_all add: make_dirent_file_def split_beta Let_def split: option.split)

lemma make_dirent_file_pair:
  "make_dirent_file os p (trim s) = (fst (make_dirent_file os p s), trim (snd (make_dirent_file os p s)))"
  by (simp add: prod_eq_iff)

lemma trimmed_Inr: "trimmed (Inr p) = Inr (fst p, trim (snd p))"
  by (cases p) simp

lemma blind_open [simp]: "sys_open os (trim s) = trimmed (sys_open os s)"
  unfolding sys_open_def split_beta Let_def
  by (rule blind_with_path) (simp add: make_dirent_file_pair trimmed_Inr cong: if_cong)

lemma blind_files [simp]:
  "sys_read os (trim s) = trimmed (sys_read os s)" "sys_write os (trim s) = trimmed (sys_write os s)"
  "sys_lseek os (trim s) = trimmed (sys_lseek os s)"
  by (simp_all add: sys_read_def sys_write_def sys_lseek_def split_beta Let_def split: option.split)

lemma blind_stat [simp]:
  "finish_stat os c u (trim s) = trimmed (finish_stat os c u s)"
  "sys_stat os (trim s) = trimmed (sys_stat os s)" "sys_fstat os (trim s) = trimmed (sys_fstat os s)"
proof -
  show *: "finish_stat os c u (trim s) = trimmed (finish_stat os c u s)" for c u s
    by (simp add: finish_stat_def copystat_def split_beta Let_def)
  show "sys_stat os (trim s) = trimmed (sys_stat os s)" "sys_fstat os (trim s) = trimmed (sys_fstat os s)"
    by (simp_all add: sys_stat_def sys_fstat_def * blind_with_path split: option.split)
qed

lemma blind_termios [simp]:
  "to_fuzix_termios f t (trim s) = trimmed (to_fuzix_termios f t s)"
  "from_fuzix_termios f t (trim s) = trimmed (from_fuzix_termios f t s)"
  by (simp_all add: to_fuzix_termios_def from_fuzix_termios_def)

lemma blind_terminal [simp]:
  "sys_tcget os (trim s) = trimmed (sys_tcget os s)" "sys_tcset os flags (trim s) = trimmed (sys_tcset os flags s)"
  "sys_winsize os (trim s) = trimmed (sys_winsize os s)"
  by (simp_all add: sys_tcget_def sys_tcset_def sys_winsize_def split_beta Let_def split: option.split)

lemma blind_switch:
  assumes "\<forall>(l, f) \<in> set tab. blind f" "blind d"
  shows "switch tab d k (trim s) = trimmed (switch tab d k s)"
  using switch_all [where P = blind, OF assms] by (rule blindD)

lemma blind_ioctl [simp]: "sys_ioctl os (trim s) = trimmed (sys_ioctl os s)"
  unfolding sys_ioctl_def Let_def trim_args
  by (rule blind_switch) (simp_all add: blind_def)

lemma blind_brk [simp]: "sys_brk (trim s) = trimmed (sys_brk s)" "sys_sbrk (trim s) = trimmed (sys_sbrk s)"
  by (simp_all add: sys_brk_def sys_sbrk_def Let_def)

lemma can_open_trim [simp]:
  "fst (can_open os p (trim s)) = fst (can_open os p s)"
  "snd (can_open os p (trim s)) = trim (snd (can_open os p s))"
  by (simp_all add: can_open_def split_beta Let_def)

lemma blind_collect [simp]:
  fixes s :: "'z machine_scheme"
  shows "collect_args i a (trim s) = trimmed (collect_args i a s)"
proof (induction "MAX_ARGS - i" arbitrary: i a s rule: less_induct)
  case less
  show ?case
  proof (cases "i < MAX_ARGS")
    case True
    have "collect_args (i + 1) b (trim u) = trimmed (collect_args (i + 1) b u)"
      for b and u :: "'z machine_scheme"
      by (rule less) (use True in simp)
    with True show ?thesis by (subst (1 2) collect_args.simps) simp
  qed (subst (1 2) collect_args.simps, simp)
qed

lemma blind_execve [simp]: "sys_execve os (trim s) = trimmed (sys_execve os s)"
  unfolding sys_execve_def split_beta Let_def
  by (rule blind_with_path) simp

lemma blind_others [simp]:
  "sys_time os (trim s) = trimmed (sys_time os s)" "sys_signal os (trim s) = trimmed (sys_signal os s)"
  "sys_kill os (trim s) = trimmed (sys_kill os s)" "sys_pause os (trim s) = trimmed (sys_pause os s)"
  "sys_pipe os (trim s) = trimmed (sys_pipe os s)" "sys_fcntl os (trim s) = trimmed (sys_fcntl os s)"
  "sys_waitpid os (trim s) = trimmed (sys_waitpid os s)"
  by (simp_all add: sys_time_def sys_signal_def sys_kill_def sys_pause_def sys_pipe_def sys_fcntl_def
      sys_waitpid_def split_beta Let_def split: option.split)

lemma blind_tables: "\<forall>(l, f) \<in> set (sys_files os @ sys_process os @ sys_rest os). blind f"
  by (simp add: sys_files_def sys_process_def sys_rest_def blind_def split_beta Let_def)

lemma blind_do_syscall: "blind (do_syscall os op)"
  unfolding blind_def do_syscall_def
  by (simp add: blind_switch [OF blind_tables] blind_def)

subsection \<open>A step of the emulator\<close>

text \<open>What a step relies on in the handler it is given: for one number it is blind.\<close>

lemma get_reg_d_fetch: "get_reg_d (snd (pc_read8 s)) = get_reg_d s"
  by (simp add: pc_read8_def get_reg_d_def)

locale blind_handler =
  fixes dosys :: "'z syscall"
  assumes same: "low_eq s t \<Longrightarrow> res_rel (=) (dosys d s) (dosys d t)"
begin

lemma swi: "low_eq s t \<Longrightarrow> get_reg_d s = get_reg_d t \<Longrightarrow> res_rel (=) (inst_swi dosys s) (inst_swi dosys t)"
  by (rule inst_swi_low [OF _ _ same])

lemma page0:
  assumes st: "low_eq s t" and d: "fst (pc_read8 s) = 0x3F \<Longrightarrow> get_reg_d s = get_reg_d t"
  shows "res_rel (=) (exec_page0 dosys s) (exec_page0 dosys t)"
proof (cases "fst (pc_read8 s) = 0x3F")
  case True
  then have 1: "fst (pc_read8 t) = 0x3F" using pc_read8_low(1) [OF st] by simp
  with d True have "get_reg_d (snd (pc_read8 s)) = get_reg_d (snd (pc_read8 t))" by (simp add: get_reg_d_fetch)
  with True 1 show ?thesis
    by (simp add: exec_page0_def split_beta Let_def opcode_tables swi pc_read8_low(2) [OF st])
next
  case False
  then show ?thesis by (rule exec_page0_low [OF st])
qed

end

interpretation do_syscall: blind_handler "do_syscall os" for os :: "'h os"
  by unfold_locales (rule blind_low [OF blind_do_syscall])

text \<open>
  The step stops in the monitor if there is a breakpoint at the program counter or
  the last step wrote to a watched address. Otherwise it takes the pending
  interrupts and fetches: \<open>fetches op\<close> says that it executes the opcode \<open>op\<close>.
\<close>

definition stops :: "'z machine_scheme \<Rightarrow> bool" where
  "stops s \<longleftrightarrow> write_brkpt s \<or> fst (check_brk (ucast (reg_pc s)) BRK_INST s)"

definition at_fetch :: "bool \<Rightarrow> bool \<Rightarrow> 'z body" where
  "at_fetch irq_i irq_f s =
     bindr (if irq_f then take_firq (snd (check_brk (ucast (reg_pc s)) BRK_INST (s\<lparr>cycles := 0\<rparr>)))
            else ok (snd (check_brk (ucast (reg_pc s)) BRK_INST (s\<lparr>cycles := 0\<rparr>)))) (\<lambda>_ s.
       if irq_i then take_irq s else ok s)"

definition fetches :: "u32 \<Rightarrow> bool \<Rightarrow> bool \<Rightarrow> 'z machine_scheme \<Rightarrow> bool" where
  "fetches op irq_i irq_f s = (case at_fetch irq_i irq_f s of
     Inl _ \<Rightarrow> False
   | Inr (_, u) \<Rightarrow> irq_status u = IRQ_NORMAL \<and> read8 (ucast (reg_pc u)) u = op)"

lemma step_from_fetch:
  "\<not> stops s \<Longrightarrow> e6809_sstep mon dosys irq_i irq_f s =
     bindr (at_fetch irq_i irq_f s) (\<lambda>_ s.
       if irq_status s \<noteq> IRQ_NORMAL then Inr (cycles s + 1, s)
       else bindr (log_before s) (\<lambda>_ s.
            bindr (exec_page0 dosys s) (\<lambda>_ s.
              let s = log_after s in Inr (ucast (reg_pc s), s))))"
  by (simp add: e6809_sstep_def enter_monitor_def at_fetch_def stops_def check_brk_def split_beta Let_def bindr_assoc)

text \<open>Taking an interrupt leaves A and B alone.\<close>

definition same_d :: "'z machine_scheme \<Rightarrow> 'z machine_scheme \<Rightarrow> bool" where
  "same_d s t \<longleftrightarrow> get_reg_d t = get_reg_d s"

lemma same_d_bind:
  "same_d s (final m) \<Longrightarrow> (\<And>x t. m = Inr (x, t) \<Longrightarrow> same_d t (final (g x t))) \<Longrightarrow> same_d s (final (bindr m g))"
  by (cases m) (auto simp: same_d_def)

lemma same_d_simps [simp]:
  "same_d s s" "same_d s (set_cc f v t) = same_d s t" "same_d s (add_cycles n t) = same_d s t"
  "same_d s (t\<lparr>reg_pc := pc\<rparr>) = same_d s t" "same_d s (t\<lparr>irq_status := i\<rparr>) = same_d s t"
  "same_d (set_cc f v s) t = same_d s t" "same_d s (set_xyus r w t) = same_d s t"
  "same_d s (snd (check_brk a ty t)) = same_d s t" "same_d s (t\<lparr>write_brkpt := b\<rparr>) = same_d s t"
  "same_d s (put_stdout o1 t) = same_d s t" "same_d s (put_stderr o1 t) = same_d s t"
  "same_d s (t\<lparr>ram := m\<rparr>) = same_d s t" "same_d s (t\<lparr>fefcval := fv\<rparr>) = same_d s t"
  "same_d s (t\<lparr>cycles := n\<rparr>) = same_d s t"
  by (cases r; simp add: same_d_def get_reg_d_def check_brk_def split_beta put_stdout_def put_stderr_def)+

lemma same_d_trans: "same_d s t \<Longrightarrow> same_d t u \<Longrightarrow> same_d s u"
  by (simp add: same_d_def)

lemma same_d_write8: "same_d s (final (write8 a d s))"
  unfolding write8_def Let_def split_beta
  by (rule same_d_bind) (simp_all add: e6809_write8_def)

lemma same_d_push8: "same_d s (final (push8 sp d s))"
  unfolding push8_def Let_def by (rule same_d_trans [OF _ same_d_write8]) simp

lemma same_d_psh: "same_d s (final (inst_psh op sp d s))"
proof -
  have if1: "(\<And>s. same_d s (final (f s))) \<Longrightarrow> same_d u (final (push_if b f n u))" for b n f and u :: "'a machine_scheme"
    by (auto simp: push_if_def intro!: same_d_bind)
  show ?thesis
    unfolding inst_psh_def push16_def by (intro same_d_bind if1 same_d_push8)
qed

lemma same_d_interrupts: "same_d s (final (take_irq s))" "same_d s (final (take_firq s))"
proof -
  have psh: "same_d s (final (inst_psh op sp d (set_cc f v s)))" for op sp d f v and s :: "'a machine_scheme"
    using same_d_psh [of "set_cc f v s"] by simp
  show "same_d s (final (take_irq s))" "same_d s (final (take_firq s))"
    unfolding take_irq_def take_firq_def Let_def by (auto intro!: same_d_bind simp: psh)
qed

lemma same_d_at_fetch: "same_d s (final (at_fetch irq_i irq_f s))"
proof -
  let ?s = "snd (check_brk (ucast (reg_pc s)) BRK_INST (s\<lparr>cycles := 0\<rparr>))"
  have "same_d s (final (take_firq ?s))"
    by (rule same_d_trans [OF _ same_d_interrupts(2)]) simp
  then show ?thesis
    unfolding at_fetch_def by (intro same_d_bind) (simp_all add: same_d_interrupts)
qed

lemma at_fetch_low:
  assumes st: "low_eq s t"
  shows "res_rel (=) (at_fetch irq_i irq_f s) (at_fetch irq_i irq_f t)"
proof -
  have c: "low_eq (s\<lparr>cycles := 0\<rparr>) (t\<lparr>cycles := 0\<rparr>)" using st by (simp add: low_eq_iff)
  have pc: "reg_pc s = reg_pc t" using st by (rule low_eq_field)
  show ?thesis
    unfolding at_fetch_def pc
    by (rule res_rel_bindr [where P = "(=)"]) (simp_all add: irq_low check_brk_low(2) [OF c])
qed

lemma res_rel_bindr_eq:
  "res_rel P m m' \<Longrightarrow>
   (\<And>x y s t. m = Inr (x, s) \<Longrightarrow> m' = Inr (y, t) \<Longrightarrow> low_eq s t \<Longrightarrow> res_rel Q (f x s) (g y t)) \<Longrightarrow>
   res_rel Q (bindr m f) (bindr m' g)"
  by (auto simp: res_rel_def bindr_def elim!: rel_sum.cases)

lemma log_before_same:
  assumes "log_before u = ok v"
  shows "fst (pc_read8 v) = fst (pc_read8 u)" "get_reg_d v = get_reg_d u"
proof -
  have "reg_pc v = reg_pc u \<and> ram v = ram u \<and> reg_a v = reg_a u \<and> reg_b v = reg_b u"
    using assms
    by (auto simp: log_before_def lookup_symbol_def put_log_def bindr_eq_Inr split: if_splits sum.splits)
  then show "fst (pc_read8 v) = fst (pc_read8 u)" "get_reg_d v = get_reg_d u"
    by (simp_all add: pc_read8_def read8_def e6809_read8_def get_reg_d_def)
qed

context blind_handler
begin

lemma step:
  assumes st: "low_eq s t" and go: "\<not> stops s"
    and swi: "fetches 0x3F irq_i irq_f s \<Longrightarrow> get_reg_d s = get_reg_d t"
  shows "res_rel (=) (e6809_sstep mon dosys irq_i irq_f s) (e6809_sstep mon dosys irq_i irq_f t)"
proof -
  have go': "\<not> stops t"
    using go check_brk_low(1) [OF st] by (simp add: stops_def low_eq_field(1,4) [OF st])
  have rest: "res_rel (=)
      (if irq_status u \<noteq> IRQ_NORMAL then Inr (cycles u + 1, u)
       else bindr (log_before u) (\<lambda>_ s. bindr (exec_page0 dosys s) (\<lambda>_ s.
              let s = log_after s in Inr (ucast (reg_pc s), s))))
      (if irq_status v \<noteq> IRQ_NORMAL then Inr (cycles v + 1, v)
       else bindr (log_before v) (\<lambda>_ s. bindr (exec_page0 dosys s) (\<lambda>_ s.
              let s = log_after s in Inr (ucast (reg_pc s), s))))"
    if u: "at_fetch irq_i irq_f s = ok u" and v: "at_fetch irq_i irq_f t = ok v" and uv: "low_eq u v" for u v
  proof (cases "irq_status u = IRQ_NORMAL")
    case True
    have d: "get_reg_d u = get_reg_d s" "get_reg_d v = get_reg_d t"
      using same_d_at_fetch [of s irq_i irq_f] same_d_at_fetch [of t irq_i irq_f] u v by (simp_all add: same_d_def)
    have op: "get_reg_d u = get_reg_d v" if "fst (pc_read8 u) = 0x3F"
      using swi u that True d by (simp add: fetches_def pc_read8_def)
    have "res_rel (=) (exec_page0 dosys u1) (exec_page0 dosys v1)"
      if "log_before u = ok u1" "log_before v = ok v1" "low_eq u1 v1" for u1 v1
      using page0 [OF that(3)] log_before_same [OF that(1)] log_before_same [OF that(2)] op by simp
    then show ?thesis
      using True low_eq_field(2) [OF uv]
      by (auto intro!: res_rel_bindr_eq [OF log_before_low [OF uv]] res_rel_bindr [where P = "(=)"]
          simp: Let_def low_eq_field(1) [OF log_after_low] log_after_low)
  next
    case False
    then show ?thesis using uv low_eq_field(2,3) [OF uv] by simp
  qed
  show ?thesis
    unfolding step_from_fetch [OF go] step_from_fetch [OF go']
    using at_fetch_low [OF st, of irq_i irq_f] rest
    by (cases "at_fetch irq_i irq_f s"; cases "at_fetch irq_i irq_f t") (auto simp: res_rel_def)
qed

end

text \<open>
  C1. The bits of the register variables above their width matter to one
  instruction only. A step of the emulator that does not stop in the monitor, with
  any interrupts, takes two machines that agree on the low bits of the registers
  and on everything else to machines that agree in the same way, with the same
  result and the same way of ending; if it executes SWI, which hands the
  variables behind A and B to the system call handler as they are, the two must
  agree on the number that is handed over.
\<close>

theorem upper_register_bits_matter_to_swi_only:
  assumes "low_eq s t" "\<not> stops s" "fetches 0x3F irq_i irq_f s \<Longrightarrow> get_reg_d s = get_reg_d t"
  shows "res_rel (=) (e6809_sstep (monitor (do_syscall os)) (do_syscall os) irq_i irq_f s)
    (e6809_sstep (monitor (do_syscall os)) (do_syscall os) irq_i irq_f t)"
  using assms by (rule do_syscall.step)

text \<open>
  The exception is real: a number above 79, which 0x100 in the variable behind A
  makes of every number, ends the run.
\<close>

lemma swi_sees_the_upper_bits:
  assumes "get_reg_d s > 79"
  shows "\<exists>t. inst_swi (do_syscall os) s = Inl (Exit 1, t)"
proof -
  have n: "k \<noteq> get_reg_d s" if "k \<le> 79" for k using assms that by auto
  show ?thesis
    by (simp add: inst_swi_def do_syscall_def sys_files_def sys_process_def sys_rest_def switch_append n)
qed

lemma upper_register_bits_matter_to_swi_only_witness:
  "let s = process_on [] ()\<lparr>ram := (\<lambda>_. 0x4C)\<rparr>; os = (\<lambda>c h. (undefined, h))
   in res_rel (=) (e6809_sstep (monitor (do_syscall os)) (do_syscall os) False False s)
     (e6809_sstep (monitor (do_syscall os)) (do_syscall os) False False (s\<lparr>reg_a := 0x100, reg_x := 0xABCD0000\<rparr>))"
  unfolding Let_def
proof (rule upper_register_bits_matter_to_swi_only)
  let ?s = "process_on [] ()\<lparr>ram := (\<lambda>_. 0x4C)\<rparr>"
  note d = process_on_def console_on_def power_on_def process.fields_def console.fields_def
    machine.extend_def console.extend_def
  show "low_eq ?s (?s\<lparr>reg_a := 0x100, reg_x := 0xABCD0000\<rparr>)"
    by (simp add: low_eq_iff d low_def take_bit_eq_mask mask_eq_exp_minus_1)
  show "\<not> stops ?s"
    by (simp add: stops_def check_brk_def is_breakpoint_def brk_initial_def d list_ex_iff)
  have "\<not> fetches 0x3F False False ?s"
    by (simp add: fetches_def at_fetch_def check_brk_def split_beta d read8_def e6809_read8_def)
  then show "get_reg_d ?s = get_reg_d (?s\<lparr>reg_a := 0x100, reg_x := 0xABCD0000\<rparr>)"
    if "fetches 0x3F False False ?s" using that by blast
qed

end
