(* ===== verification/AluSpec.thy ===== *)
theory AluSpec
  imports Alu
begin

text \<open>
  What the arithmetic helpers of \<open>emulators/e6809.c\<close> compute: the bit tricks of
  \<open>test_c\<close>, \<open>test_v\<close>, \<open>test_z8\<close> and their 16-bit uses are shown to be the
  carries, overflows and zero tests of 8-bit and 16-bit arithmetic, whatever the
  bits above the operands hold. The condition codes are an instance of a flag
  register, a locale whose laws say how writes to flags are read back.
\<close>

subsection \<open>Flag registers\<close>

text \<open>A register of named flags: a write is read back and disturbs no other flag.\<close>

locale flag_register =
  fixes flags :: "'f set"
    and vals :: "'v set"
    and get :: "'f \<Rightarrow> 's \<Rightarrow> 'v"
    and put :: "'f \<Rightarrow> 'v \<Rightarrow> 's \<Rightarrow> 's"
  assumes get_put:
    "f \<in> flags \<Longrightarrow> g \<in> flags \<Longrightarrow> v \<in> vals \<Longrightarrow> get f (put g v s) = (if f = g then v else get f s)"
begin

definition puts :: "('f \<times> 'v) list \<Rightarrow> 's \<Rightarrow> 's" where
  "puts us s = fold (\<lambda>(f, v). put f v) us s"

lemma puts_Nil: "puts [] s = s"
  by (simp add: puts_def)

lemma puts_Cons: "puts ((f, v) # us) s = puts us (put f v s)"
  by (simp add: puts_def)

lemma get_puts:
  assumes "f \<in> flags" "fst ` set us \<subseteq> flags" "snd ` set us \<subseteq> vals"
  shows "get f (puts us s) = (case map_of (rev us) f of Some v \<Rightarrow> v | None \<Rightarrow> get f s)"
  using assms(2,3)
proof (induction us arbitrary: s)
  case Nil
  then show ?case by (simp add: puts_Nil)
next
  case (Cons u us)
  obtain g v where u: "u = (g, v)" by (cases u)
  have "get f (puts us (put g v s)) =
      (case map_of (rev us) f of Some w \<Rightarrow> w | None \<Rightarrow> get f (put g v s))"
    using Cons.prems by (intro Cons.IH) auto
  then show ?case
    using Cons.prems assms(1) u
    by (auto simp: puts_Cons get_put map_add_def split: option.splits)
qed

lemma get_puts_other:
  assumes "f \<in> flags" "fst ` set us \<subseteq> flags" "snd ` set us \<subseteq> vals" "f \<notin> fst ` set us"
  shows "get f (puts us s) = get f s"
proof -
  have "map_of (rev us) f = None"
    using assms(4) by (simp add: map_of_eq_None_iff)
  then show ?thesis using get_puts [OF assms(1-3)] by simp
qed

end

definition cc_flags :: "u32 set" where
  "cc_flags = {FLAG_E, FLAG_F, FLAG_H, FLAG_I, FLAG_N, FLAG_Z, FLAG_V, FLAG_C}"

definition flag_bit :: "u32 \<Rightarrow> nat" where
  "flag_bit f = (if f = FLAG_E then 7 else if f = FLAG_F then 6 else if f = FLAG_H then 5
     else if f = FLAG_I then 4 else if f = FLAG_N then 3 else if f = FLAG_Z then 2
     else if f = FLAG_V then 1 else 0)"

subsection \<open>Bits of words and numbers\<close>


lemma odd_div_half: "0 \<le> k \<Longrightarrow> k < 2 * m \<Longrightarrow> odd (k div m) \<longleftrightarrow> m \<le> (k::int)"
  by (cases "m \<le> k") (simp_all add: div_pos_geq)
lemma uint_u8: "0 \<le> uint (x::u8)" "uint x < 256"
  using unsigned_less [of x, where 'a=int] by simp_all
lemma uint_u16: "0 \<le> uint (x::u16)" "uint x < 65536"
  using unsigned_less [of x, where 'a=int] by simp_all

lemma bit7_u8: "bit (x::u8) 7 \<longleftrightarrow> 128 \<le> uint x"
  using bit_uint_iff [of x 7] odd_div_half [of "uint x" 128] uint_u8 [of x] by (simp add: bit_iff_odd)
lemma bit15_u16: "bit (x::u16) 15 \<longleftrightarrow> 32768 \<le> uint x"
  using bit_uint_iff [of x 15] odd_div_half [of "uint x" 32768] uint_u16 [of x] by (simp add: bit_iff_odd)

lemma sint_u8: "sint (x::u8) = (if 128 \<le> uint x then uint x - 256 else uint x)"
  by (simp add: sint_uint signed_take_bit_eq_take_bit_minus bit_uint_iff bit7_u8 take_bit_int_eq_self_iff uint_u8)

lemma sint_u16: "sint (x::u16) = (if 32768 \<le> uint x then uint x - 65536 else uint x)"
  by (simp add: sint_uint signed_take_bit_eq_take_bit_minus bit_uint_iff bit15_u16 take_bit_int_eq_self_iff uint_u16)

lemma and1: "x AND 1 = of_bool (bit (x::u32) 0)"
  by (simp add: and_one_eq mod_2_eq_odd bit_0)

lemma test_n_eq: "test_n r = of_bool (bit r 7)"
  by (simp add: test_n_def and1 bit_drop_bit_eq)
lemma test_c_eq: "test_c i0 i1 r sub = of_bool ((bit i0 7 \<or> bit i1 7) \<and> \<not> bit r 7 \<or> bit i0 7 \<and> bit i1 7) XOR sub"
  by (simp add: test_c_def Let_def and1 bit_drop_bit_eq bit_and_iff bit_or_iff bit_not_iff_eq)
lemma test_v_eq: "test_v i0 i1 r = of_bool ((bit i0 7 \<longleftrightarrow> bit i1 7) \<and> (bit i0 7 \<noteq> bit r 7))"
  by (simp add: test_v_def Let_def and1 bit_drop_bit_eq bit_and_iff bit_xor_iff bit_not_iff_eq)

lemma and_of_bool: "x AND of_bool P = (of_bool (P \<and> bit (x::u32) 0))"
  by (simp add: and1)

lemma ucast8_zero: "(ucast (r::u32) :: u8) = 0 \<longleftrightarrow> (\<forall>i<8. \<not> bit r i)"
  using low_ucast8 [of r 0] by (simp add: low_iff_bits)
lemma ucast16_zero: "(ucast (r::u32) :: u16) = 0 \<longleftrightarrow> (\<forall>i<16. \<not> bit r i)"
  using low_ucast16 [of r 0] by (simp add: low_iff_bits)

lemma all_less_8: "(\<forall>i<8. P i) \<longleftrightarrow> P 0 \<and> P 1 \<and> P 2 \<and> P 3 \<and> P 4 \<and> P 5 \<and> P 6 \<and> P (7::nat)"
  by (simp add: numeral_eq_Suc All_less_Suc conj_ac)
lemma all_less_16: "(\<forall>i<16. P i) \<longleftrightarrow> (\<forall>i<8. P i) \<and> (\<forall>i<8. P (i + 8::nat))"
  by (auto simp: nat_add_left_cancel_less) (metis add.commute le_add_diff_inverse less_diff_conv2 not_less numeral_Bit0)

lemma suc3: "Suc (Suc (Suc 0)) = 3" by simp

lemma test_z8_eq: "test_z8 r = of_bool ((ucast r :: u8) = 0)"
  unfolding ucast8_zero all_less_8 test_z8_def Let_def
  by (simp add: and1 and_of_bool bit_drop_bit_eq bit_and_iff bit_not_iff_eq suc3)
lemma test_z16_eq: "test_z16 r = of_bool ((ucast r :: u16) = 0)"
  unfolding ucast16_zero all_less_16 all_less_8 test_z16_def Let_def
  by (simp add: and1 and_of_bool bit_drop_bit_eq bit_and_iff bit_not_iff_eq suc3)

lemma ucast8_add: "(ucast (x + y :: u32) :: u8) = ucast x + ucast y"
proof (transfer)
  fix x y :: int
  show "take_bit LENGTH(8) (take_bit LENGTH(32) (x + y)) = take_bit LENGTH(8) (take_bit LENGTH(32) x + take_bit LENGTH(32) y)"
    using take_bit_add [of 8 "take_bit 32 x" "take_bit 32 y"] take_bit_add [of 8 x y] by simp
qed
lemma ucast8_not: "(ucast (NOT x :: u32) :: u8) = NOT (ucast x)"
  by (rule bit_word_eqI) (simp add: bit_simps)
lemma ucast16_add: "(ucast (x + y :: u32) :: u16) = ucast x + ucast y"
proof (transfer)
  fix x y :: int
  show "take_bit LENGTH(16) (take_bit LENGTH(32) (x + y)) = take_bit LENGTH(16) (take_bit LENGTH(32) x + take_bit LENGTH(32) y)"
    using take_bit_add [of 16 "take_bit 32 x" "take_bit 32 y"] take_bit_add [of 16 x y] by simp
qed
lemma ucast16_not: "(ucast (NOT x :: u32) :: u16) = NOT (ucast x)"
  by (rule bit_word_eqI) (simp add: bit_simps)

lemma uint_not8: "uint (NOT x :: u8) = 255 - uint x"
  by (transfer) (simp add: take_bit_not_eq_mask_diff mask_eq_exp_minus_1)
lemma uint_add8: "uint (x + y :: u8) = (uint x + uint y) mod 256"
  by (simp add: uint_word_ariths)

lemma carry_out:
  fixes A B c m :: int
  assumes "0 \<le> A" "A < 2 * m" "0 \<le> B" "B < 2 * m" "0 \<le> c" "c \<le> 1"
    and "R = (A + B + c) mod (2 * m)"
  shows "((m \<le> A \<or> m \<le> B) \<and> \<not> m \<le> R \<or> m \<le> A \<and> m \<le> B) \<longleftrightarrow> 2 * m \<le> A + B + c"
    and "((m \<le> A \<longleftrightarrow> m \<le> B) \<and> ((m \<le> A) \<noteq> (m \<le> R))) \<longleftrightarrow>
      (let v = (if m \<le> A then A - 2 * m else A) + (if m \<le> B then B - 2 * m else B) + c
       in v < - m \<or> m \<le> v)"
proof -
  have R: "R = A + B + c \<and> A + B + c < 2 * m \<or> R = A + B + c - 2 * m \<and> 2 * m \<le> A + B + c"
  proof (cases "A + B + c < 2 * m")
    case True then show ?thesis using assms by simp
  next
    case False
    then have "(A + B + c - 2 * m) mod (2 * m) = A + B + c - 2 * m" using assms by (intro mod_pos_pos_trivial) auto
    then show ?thesis using False assms by simp
  qed
  show "((m \<le> A \<or> m \<le> B) \<and> \<not> m \<le> R \<or> m \<le> A \<and> m \<le> B) \<longleftrightarrow> 2 * m \<le> A + B + c"
    using R assms(1-6) by linarith
  show "((m \<le> A \<longleftrightarrow> m \<le> B) \<and> ((m \<le> A) \<noteq> (m \<le> R))) \<longleftrightarrow>
      (let v = (if m \<le> A then A - 2 * m else A) + (if m \<le> B then B - 2 * m else B) + c
       in v < - m \<or> m \<le> v)"
    using R assms(1-6) by (auto simp: Let_def)
qed

lemma flag_bit_flag: "f \<in> cc_flags \<Longrightarrow> f = push_bit (flag_bit f) 1"
  by (auto simp: cc_flags_def flag_bit_def)

lemma flag_bit_inj: "f \<in> cc_flags \<Longrightarrow> g \<in> cc_flags \<Longrightarrow> flag_bit f = flag_bit g \<longleftrightarrow> f = g"
  by (metis flag_bit_flag)

lemma flag_bit_less: "flag_bit f < 8"
  by (simp add: flag_bit_def)

lemma div_push_bit_1: "x div push_bit n (1::u32) = drop_bit n x"
  by (simp add: drop_bit_eq_div push_bit_eq_mult)

lemma get_cc_bit:
  assumes "f \<in> cc_flags"
  shows "get_cc f s = of_bool (bit (reg_cc s) (flag_bit f))"
proof -
  have "get_cc f s = (reg_cc s div push_bit (flag_bit f) 1) AND 1"
    unfolding get_cc_def using flag_bit_flag [OF assms] by presburger
  then show ?thesis
    by (simp only: div_push_bit_1 and1 bit_drop_bit_eq o_apply add_0_right)
qed

lemma bit_push_bit_1: "bit (push_bit n (1::u32)) i \<longleftrightarrow> i = n \<and> i < 32"
  by (auto simp: bit_exp_iff push_bit_of_1)

lemma bit_set_cc:
  assumes "g \<in> cc_flags"
  shows "bit (reg_cc (set_cc g (of_bool b) s)) i \<longleftrightarrow>
    (if i = flag_bit g then b else bit (reg_cc s) i)"
proof -
  have len: "bit (x::u32) i \<Longrightarrow> i < 32" for x
    using bit_imp_le_length [of x i] by simp
  have g: "bit g i \<longleftrightarrow> i = flag_bit g"
    using flag_bit_flag [OF assms] bit_push_bit_1 [of "flag_bit g" i] flag_bit_less [of g] by force
  show ?thesis
    by (cases b) (auto simp: set_cc_def bit_or_iff bit_and_iff bit_not_iff_eq g dest: len)
qed

interpretation cc: flag_register cc_flags "{0, 1}" get_cc set_cc
proof
  fix f g v :: u32 and s :: "'a machine_scheme"
  assume f: "f \<in> cc_flags" and g: "g \<in> cc_flags" and "v \<in> {0, 1}"
  then obtain b where v: "v = of_bool b" by (metis insert_iff empty_iff of_bool_eq)
  show "get_cc f (set_cc g v s) = (if f = g then v else get_cc f s)"
    by (simp add: v get_cc_bit f bit_set_cc g flag_bit_inj)
qed

text \<open>The condition codes after an operation, as a list of flags and truth values.\<close>

definition set_flags :: "(u32 \<times> bool) list \<Rightarrow> 'z machine_scheme \<Rightarrow> 'z machine_scheme" where
  "set_flags us s = fold (\<lambda>(f, b). set_cc f (of_bool b)) us s"

lemma set_flags_Nil: "set_flags [] s = s"
  by (simp add: set_flags_def)

lemma set_flags_Cons: "set_flags ((f, b) # us) s = set_flags us (set_cc f (of_bool b) s)"
  by (simp add: set_flags_def)

lemma half_carry_push: "bit (push_bit 4 (x::u32)) 7 \<longleftrightarrow> bit x 3"
  by (simp add: bit_push_bit_iff)

lemma bit_ucast8: "i < 8 \<Longrightarrow> bit (x::u32) i \<longleftrightarrow> bit (ucast x :: u8) i"
  by (simp add: bit_ucast_iff)

lemma bit_ucast16: "i < 16 \<Longrightarrow> bit (x::u32) i \<longleftrightarrow> bit (ucast x :: u16) i"
  by (simp add: bit_ucast_iff)

lemma bit3_u8: "bit (x::u8) 3 \<longleftrightarrow> 8 \<le> uint x mod 16"
proof -
  have "bit x 3 \<longleftrightarrow> bit (take_bit 4 (uint x)) 3"
    by (simp add: bit_take_bit_iff bit_uint_iff)
  also have "\<dots> \<longleftrightarrow> odd (uint x mod 16 div 8)"
    by (simp add: bit_iff_odd take_bit_eq_mod)
  finally show ?thesis
    using odd_div_half [of "uint x mod 16" 8] by simp
qed

lemma mod_256_16: "n mod (2 * 128) mod (2 * 8) = n mod (16::int)"
  by (simp add: mod_mod_cancel)

lemma mod_add_16: "(a mod 16 + b mod 16 + c) mod (2 * 8) = (a + b + c) mod (16::int)"
  using mod_add_cong [of "a mod 16 + b mod 16" 16 "a + b" c c] by (simp add: mod_add_eq)

text \<open>The carry, half carry and overflow of an 8-bit sum with carry in.\<close>

lemma test_c_sum8:
  fixes c :: u32
  assumes "c = of_bool k"
  shows "test_c i0 i1 (i0 + i1 + c) 0 =
      of_bool (256 \<le> uint (ucast i0 :: u8) + uint (ucast i1 :: u8) + of_bool k)"
    and "test_c i0 i1 (i0 + i1 + c) 1 =
      of_bool (uint (ucast i0 :: u8) + uint (ucast i1 :: u8) + of_bool k < 256)"
    and "test_v i0 i1 (i0 + i1 + c) =
      of_bool (sint (ucast i0 :: u8) + sint (ucast i1 :: u8) + of_bool k \<notin> {-128..<128})"
    and "test_c (push_bit 4 i0) (push_bit 4 i1) (push_bit 4 (i0 + i1 + c)) 0 =
      of_bool (16 \<le> uint (ucast i0 :: u8) mod 16 + uint (ucast i1 :: u8) mod 16 + of_bool k)"
proof -
  define A where "A = uint (ucast i0 :: u8)"
  define B where "B = uint (ucast i1 :: u8)"
  define R where "R = uint (ucast (i0 + i1 + c) :: u8)"
  have A: "0 \<le> A" "A < 2 * 128" and B: "0 \<le> B" "B < 2 * 128"
    using uint_u8 by (auto simp: A_def B_def)
  have k: "0 \<le> (of_bool k :: int)" "of_bool k \<le> (1::int)" by auto
  have R: "R = (A + B + of_bool k) mod (2 * 128)"
    by (simp add: R_def A_def B_def ucast8_add assms uint_add8 mod_simps)
  have R16: "R mod (2 * 8) = (A mod 16 + B mod 16 + of_bool k) mod (2 * 8)"
    by (simp only: R mod_add_16 mod_256_16)
  have bits: "bit i0 7 \<longleftrightarrow> 128 \<le> A" "bit i1 7 \<longleftrightarrow> 128 \<le> B" "bit (i0 + i1 + c) 7 \<longleftrightarrow> 128 \<le> R"
    by (simp_all add: bit_ucast8 bit7_u8 A_def B_def R_def)
  have nibs: "bit i0 3 \<longleftrightarrow> 8 \<le> A mod 16" "bit i1 3 \<longleftrightarrow> 8 \<le> B mod 16"
      "bit (i0 + i1 + c) 3 \<longleftrightarrow> 8 \<le> R mod (2 * 8)"
    by (simp_all add: bit_ucast8 bit3_u8 A_def B_def R_def)
  note carry = carry_out [OF A B k R]
  note half = carry_out(1) [of "A mod 16" 8 "B mod 16" "of_bool k", OF _ _ _ _ k R16]
  show "test_c i0 i1 (i0 + i1 + c) 0 =
      of_bool (256 \<le> uint (ucast i0 :: u8) + uint (ucast i1 :: u8) + of_bool k)"
    and "test_c i0 i1 (i0 + i1 + c) 1 =
      of_bool (uint (ucast i0 :: u8) + uint (ucast i1 :: u8) + of_bool k < 256)"
    using carry(1) by (auto simp: test_c_eq bits A_def [symmetric] B_def [symmetric])
  show "test_v i0 i1 (i0 + i1 + c) =
      of_bool (sint (ucast i0 :: u8) + sint (ucast i1 :: u8) + of_bool k \<notin> {-128..<128})"
    using carry(2) by (auto simp: test_v_eq bits sint_u8 A_def [symmetric] B_def [symmetric] Let_def)
  show "test_c (push_bit 4 i0) (push_bit 4 i1) (push_bit 4 (i0 + i1 + c)) 0 =
      of_bool (16 \<le> uint (ucast i0 :: u8) mod 16 + uint (ucast i1 :: u8) mod 16 + of_bool k)"
    using half by (simp add: test_c_eq half_carry_push nibs A_def [symmetric] B_def [symmetric])
qed

text \<open>The carry and overflow of a 16-bit sum with carry in.\<close>

lemma uint_add16: "uint (x + y :: u16) = (uint x + uint y) mod 65536"
  by (simp add: uint_word_ariths)

lemma test_c_sum16:
  fixes c :: u32
  assumes "c = of_bool k"
  shows "test_c (drop_bit 8 i0) (drop_bit 8 i1) (drop_bit 8 (i0 + i1 + c)) 0 =
      of_bool (65536 \<le> uint (ucast i0 :: u16) + uint (ucast i1 :: u16) + of_bool k)"
    and "test_c (drop_bit 8 i0) (drop_bit 8 i1) (drop_bit 8 (i0 + i1 + c)) 1 =
      of_bool (uint (ucast i0 :: u16) + uint (ucast i1 :: u16) + of_bool k < 65536)"
    and "test_v (drop_bit 8 i0) (drop_bit 8 i1) (drop_bit 8 (i0 + i1 + c)) =
      of_bool (sint (ucast i0 :: u16) + sint (ucast i1 :: u16) + of_bool k \<notin> {-32768..<32768})"
proof -
  define A where "A = uint (ucast i0 :: u16)"
  define B where "B = uint (ucast i1 :: u16)"
  define R where "R = uint (ucast (i0 + i1 + c) :: u16)"
  have A: "0 \<le> A" "A < 2 * 32768" and B: "0 \<le> B" "B < 2 * 32768"
    using uint_u16 by (auto simp: A_def B_def)
  have k: "0 \<le> (of_bool k :: int)" "of_bool k \<le> (1::int)" by auto
  have R: "R = (A + B + of_bool k) mod (2 * 32768)"
    by (simp add: R_def A_def B_def ucast16_add assms uint_add16 mod_simps)
  have bits: "bit i0 15 \<longleftrightarrow> 32768 \<le> A" "bit i1 15 \<longleftrightarrow> 32768 \<le> B"
      "bit (i0 + i1 + c) 15 \<longleftrightarrow> 32768 \<le> R"
    by (simp_all add: bit_ucast16 bit15_u16 A_def B_def R_def)
  note carry = carry_out [OF A B k R]
  show "test_c (drop_bit 8 i0) (drop_bit 8 i1) (drop_bit 8 (i0 + i1 + c)) 0 =
      of_bool (65536 \<le> uint (ucast i0 :: u16) + uint (ucast i1 :: u16) + of_bool k)"
    and "test_c (drop_bit 8 i0) (drop_bit 8 i1) (drop_bit 8 (i0 + i1 + c)) 1 =
      of_bool (uint (ucast i0 :: u16) + uint (ucast i1 :: u16) + of_bool k < 65536)"
    using carry(1) by (auto simp: test_c_eq bit_drop_bit_eq bits A_def [symmetric] B_def [symmetric])
  show "test_v (drop_bit 8 i0) (drop_bit 8 i1) (drop_bit 8 (i0 + i1 + c)) =
      of_bool (sint (ucast i0 :: u16) + sint (ucast i1 :: u16) + of_bool k \<notin> {-32768..<32768})"
    using carry(2)
    by (auto simp: test_v_eq bit_drop_bit_eq bits sint_u16 A_def [symmetric] B_def [symmetric] Let_def)
qed

text \<open>The sign of a result.\<close>

lemma test_n_u8: "test_n r = of_bool (sint (ucast r :: u8) < 0)"
  using uint_u8 [of "ucast r :: u8"] by (auto simp: test_n_eq bit_ucast8 bit7_u8 sint_u8)

lemma test_n_u16: "test_n (drop_bit 8 r) = of_bool (sint (ucast r :: u16) < 0)"
  using uint_u16 [of "ucast r :: u16"]
  by (auto simp: test_n_eq bit_drop_bit_eq bit_ucast16 bit15_u16 sint_u16)

text \<open>Complements, which turn sums into differences.\<close>

lemma sint_not8: "sint (NOT x :: u8) = - 1 - sint x"
  by (simp add: sint_u8 uint_not8)

lemma uint_not16: "uint (NOT x :: u16) = 65535 - uint x"
  by transfer (simp add: take_bit_not_eq_mask_diff mask_eq_exp_minus_1)

lemma sint_not16: "sint (NOT x :: u16) = - 1 - sint x"
  by (simp add: sint_u16 uint_not16)

subsection \<open>Specifications\<close>

text \<open>
  The flags that an addition with carry and a subtraction with borrow leave.
  The half carry of a subtraction is the carry of the complemented sum, set when
  the low digit needs no borrow.
\<close>

definition add8_flags :: "u8 \<Rightarrow> u8 \<Rightarrow> bool \<Rightarrow> (u32 \<times> bool) list" where
  "add8_flags a b c =
     (let r = a + b + of_bool c in
      [(FLAG_H, uint a mod 16 + uint b mod 16 + of_bool c \<ge> 16),
       (FLAG_N, sint r < 0), (FLAG_Z, r = 0),
       (FLAG_V, sint a + sint b + of_bool c \<notin> {-128..<128}),
       (FLAG_C, uint a + uint b + of_bool c \<ge> 256)])"

definition sub8_flags :: "u8 \<Rightarrow> u8 \<Rightarrow> bool \<Rightarrow> (u32 \<times> bool) list" where
  "sub8_flags a b c =
     (let r = a - b - of_bool c in
      [(FLAG_H, uint b mod 16 + of_bool c \<le> uint a mod 16),
       (FLAG_N, sint r < 0), (FLAG_Z, r = 0),
       (FLAG_V, sint a - sint b - of_bool c \<notin> {-128..<128}),
       (FLAG_C, uint a < uint b + of_bool c)])"

definition add16_flags :: "u16 \<Rightarrow> u16 \<Rightarrow> (u32 \<times> bool) list" where
  "add16_flags a b =
     [(FLAG_N, sint (a + b) < 0), (FLAG_Z, a + b = 0),
      (FLAG_V, sint a + sint b \<notin> {-32768..<32768}), (FLAG_C, uint a + uint b \<ge> 65536)]"

definition sub16_flags :: "u16 \<Rightarrow> u16 \<Rightarrow> (u32 \<times> bool) list" where
  "sub16_flags a b =
     [(FLAG_N, sint (a - b) < 0), (FLAG_Z, a - b = 0),
      (FLAG_V, sint a - sint b \<notin> {-32768..<32768}), (FLAG_C, uint a < uint b)]"

definition logic_flags :: "u8 \<Rightarrow> (u32 \<times> bool) list" where
  "logic_flags r = [(FLAG_N, sint r < 0), (FLAG_Z, r = 0), (FLAG_V, False)]"

lemma ucast8_bool: "(ucast (of_bool k :: u32) :: u8) = of_bool k"
  by simp

lemma ucast8_diff: "(ucast (x - y :: u32) :: u8) = ucast x - ucast y"
  using ucast8_add [of "x - y" y] by (simp add: algebra_simps)

lemma ucast8_uminus: "(ucast (- x :: u32) :: u8) = - ucast x"
  using ucast8_diff [of 0 x] by simp

lemma ucast16_diff: "(ucast (x - y :: u32) :: u16) = ucast x - ucast y"
  using ucast16_add [of "x - y" y] by (simp add: algebra_simps)

lemma sum_of_complement: "x + NOT y + of_bool (\<not> k) = x - y - (of_bool k :: 'n::len word)"
  by (cases k) (simp_all add: not_eq_complement)

lemma carry_bool: "get_cc FLAG_C s = of_bool (get_cc FLAG_C s = 1)"
  by (simp add: get_cc_bit cc_flags_def)

lemma adc_flags:
  "snd (inst_adc x y s) = set_flags (add8_flags (ucast x) (ucast y) (get_cc FLAG_C s = 1)) s"
proof -
  note sums = test_c_sum8 [of "get_cc FLAG_C s" "get_cc FLAG_C s = 1" x y, OF carry_bool]
  have r: "(ucast (x + y + get_cc FLAG_C s) :: u8) = ucast x + ucast y + of_bool (get_cc FLAG_C s = 1)"
    using carry_bool [of s] by (metis ucast8_add ucast8_bool)
  show ?thesis
    by (simp add: inst_adc_def Let_def sums r test_n_u8 test_z8_eq set_flags_Cons set_flags_Nil
        add8_flags_def not_le)
qed

lemma borrow_bool: "1 - get_cc FLAG_C s = of_bool (\<not> get_cc FLAG_C s = 1)"
  by (simp add: get_cc_bit cc_flags_def)

text \<open>Differences are sums with the complement and a carry in.\<close>

lemma test_c_diff8:
  "test_c (push_bit 4 x) (push_bit 4 (NOT y)) (push_bit 4 (x + NOT y + of_bool (\<not> k))) 0 =
      of_bool (uint (ucast y :: u8) mod 16 + of_bool k \<le> uint (ucast x :: u8) mod 16)"
  "test_c x (NOT y) (x + NOT y + of_bool (\<not> k)) 1 =
      of_bool (uint (ucast x :: u8) < uint (ucast y :: u8) + of_bool k)"
  "test_v x (NOT y) (x + NOT y + of_bool (\<not> k)) =
      of_bool (sint (ucast x :: u8) - sint (ucast y :: u8) - of_bool k \<notin> {-128..<128})"
proof -
  note sums = test_c_sum8 [of "of_bool (\<not> k)" "\<not> k" x "NOT y", OF refl]
  have mod: "(255 - n) mod 16 = 15 - n mod (16::int)" for n
  proof -
    have "255 - n = (15 - n mod 16) + (15 - n div 16) * 16"
      using div_mult_mod_eq [of n 16] unfolding left_diff_distrib by linarith
    then have "(255 - n) mod 16 = (15 - n mod 16) mod 16" by (metis mod_mult_self1)
    then show ?thesis by (simp add: mod_pos_pos_trivial)
  qed
  show "test_c (push_bit 4 x) (push_bit 4 (NOT y)) (push_bit 4 (x + NOT y + of_bool (\<not> k))) 0 =
      of_bool (uint (ucast y :: u8) mod 16 + of_bool k \<le> uint (ucast x :: u8) mod 16)"
    unfolding sums by (cases k) (auto simp: ucast8_not uint_not8 mod)
  show "test_c x (NOT y) (x + NOT y + of_bool (\<not> k)) 1 =
      of_bool (uint (ucast x :: u8) < uint (ucast y :: u8) + of_bool k)"
    unfolding sums by (cases k) (auto simp: ucast8_not uint_not8)
  show "test_v x (NOT y) (x + NOT y + of_bool (\<not> k)) =
      of_bool (sint (ucast x :: u8) - sint (ucast y :: u8) - of_bool k \<notin> {-128..<128})"
    unfolding sums by (cases k) (auto simp: ucast8_not sint_not8 Let_def)
qed

lemma test_c_diff16:
  "test_c (drop_bit 8 x) (drop_bit 8 (NOT y)) (drop_bit 8 (x + NOT y + 1)) 1 =
      of_bool (uint (ucast x :: u16) < uint (ucast y :: u16))"
  "test_v (drop_bit 8 x) (drop_bit 8 (NOT y)) (drop_bit 8 (x + NOT y + 1)) =
      of_bool (sint (ucast x :: u16) - sint (ucast y :: u16) \<notin> {-32768..<32768})"
proof -
  note sums = test_c_sum16 [of 1 True x "NOT y", simplified of_bool_eq, OF refl]
  show "test_c (drop_bit 8 x) (drop_bit 8 (NOT y)) (drop_bit 8 (x + NOT y + 1)) 1 =
      of_bool (uint (ucast x :: u16) < uint (ucast y :: u16))"
    unfolding sums by (auto simp: ucast16_not uint_not16)
  show "test_v (drop_bit 8 x) (drop_bit 8 (NOT y)) (drop_bit 8 (x + NOT y + 1)) =
      of_bool (sint (ucast x :: u16) - sint (ucast y :: u16) \<notin> {-32768..<32768})"
    unfolding sums by (auto simp: ucast16_not sint_not16 Let_def)
qed

lemmas flags_eqs8 = test_n_u8 test_z8_eq sum_of_complement ucast8_add ucast8_diff ucast8_bool

lemmas flags_eqs16 = test_n_u16 test_z16_eq sum_of_complement ucast16_add ucast16_diff

lemmas flags_sets = snd_conv set_flags_Cons set_flags_Nil Let_def

lemmas test_c_diff8_0 = test_c_diff8 [where k = False, unfolded not_False_eq_True of_bool_eq add_0_right diff_zero]

lemmas sum_of_complement_0 =
  sum_of_complement [where k = False, unfolded not_False_eq_True of_bool_eq diff_zero]

lemma sbc_flags:
  "snd (inst_sbc x y s) = set_flags (sub8_flags (ucast x) (ucast y) (get_cc FLAG_C s = 1)) s"
  unfolding inst_sbc_def Let_def borrow_bool test_c_diff8 unfolding flags_eqs8
  by (simp only: sub8_flags_def flags_sets)

lemma sub_flags:
  "snd (inst_sub8 x y s) = set_flags (sub8_flags (ucast x) (ucast y) False) s"
  unfolding inst_sub8_def Let_def test_c_diff8_0 unfolding flags_eqs8 sum_of_complement_0
  by (simp only: sub8_flags_def flags_sets of_bool_eq diff_zero add_0_right)

lemma add_flags:
  "snd (inst_add8 x y s) = set_flags (add8_flags (ucast x) (ucast y) False) s"
  using test_c_sum8 [of 0 False x y]
  by (simp add: inst_add8_def flags_eqs8 add8_flags_def flags_sets not_le)

lemma addw_flags:
  "snd (inst_add16 x y s) = set_flags (add16_flags (ucast x) (ucast y)) s"
  using test_c_sum16 [of 0 False x y]
  by (simp add: inst_add16_def flags_eqs16 add16_flags_def flags_sets not_le)

lemma subw_flags:
  "snd (inst_sub16 x y s) = set_flags (sub16_flags (ucast x) (ucast y)) s"
  unfolding inst_sub16_def Let_def test_c_diff16 unfolding flags_eqs16 sum_of_complement_0
  by (simp only: sub16_flags_def flags_sets)

subsection \<open>Logic, shifts and single operands\<close>

lemma tst8_flags: "inst_tst8 x s = set_flags (logic_flags (ucast x)) s"
  by (simp add: inst_tst8_def flags_eqs8 logic_flags_def flags_sets)

lemma tst16_flags:
  "inst_tst16 x s =
   set_flags [(FLAG_N, sint (ucast x :: u16) < 0), (FLAG_Z, (ucast x :: u16) = 0), (FLAG_V, False)] s"
  by (simp add: inst_tst16_def flags_eqs16 flags_sets)

lemma ucast8_and: "(ucast (x AND y :: u32) :: u8) = ucast x AND ucast y"
  by (rule bit_word_eqI) (simp add: bit_simps)

lemma ucast8_or: "(ucast (x OR y :: u32) :: u8) = ucast x OR ucast y"
  by (rule bit_word_eqI) (simp add: bit_simps)

lemma ucast8_xor: "(ucast (x XOR y :: u32) :: u8) = ucast x XOR ucast y"
  by (rule bit_word_eqI) (simp add: bit_simps)

text \<open>A right shift by one that a top bit enters: \<open>lsr\<close>, \<open>asr\<close> and \<open>ror\<close>.\<close>

lemma bit_mask7: "bit (0x7F::u32) i \<longleftrightarrow> i < 7"
  using bit_mask_iff [of 7 i, where 'a=u32] by (auto simp: mask_eq_exp_minus_1)

lemma bit_of_bool_0: "bit (of_bool t :: 'n::len word) 0 = t"
  by (cases t) simp_all

lemma shift_right8:
  "(ucast ((drop_bit 1 x AND 0x7F) OR push_bit 7 (of_bool t) :: u32) :: u8) =
   drop_bit 1 (ucast x) OR push_bit 7 (of_bool t)"
  by (rule bit_word_eqI)
    (auto simp only: bit_ucast_iff bit_or_iff bit_and_iff bit_mask7 bit_drop_bit_eq bit_push_bit_iff
      bit_of_bool_0; simp add: bit_of_bool_0 bit_ucast_iff)

lemma uint_shift_right8:
  "uint (drop_bit 1 a OR push_bit 7 (of_bool t) :: u8) = uint a div 2 + (if t then 128 else 0)"
proof -
  have "\<not> bit (uint a div 2) 7"
    using uint_u8 [of a] odd_div_half [of "uint a div 2" 128] by (simp add: bit_iff_odd)
  then have "uint a div 2 AND 2 ^ 7 = 0"
    by (simp only: and_exp_eq_0_iff_not_bit not_False_eq_True)
  then have "uint a div 2 OR 128 = uint a div 2 + 128"
    using disjunctive_add_eq_or [of "uint a div 2" 128] by simp
  then show ?thesis
    by (cases t) (simp_all add: unsigned_or_eq drop_bit_eq_div uint_div)
qed

lemma odd_low: "bit (x::u32) 0 \<longleftrightarrow> odd (uint (ucast x :: u8))"
proof -
  have "bit (uint (ucast x :: u8)) 0 \<longleftrightarrow> bit x 0"
    by (simp add: bit_uint_iff bit_ucast_iff del: bit_0)
  then show ?thesis by (simp add: bit_0)
qed

text \<open>
  Shifts and rotations of a byte as arithmetic: C takes the bit shifted out, and
  \<open>ror\<close> and \<open>rol\<close> shift the old C in.
\<close>

definition shift_flags :: "u8 \<Rightarrow> bool \<Rightarrow> (u32 \<times> bool) list" where
  "shift_flags r c = [(FLAG_N, sint r < 0), (FLAG_Z, r = 0), (FLAG_C, c)]"

lemma shift_right_top:
  fixes x :: u32 and t :: bool
  defines "r \<equiv> (drop_bit 1 x AND 0x7F) OR push_bit 7 (of_bool t)"
  shows "uint (ucast r :: u8) = uint (ucast x :: u8) div 2 + (if t then 128 else 0)"
  by (simp only: r_def shift_right8 uint_shift_right8)

lemma lsr_result:
  "uint (ucast (fst (inst_lsr x s)) :: u8) = uint (ucast x :: u8) div 2"
  using shift_right_top [of x False] by (simp add: inst_lsr_def Let_def)

lemma ror_result:
  "uint (ucast (fst (inst_ror x s)) :: u8) =
   uint (ucast x :: u8) div 2 + (if get_cc FLAG_C s = 1 then 128 else 0)"
  using shift_right_top [of x "get_cc FLAG_C s = 1"] by (simp add: inst_ror_def Let_def flip: carry_bool)

lemma and_0x80: "x AND 0x80 = push_bit 7 (of_bool (bit (x::u32) 7))"
proof (rule bit_word_eqI)
  fix n :: nat
  assume n: "n < LENGTH(32)"
  have "bit (0x80::u32) n \<longleftrightarrow> n = 7"
    using bit_push_bit_1 [of 7 n] n by simp
  then show "bit (x AND 0x80) n = bit (push_bit 7 (of_bool (bit x 7) :: u32)) n"
    by (cases "bit x 7") (auto simp: bit_and_iff)
qed

lemma asr_result: "sint (ucast (fst (inst_asr x s)) :: u8) = sint (ucast x :: u8) div 2"
proof -
  define a where "a = uint (ucast x :: u8)"
  have a: "0 \<le> a" "a < 256" using uint_u8 by (simp_all add: a_def)
  have "bit x 7 \<longleftrightarrow> 128 \<le> a" by (simp add: bit_ucast8 bit7_u8 a_def)
  then have "uint (ucast (fst (inst_asr x s)) :: u8) = a div 2 + (if 128 \<le> a then 128 else 0)"
    using shift_right_top [of x "bit x 7"] by (simp add: inst_asr_def Let_def and_0x80 a_def)
  then show ?thesis
    using a by (auto simp: sint_u8 a_def [symmetric])
qed

lemma lsr_flags: "snd (inst_lsr x s) = set_flags (shift_flags (ucast (fst (inst_lsr x s))) (odd (uint (ucast x :: u8)))) s"
proof -
  have "\<not> sint (ucast (fst (inst_lsr x s)) :: u8) < 0"
    using lsr_result [of x s] uint_u8 [of "ucast x"] by (simp add: sint_u8)
  then show ?thesis
    by (simp add: inst_lsr_def shift_flags_def flags_sets flags_eqs8 and1 odd_low del: bit_0)
qed

lemma ror_flags: "snd (inst_ror x s) = set_flags (shift_flags (ucast (fst (inst_ror x s))) (odd (uint (ucast x :: u8)))) s"
  by (simp add: inst_ror_def shift_flags_def flags_sets flags_eqs8 and1 odd_low del: bit_0)

lemma asr_flags: "snd (inst_asr x s) = set_flags (shift_flags (ucast (fst (inst_asr x s))) (odd (uint (ucast x :: u8)))) s"
  by (simp add: inst_asr_def shift_flags_def flags_sets flags_eqs8 and1 odd_low del: bit_0)

lemma asl_flags: "snd (inst_asl x s) = set_flags (add8_flags (ucast x) (ucast x) False) s"
  using add_flags [of x x s] by (simp add: inst_asl_def inst_add8_def)

lemma rol_flags:
  "snd (inst_rol x s) = set_flags (tl (add8_flags (ucast x) (ucast x) (get_cc FLAG_C s = 1))) s"
proof -
  note sums = test_c_sum8 [of "get_cc FLAG_C s" "get_cc FLAG_C s = 1" x x, OF carry_bool]
  have r: "(ucast (x + x + get_cc FLAG_C s) :: u8) = ucast x + ucast x + of_bool (get_cc FLAG_C s = 1)"
    using carry_bool [of s] by (metis ucast8_add ucast8_bool)
  show ?thesis
    unfolding inst_rol_def Let_def sums r test_n_u8 test_z8_eq
    by (simp only: add8_flags_def flags_sets list.sel)
qed

lemma sint_range_u8: "-128 \<le> sint (x::u8)" "sint x < 128"
  using sint_ge [of x] sint_lt [of x] by simp_all

lemma inc_flags:
  "snd (inst_inc x s) = set_flags [(FLAG_N, sint (ucast x + 1 :: u8) < 0),
     (FLAG_Z, (ucast x + 1 :: u8) = 0), (FLAG_V, sint (ucast x :: u8) = 127)] s"
proof -
  note sint_range_u8 [of "ucast x"]
  then have "test_v x 1 (x + 1) = of_bool (sint (ucast x :: u8) = 127)"
    using test_c_sum8(3) [of 0 False x 1] by auto
  then show ?thesis
    by (simp only: inst_inc_def flags_sets flags_eqs8 unsigned_1)
qed

lemma dec_flags:
  "snd (inst_dec x s) = set_flags [(FLAG_N, sint (ucast x - 1 :: u8) < 0),
     (FLAG_Z, (ucast x - 1 :: u8) = 0), (FLAG_V, sint (ucast x :: u8) = -128)] s"
proof -
  note sint_range_u8 [of "ucast x"]
  then have v: "test_v x 0xFF (x + 0xFF) = of_bool (sint (ucast x :: u8) = -128)"
    using test_c_sum8(3) [of 0 False x "0xFF"] by auto
  have r: "(ucast (x + 0xFF) :: u8) = ucast x - 1"
    by (simp add: ucast8_add)
  show ?thesis
    by (simp only: inst_dec_def flags_sets v test_n_u8 test_z8_eq r)
qed

lemma neg_flags: "snd (inst_neg x s) = set_flags (sub8_flags 0 (ucast x) False) s"
  using sub_flags [of 0 x s] by (simp add: inst_neg_def inst_sub8_def)

lemma com_flags:
  "snd (inst_com x s) = set_flags (logic_flags (NOT (ucast x)) @ [(FLAG_C, True)]) s"
  by (simp add: inst_com_def flags_sets flags_eqs8 ucast8_not logic_flags_def)

subsection \<open>Multiplication and sign extension\<close>

lemma bit_mask8: "bit (0xFF::u32) i \<longleftrightarrow> i < 8"
  using bit_mask_iff [of 8 i, where 'a=u32] by (auto simp: mask_eq_exp_minus_1)

lemma and_0xFF: "x AND 0xFF = ucast (ucast (x::u32) :: u8)"
  by (rule bit_word_eqI) (unfold bit_and_iff bit_mask8 bit_ucast_iff, auto)

lemma get_reg_d_set_reg_d: "(ucast (get_reg_d (set_reg_d v s)) :: u16) = ucast v"
  unfolding get_reg_d_def set_reg_d_def
  by (rule bit_word_eqI)
    (unfold bit_ucast_iff bit_or_iff bit_and_iff bit_push_bit_iff bit_mask8,
      auto simp: bit_drop_bit_eq)

lemma uint_ucast_8_32: "uint (ucast (a::u8) :: u32) = uint a"
  using uint_u8 [of a] by (simp add: unsigned_ucast_eq take_bit_int_eq_self_iff)

lemma uint_product8: "uint (ucast (a::u8) * ucast (b::u8) :: u32) = uint a * uint b"
proof -
  have "uint a * uint b < 256 * 256"
    using uint_u8 [of a] uint_u8 [of b] by (intro mult_strict_mono) auto
  moreover have "0 \<le> uint a * uint b" by simp
  ultimately have "(uint a * uint b) mod 2 ^ 32 = uint a * uint b"
    by (intro mod_pos_pos_trivial) auto
  then show ?thesis by (simp add: uint_word_ariths uint_ucast_8_32)
qed

lemma set_cc_get_reg_d [simp]: "get_reg_d (set_cc f v s) = get_reg_d s"
  by (simp add: get_reg_d_def)

lemma add_cycles_get [simp]:
  "get_reg_d (add_cycles n s) = get_reg_d s" "get_cc f (add_cycles n s) = get_cc f s"
  by (simp_all add: get_reg_d_def get_cc_def)

lemma mul_result:
  fixes s :: "'z machine_scheme"
  defines "a \<equiv> uint (ucast (reg_a s) :: u8)" and "b \<equiv> uint (ucast (reg_b s) :: u8)"
  shows "uint (ucast (get_reg_d (inst_mul s)) :: u16) = a * b"
    and "get_cc FLAG_Z (inst_mul s) = of_bool (a * b = 0)"
    and "get_cc FLAG_C (inst_mul s) = of_bool (odd (a * b div 128))"
proof -
  define r where "r = (ucast (ucast (reg_a s) :: u8) * ucast (ucast (reg_b s) :: u8) :: u32)"
  have r: "uint r = a * b" by (simp only: r_def uint_product8 a_def b_def)
  have small: "0 \<le> a * b" "a * b < 65536"
    using uint_u8 [of "ucast (reg_a s)"] uint_u8 [of "ucast (reg_b s)"] mult_strict_mono [of a 256 b 256]
    by (auto simp: a_def b_def)
  have r16: "uint (ucast r :: u16) = a * b"
    using small by (simp add: unsigned_ucast_eq r take_bit_eq_mod)
  have m: "inst_mul s = add_cycles 11 (set_flags [(FLAG_Z, a * b = 0), (FLAG_C, odd (a * b div 128))] (set_reg_d r s))"
  proof -
    have "(ucast r :: u16) = 0 \<longleftrightarrow> a * b = 0" using r16 by (metis uint_0_iff)
    moreover have "bit r 7 \<longleftrightarrow> odd (a * b div 128)"
      using bit_uint_iff [of r 7] by (simp add: r bit_iff_odd)
    ultimately show ?thesis
      unfolding inst_mul_def and_0xFF r_def [symmetric] Let_def test_z16_eq and1 bit_drop_bit_eq
      by (simp add: flags_sets)
  qed
  show "uint (ucast (get_reg_d (inst_mul s)) :: u16) = a * b"
    unfolding m by (simp add: flags_sets get_reg_d_set_reg_d r16)
  show "get_cc FLAG_Z (inst_mul s) = of_bool (a * b = 0)"
    unfolding m by (simp add: flags_sets cc.get_put cc_flags_def)
  show "get_cc FLAG_C (inst_mul s) = of_bool (odd (a * b div 128))"
    unfolding m by (simp add: flags_sets cc.get_put cc_flags_def)
qed

lemma bit_minus_0x80: "bit (- 0x80 :: u32) i \<longleftrightarrow> 7 \<le> i \<and> i < 32"
proof -
  have "(- 0x80 :: u32) = NOT 0x7F" by simp
  then show ?thesis by (simp only: bit_not_iff_eq bit_mask7) auto
qed

lemma bit_sign_extend: "bit (sign_extend x) i \<longleftrightarrow> i < 32 \<and> bit x (min i 7)"
proof -
  have "sign_extend x = (if bit x 7 then - 0x80 else 0) OR (x AND 0xFF)"
    by (simp add: sign_extend_def and_0x80)
  then have "bit (sign_extend x) i \<longleftrightarrow> bit x 7 \<and> 7 \<le> i \<and> i < 32 \<or> bit x i \<and> i < 8"
    by (cases "bit x 7")
      (simp_all only: if_True if_False or.left_neutral bit_or_iff bit_and_iff bit_mask8
        bit_minus_0x80 simp_thms)
  moreover have "i < 8 \<and> 7 \<le> i \<longleftrightarrow> i = 7" by auto
  ultimately show ?thesis
    by (auto simp: min_def)
qed

lemma sign_extend_scast: "(ucast (sign_extend x) :: u16) = scast (ucast x :: u8)"
  by (rule bit_word_eqI) (auto simp: bit_ucast_iff bit_sign_extend bit_signed_iff min.commute)

lemma sign_extend_sint: "sint (ucast (sign_extend x) :: u16) = sint (ucast x :: u8)"
  using sint_range_u8 [of "ucast x"]
  by (simp add: sign_extend_scast signed_scast_eq signed_take_bit_int_eq_self)

lemma sex_result: "sint (ucast (get_reg_d (inst_sex s)) :: u16) = sint (ucast (reg_b s) :: u8)"
  by (simp add: inst_sex_def Let_def get_reg_d_set_reg_d sign_extend_sint)


subsection \<open>Decimal adjustment\<close>

text \<open>
  A sum of two bytes of two decimal digits each, with a carry in, has a high
  part \<open>h\<close> of at most 18 and a low part \<open>l\<close> of at most 19, and the half carry
  and the carry tell when they passed 16.
\<close>

lemma int_and_15: "n AND 15 = n mod (16::int)"
  using take_bit_eq_mask [of 4 n] by (simp add: mask_eq_exp_minus_1 take_bit_eq_mod)

lemma int_and_240: "n AND 240 = n mod 256 - n mod (16::int)"
proof -
  have "(n AND 240) AND (n AND 15) = n AND (240 AND 15)" by (simp only: and.assoc and.left_commute and.left_idem)
  then have "(n AND 240) + (n AND 15) = (n AND 240) OR (n AND 15)"
    by (intro disjunctive_add_eq_or) simp
  also have "\<dots> = n AND (240 OR 15)" by (simp only: bit.conj_disj_distrib)
  also have "\<dots> = n mod 256"
    using take_bit_eq_mask [of 8 n] by (simp add: mask_eq_exp_minus_1 take_bit_eq_mod)
  finally show ?thesis by (simp add: int_and_15)
qed

lemma uint_ucast_8: "uint (ucast (x::u32) :: u8) = uint x mod 256"
  by (simp add: unsigned_ucast_eq take_bit_eq_mod)

lemma uint_and_0x0F: "uint (x AND 0x0F :: u32) = uint (ucast x :: u8) mod 16"
  by (simp add: unsigned_and_eq int_and_15 uint_ucast_8 mod_mod_cancel)

lemma uint_and_0xF0: "uint (x AND 0xF0 :: u32) = uint (ucast x :: u8) - uint (ucast x :: u8) mod 16"
  by (simp add: unsigned_and_eq int_and_240 uint_ucast_8 mod_mod_cancel)

lemma daa_correction:
  assumes "P \<longleftrightarrow> reg_a s AND 0x0F > 0x09 \<or> get_cc FLAG_H s = 1"
    and "T \<longleftrightarrow> (reg_a s AND 0xF0 > 0x80 \<and> reg_a s AND 0x0F > 0x09) \<or>
      (reg_a s AND 0xF0 > 0x90 \<or> get_cc FLAG_C s = 1)"
  shows "daa_adjust s = 0x06 * of_bool P + 0x60 * of_bool T"
  unfolding daa_adjust_def Let_def assms
  by (cases "reg_a s AND 0x0F > 0x09 \<or> get_cc FLAG_H s = 1";
      cases "reg_a s AND 0xF0 > 0x80 \<and> reg_a s AND 0x0F > 0x09";
      cases "reg_a s AND 0xF0 > 0x90 \<or> get_cc FLAG_C s = 1"; simp only: if_True if_False; simp)

definition daa_table_ok :: "int \<Rightarrow> int \<Rightarrow> bool" where
  "daa_table_ok h l =
     (let z = (16 * h + l) mod 256; p = z mod 16 > 9 \<or> 16 \<le> l;
          t = (z - z mod 16 > 0x80 \<and> z mod 16 > 9) \<or> (z - z mod 16 > 0x90 \<or> 256 \<le> 16 * h + l);
          r = z + (6 * of_bool p + 96 * of_bool t); d = 10 * h + l
      in r mod 256 = 16 * (d mod 100 div 10) + d mod 10 \<and>
         (256 \<le> r \<longleftrightarrow> 100 \<le> d \<and> 16 * h + l < 256))"

lemma daa_table: "\<forall>h\<in>set [0..18]. \<forall>l\<in>set [0..19]. daa_table_ok h l"
  by code_simp

lemma daa_digits:
  assumes "0 \<le> h" "h \<le> 18" "0 \<le> l" "l \<le> 19"
  shows "daa_table_ok h l"
  using daa_table assms by simp

text \<open>The byte that holds the two decimal digits of a number.\<close>

definition bcd :: "nat \<Rightarrow> u8" where
  "bcd n = of_nat (16 * (n div 10) + n mod 10)"

lemma uint_of_nat8: "k < 256 \<Longrightarrow> uint (of_nat k :: u8) = int k"
  by (simp add: unsigned_of_nat take_bit_nat_eq_self)

lemma uint_bcd: "n < 100 \<Longrightarrow> uint (bcd n) = int (16 * (n div 10) + n mod 10)"
proof -
  assume "n < 100"
  then have "n div 10 \<le> 9" by simp
  then have "16 * (n div 10) + n mod 10 < 256" using mod_less_divisor [of 10 n] by linarith
  then show ?thesis unfolding bcd_def by (rule uint_of_nat8)
qed

lemma word_less_uint: "(a :: u32) < b \<longleftrightarrow> uint a < uint b"
  by (simp add: word_less_def)

lemma daa_core:
  assumes hl: "0 \<le> h" "h \<le> 18" "0 \<le> l" "l \<le> 19"
    and a: "uint (ucast (reg_a s) :: u8) = (16 * h + l) mod 256"
    and H: "get_cc FLAG_H s = of_bool (16 \<le> l)"
    and C: "get_cc FLAG_C s = of_bool (256 \<le> 16 * h + l)"
  shows "uint (ucast (reg_a (inst_daa s)) :: u8) = 16 * ((10 * h + l) mod 100 div 10) + (10 * h + l) mod 10"
    and "get_cc FLAG_C (inst_daa s) = of_bool (100 \<le> 10 * h + l \<and> 16 * h + l < 256)"
proof -
  define z where "z = (16 * h + l) mod 256"
  define p where "p \<longleftrightarrow> z mod 16 > 9 \<or> 16 \<le> l"
  define t where "t \<longleftrightarrow> (z - z mod 16 > 0x80 \<and> z mod 16 > 9) \<or> (z - z mod 16 > 0x90 \<or> 256 \<le> 16 * h + l)"
  note tab = daa_digits [OF hl, unfolded daa_table_ok_def Let_def, folded z_def, folded p_def t_def]
  have adj: "daa_adjust s = 0x06 * of_bool p + 0x60 * of_bool t"
    by (rule daa_correction)
      (simp_all add: p_def t_def H C word_less_uint uint_and_0x0F uint_and_0xF0 a z_def [symmetric])
  have i1: "uint (ucast (daa_adjust s) :: u8) = 6 * of_bool p + 96 * of_bool t"
    unfolding adj by (cases p; cases t) simp_all
  have r: "uint (ucast (reg_a s + daa_adjust s) :: u8) = (z + (6 * of_bool p + 96 * of_bool t)) mod 256"
    unfolding ucast8_add uint_add8 i1 a z_def ..
  have c: "test_c (reg_a s) (daa_adjust s) (reg_a s + daa_adjust s) 0 = of_bool (256 \<le> z + (6 * of_bool p + 96 * of_bool t))"
    using test_c_sum8(1) [of 0 False "reg_a s" "daa_adjust s"] by (simp add: i1 a z_def)
  show "uint (ucast (reg_a (inst_daa s)) :: u8) = 16 * ((10 * h + l) mod 100 div 10) + (10 * h + l) mod 10"
    using tab r by (simp add: inst_daa_def Let_def)
  show "get_cc FLAG_C (inst_daa s) = of_bool (100 \<le> 10 * h + l \<and> 16 * h + l < 256)"
    using tab c by (simp add: inst_daa_def Let_def cc.get_put cc_flags_def)
qed

text \<open>\<open>adca\<close> of two such bytes followed by \<open>daa\<close>.\<close>

lemma get_cc_reg_a: "get_cc f (s\<lparr>reg_a := r\<rparr>) = get_cc f s"
  by (simp add: get_cc_def)

lemma adc_result:
  "uint (ucast (fst (inst_adc x y s)) :: u8) =
   (uint (ucast x :: u8) + uint (ucast y :: u8) + of_bool (get_cc FLAG_C s = 1)) mod 256"
proof -
  have "(ucast (fst (inst_adc x y s)) :: u8) = ucast x + ucast y + of_bool (get_cc FLAG_C s = 1)"
    using carry_bool [of s] by (simp only: inst_adc_def Let_def fst_conv) (metis ucast8_add ucast8_bool)
  then show ?thesis by (simp add: uint_add8 mod_simps)
qed

lemma adc_daa_result:
  assumes mn: "m < 100" "n < 100" and xy: "ucast x = bcd m" "ucast y = bcd n"
    and s': "s' = (snd (inst_adc x y s))\<lparr>reg_a := fst (inst_adc x y s)\<rparr>"
  shows "ucast (reg_a (inst_daa s')) = bcd ((m + n + of_bool (get_cc FLAG_C s = 1)) mod 100)"
    and "get_cc FLAG_C (inst_daa s') =
      of_bool (100 \<le> m + n + of_bool (get_cc FLAG_C s = 1) \<and> get_cc FLAG_C s' = 0)"
proof -
  define k where "k = (of_bool (get_cc FLAG_C s = 1) :: nat)"
  define h where "h = int (m div 10 + n div 10)"
  define l where "l = int (m mod 10 + n mod 10 + k)"
  have k: "k \<le> 1" "int k = of_bool (get_cc FLAG_C s = 1)" by (simp_all add: k_def)
  have hl: "0 \<le> h" "h \<le> 18" "0 \<le> l" "l \<le> 19"
    using div_le_mono [of m 99 10] div_le_mono [of n 99 10] mn k(1) by (simp_all add: h_def l_def)
  have d: "10 * h + l = int (m + n + k)"
  proof -
    have "a * 10 + u = m \<Longrightarrow> b * 10 + v = n \<Longrightarrow> 10 * (a + b) + (u + v + k) = m + n + k" for a b u v
      by simp
    then have "10 * (m div 10 + n div 10) + (m mod 10 + n mod 10 + k) = m + n + k"
      using div_mult_mod_eq [of m 10] div_mult_mod_eq [of n 10] by blast
    moreover have "10 * int u + int v = int (10 * u + v)" for u v by simp
    ultimately show ?thesis unfolding h_def l_def by metis
  qed
  have sum: "uint (bcd m) + uint (bcd n) + of_bool (get_cc FLAG_C s = 1) = 16 * h + l"
    by (simp add: uint_bcd mn h_def l_def k(2))
  have low: "uint (bcd m) mod 16 + uint (bcd n) mod 16 + of_bool (get_cc FLAG_C s = 1) = l"
    using mn by (simp add: uint_bcd l_def k(2) zmod_int) 
  have a: "uint (ucast (reg_a s') :: u8) = (16 * h + l) mod 256"
    by (simp add: s' adc_result xy sum)
  have H: "get_cc FLAG_H s' = of_bool (16 \<le> l)"
    by (simp add: s' get_cc_reg_a adc_flags xy add8_flags_def flags_sets cc.get_put cc_flags_def low)
  have C: "get_cc FLAG_C s' = of_bool (256 \<le> 16 * h + l)"
    by (simp add: s' get_cc_reg_a adc_flags xy add8_flags_def flags_sets cc.get_put cc_flags_def sum)
  note core = daa_core [OF hl a H C, unfolded d]
  have "uint (ucast (reg_a (inst_daa s')) :: u8) = uint (bcd ((m + n + k) mod 100))"
    using core(1) by (simp add: uint_bcd zmod_int zdiv_int mod_mod_cancel)
  then show "ucast (reg_a (inst_daa s')) = bcd ((m + n + of_bool (get_cc FLAG_C s = 1)) mod 100)"
    by (simp add: k_def word_uint_eq_iff)
  show "get_cc FLAG_C (inst_daa s') =
      of_bool (100 \<le> m + n + of_bool (get_cc FLAG_C s = 1) \<and> get_cc FLAG_C s' = 0)"
    using core(2) C by (auto simp: k_def)
qed


subsection \<open>Properties\<close>

lemma add_results:
  "(ucast (fst (inst_add8 x y s)) :: u8) = ucast x + ucast y"
  "(ucast (fst (inst_sub8 x y s)) :: u8) = ucast x - ucast y"
  "(ucast (fst (inst_neg x s)) :: u8) = - ucast x"
  "(ucast (fst (inst_add16 x' y' s)) :: u16) = ucast x' + ucast y'"
  "(ucast (fst (inst_sub16 x' y' s)) :: u16) = ucast x' - ucast y'"
  unfolding inst_add8_def inst_sub8_def inst_neg_def inst_add16_def inst_sub16_def Let_def fst_conv
    sum_of_complement_0 ucast8_diff ucast16_diff ucast8_add ucast16_add
  by simp_all

lemma carry_results:
  "(ucast (fst (inst_adc x y s)) :: u8) = ucast x + ucast y + of_bool (get_cc FLAG_C s = 1)"
  "(ucast (fst (inst_sbc x y s)) :: u8) = ucast x - ucast y - of_bool (get_cc FLAG_C s = 1)"
proof -
  show "(ucast (fst (inst_adc x y s)) :: u8) = ucast x + ucast y + of_bool (get_cc FLAG_C s = 1)"
    using carry_bool [of s] by (simp only: inst_adc_def Let_def fst_conv) (metis ucast8_add ucast8_bool)
  show "(ucast (fst (inst_sbc x y s)) :: u8) = ucast x - ucast y - of_bool (get_cc FLAG_C s = 1)"
    unfolding inst_sbc_def Let_def fst_conv borrow_bool sum_of_complement ucast8_diff ucast8_bool ..
qed

text \<open>
  C10. Addition of bytes, without and with carry: the low byte of the result is
  the sum, H is the carry out of the low digit, C the carry out of the byte, V
  the signed overflow, N and Z the sign and the zero test of the byte; no other
  state changes, and no bit above the operands matters.
\<close>

theorem addition_8bit:
  "(ucast (fst (inst_add8 x y s)) :: u8) = ucast x + ucast y \<and>
   snd (inst_add8 x y s) = set_flags (add8_flags (ucast x) (ucast y) False) s \<and>
   (ucast (fst (inst_adc x y s)) :: u8) = ucast x + ucast y + of_bool (get_cc FLAG_C s = 1) \<and>
   snd (inst_adc x y s) = set_flags (add8_flags (ucast x) (ucast y) (get_cc FLAG_C s = 1)) s"
  by (simp only: add_results carry_results add_flags adc_flags simp_thms)

text \<open>
  C11. Subtraction of bytes, with and without borrow, and negation: the low byte
  is the difference, C is set exactly when a borrow was needed, V is the signed
  overflow, and H is set when the low digit needs no borrow.
\<close>

theorem subtraction_8bit:
  "(ucast (fst (inst_sub8 x y s)) :: u8) = ucast x - ucast y \<and>
   snd (inst_sub8 x y s) = set_flags (sub8_flags (ucast x) (ucast y) False) s \<and>
   (ucast (fst (inst_sbc x y s)) :: u8) = ucast x - ucast y - of_bool (get_cc FLAG_C s = 1) \<and>
   snd (inst_sbc x y s) = set_flags (sub8_flags (ucast x) (ucast y) (get_cc FLAG_C s = 1)) s \<and>
   (ucast (fst (inst_neg x s)) :: u8) = - ucast x \<and>
   snd (inst_neg x s) = set_flags (sub8_flags 0 (ucast x) False) s"
  by (simp only: add_results carry_results sub_flags sbc_flags neg_flags simp_thms)

text \<open>
  The 16-bit sum and difference: the low word is the sum or difference, and
  C, V, N, Z are those of 16-bit arithmetic although the code computes them
  with 8-bit helpers on the high byte.
\<close>

lemma arithmetic_16bit:
  "(ucast (fst (inst_add16 x y s)) :: u16) = ucast x + ucast y \<and>
   snd (inst_add16 x y s) = set_flags (add16_flags (ucast x) (ucast y)) s \<and>
   (ucast (fst (inst_sub16 x y s)) :: u16) = ucast x - ucast y \<and>
   snd (inst_sub16 x y s) = set_flags (sub16_flags (ucast x) (ucast y)) s"
  by (simp only: add_results addw_flags subw_flags simp_thms)

text \<open>
  The shifts and rotations: a right shift halves the byte, unsigned for
  \<open>lsr\<close>, signed for \<open>asr\<close>, with the old carry as the top bit for \<open>ror\<close>; the
  bit shifted out goes to C; \<open>asl\<close> and \<open>rol\<close> have the flags of adding the
  byte to itself, \<open>rol\<close> without H.
\<close>

lemma shifts_and_rotations:
  "let a = (ucast x :: u8); c = (get_cc FLAG_C s = 1) in
   uint (ucast (fst (inst_lsr x s)) :: u8) = uint a div 2 \<and>
   snd (inst_lsr x s) = set_flags (shift_flags (ucast (fst (inst_lsr x s))) (odd (uint a))) s \<and>
   sint (ucast (fst (inst_asr x s)) :: u8) = sint a div 2 \<and>
   snd (inst_asr x s) = set_flags (shift_flags (ucast (fst (inst_asr x s))) (odd (uint a))) s \<and>
   uint (ucast (fst (inst_ror x s)) :: u8) = uint a div 2 + (if c then 128 else 0) \<and>
   snd (inst_ror x s) = set_flags (shift_flags (ucast (fst (inst_ror x s))) (odd (uint a))) s \<and>
   (ucast (fst (inst_asl x s)) :: u8) = a + a \<and>
   snd (inst_asl x s) = set_flags (add8_flags a a False) s \<and>
   (ucast (fst (inst_rol x s)) :: u8) = a + a + of_bool c \<and>
   snd (inst_rol x s) = set_flags (tl (add8_flags a a c)) s"
proof -
  have "(ucast (fst (inst_asl x s)) :: u8) = ucast x + ucast x"
    using add_results(1) [of x x s] by (simp add: inst_asl_def inst_add8_def Let_def)
  moreover have "(ucast (fst (inst_rol x s)) :: u8) = ucast x + ucast x + of_bool (get_cc FLAG_C s = 1)"
    using carry_results(1) [of x x s] by (simp add: inst_rol_def inst_adc_def Let_def)
  ultimately show ?thesis
    unfolding Let_def
    by (intro conjI lsr_flags asr_flags ror_flags asl_flags rol_flags lsr_result asr_result ror_result)
qed

text \<open>
  C12. Decimal adjustment: after \<open>adca\<close> of two bytes holding two decimal digits
  each, \<open>daa\<close> leaves the digits of the sum modulo 100 in A. C is set when the
  sum passes 100, except that a binary carry of the addition itself is lost.
\<close>

theorem decimal_adjust:
  assumes "m < 100" "n < 100" and "ucast x = bcd m" "ucast y = bcd n"
    and "s' = (snd (inst_adc x y s))\<lparr>reg_a := fst (inst_adc x y s)\<rparr>"
  shows "(ucast (reg_a (inst_daa s')) :: u8) = bcd ((m + n + of_bool (get_cc FLAG_C s = 1)) mod 100) \<and>
     get_cc FLAG_C (inst_daa s') =
      of_bool (100 \<le> m + n + of_bool (get_cc FLAG_C s = 1) \<and> get_cc FLAG_C s' = 0)"
  using adc_daa_result [OF assms] by simp

theorem decimal_adjust_witness:
  "let s' = (snd (inst_adc 0x59 0x28 power_on))\<lparr>reg_a := fst (inst_adc 0x59 0x28 power_on)\<rparr>
   in (ucast (reg_a (inst_daa s')) :: u8) = bcd 87 \<and> get_cc FLAG_C (inst_daa s') = 0"
proof -
  have "get_cc FLAG_C power_on = 0" by (simp add: get_cc_def power_on_def)
  moreover have "(ucast (0x59 :: u32) :: u8) = bcd 59" "(ucast (0x28 :: u32) :: u8) = bcd 28"
    by (simp_all add: bcd_def)
  ultimately show ?thesis
    using decimal_adjust [of 59 28 "0x59" "0x28" _ power_on, OF _ _ _ _ refl] by (simp add: Let_def)
qed

text \<open>
  \<open>mul\<close> leaves the unsigned product of A and B in D, Z when it is zero and
  bit 7 of the product in C; \<open>sex\<close> leaves the signed value of B in D.
\<close>

lemma multiply_and_sign_extend:
  "uint (ucast (get_reg_d (inst_mul s)) :: u16) =
     uint (ucast (reg_a s) :: u8) * uint (ucast (reg_b s) :: u8) \<and>
   get_cc FLAG_Z (inst_mul s) = of_bool (uint (ucast (reg_a s) :: u8) * uint (ucast (reg_b s) :: u8) = 0) \<and>
   get_cc FLAG_C (inst_mul s) =
     of_bool (odd (uint (ucast (reg_a s) :: u8) * uint (ucast (reg_b s) :: u8) div 128)) \<and>
   sint (ucast (get_reg_d (inst_sex s)) :: u16) = sint (ucast (reg_b s) :: u8)"
  by (simp only: mul_result sex_result simp_thms)

text \<open>
  Increment and decrement wrap, set V only at the largest or smallest signed
  value, and leave C alone; the logical operations and loads clear V.
\<close>

lemma increment_decrement_logic:
  "(ucast (fst (inst_inc x s)) :: u8) = ucast x + 1 \<and>
   snd (inst_inc x s) = set_flags [(FLAG_N, sint (ucast x + 1 :: u8) < 0),
     (FLAG_Z, (ucast x + 1 :: u8) = 0), (FLAG_V, sint (ucast x :: u8) = 127)] s \<and>
   (ucast (fst (inst_dec x s)) :: u8) = ucast x - 1 \<and>
   snd (inst_dec x s) = set_flags [(FLAG_N, sint (ucast x - 1 :: u8) < 0),
     (FLAG_Z, (ucast x - 1 :: u8) = 0), (FLAG_V, sint (ucast x :: u8) = -128)] s \<and>
   snd (inst_and x y s) = set_flags (logic_flags (ucast x AND ucast y)) s \<and>
   snd (inst_or x y s) = set_flags (logic_flags (ucast x OR ucast y)) s \<and>
   snd (inst_eor x y s) = set_flags (logic_flags (ucast x XOR ucast y)) s \<and>
   snd (inst_com x s) = set_flags (logic_flags (NOT (ucast x)) @ [(FLAG_C, True)]) s"
proof -
  have "(ucast (fst (inst_inc x s)) :: u8) = ucast x + 1"
    by (simp add: inst_inc_def Let_def ucast8_add)
  moreover have "(ucast (fst (inst_dec x s)) :: u8) = ucast x - 1"
    by (simp add: inst_dec_def Let_def ucast8_add)
  moreover have "snd (inst_and x y s) = set_flags (logic_flags (ucast x AND ucast y)) s"
      "snd (inst_or x y s) = set_flags (logic_flags (ucast x OR ucast y)) s"
      "snd (inst_eor x y s) = set_flags (logic_flags (ucast x XOR ucast y)) s"
    by (simp_all only: inst_and_def inst_or_def inst_eor_def Let_def snd_conv tst8_flags
        ucast8_and ucast8_or ucast8_xor)
  ultimately show ?thesis
    by (simp only: inc_flags dec_flags com_flags simp_thms)
qed

text \<open>
  The condition codes are a flag register: after any sequence of flag writes
  a flag reads as the last value written to it, or as before when none was.
\<close>

lemma condition_codes_read_back:
  assumes "f \<in> cc_flags" "fst ` set us \<subseteq> cc_flags"
  shows "get_cc f (set_flags us s) =
    (case map_of (rev us) f of Some b \<Rightarrow> of_bool b | None \<Rightarrow> get_cc f s)"
proof -
  let ?vs = "map (\<lambda>(g, b). (g, of_bool b :: u32)) us"
  have "set_flags us s = cc.puts ?vs s"
    by (simp add: set_flags_def cc.puts_def fold_map comp_def case_prod_unfold)
  moreover have "get_cc f (cc.puts ?vs s) =
      (case map_of (rev ?vs) f of Some v \<Rightarrow> v | None \<Rightarrow> get_cc f s)"
    using assms by (intro cc.get_puts) (auto simp: image_subset_iff)
  moreover have "map_of (rev ?vs) f = map_option of_bool (map_of (rev us) f)"
    by (simp add: rev_map map_of_map)
  ultimately show ?thesis by (simp split: option.split)
qed

theorem condition_codes_read_back_witness:
  "get_cc FLAG_Z (set_flags [(FLAG_Z, False), (FLAG_N, True), (FLAG_Z, True)] power_on) = 1 \<and>
   get_cc FLAG_I (set_flags [(FLAG_Z, False), (FLAG_N, True)] power_on) = 0"
  using condition_codes_read_back [of FLAG_Z "[(FLAG_Z, False), (FLAG_N, True), (FLAG_Z, True)]" power_on]
    condition_codes_read_back [of FLAG_I "[(FLAG_Z, False), (FLAG_N, True)]" power_on]
  by (simp add: cc_flags_def get_cc_def power_on_def)

end
