(* ===== verification/Stack.thy ===== *)
theory Stack
  imports Step AluSpec
begin

text \<open>
  Memory and the stacks: a write away from the special locations and from write
  breakpoints changes one byte; a sequence of pushes lays a list of bytes below
  the stack pointer, and pulls read it back. Pushes and pulls of register sets,
  interrupts with \<open>rti\<close>, and subroutine calls with \<open>rts\<close> restore the registers.
\<close>

subsection \<open>Plain memory\<close>

definition plain :: "u16 \<Rightarrow> bool" where
  "plain a \<longleftrightarrow> a \<notin> {0xFEFC, 0xFEFD, 0xFEFE, 0xFEFF}"

definition quiet :: "'z machine_scheme \<Rightarrow> bool" where
  "quiet s \<longleftrightarrow> (\<forall>a. (a, BRK_WRITE) \<notin> armed (bp s))"

lemma bit_mask16: "bit (0xFFFF::u32) i \<longleftrightarrow> i < 16"
  using bit_mask_iff [of 16 i, where 'a=u32] by (auto simp: mask_eq_exp_minus_1)

lemma and_0xFFFF: "a AND 0xFFFF = ucast (ucast (a::u32) :: u16)"
  by (rule bit_word_eqI) (unfold bit_and_iff bit_mask16 bit_ucast_iff, auto)

lemma ucast_and_0xFFFF: "(ucast (a AND 0xFFFF :: u32) :: u16) = ucast a"
  unfolding and_0xFFFF by (rule bit_word_eqI) (auto simp: bit_ucast_iff)

lemma read8_ram: "read8 a s = ucast (ram s (ucast a))"
  by (simp add: read8_def e6809_read8_def ucast_and_0xFFFF)

lemma e6809_write8_plain:
  assumes "plain (ucast a)"
  shows "e6809_write8 (a AND 0xFFFF) d s = ok (s\<lparr>ram := (ram s)(ucast a := d)\<rparr>)"
proof -
  have "a AND 0xFFFF \<noteq> b" if "\<not> plain (ucast b)" for b :: u32
    using assms that ucast_and_0xFFFF [of a] by metis
  then have "a AND 0xFFFF \<noteq> 0xFEFF" "a AND 0xFFFF \<noteq> 0xFEFE" "a AND 0xFFFF \<noteq> 0xFEFD"
      "a AND 0xFFFF \<noteq> 0xFEFC"
    by (simp_all add: plain_def)
  then show ?thesis
    unfolding e6809_write8_def ucast_and_0xFFFF by (simp only: if_False)
qed

lemma check_brk_quiet:
  assumes "quiet s"
  shows "\<exists>b. check_brk a BRK_WRITE s = (False, s\<lparr>bp := b\<rparr>) \<and> armed b = armed (bp s)"
proof (cases "a = ignored_addr (bp s)")
  case True
  then show ?thesis by (auto simp: check_brk_def is_breakpoint_def)
next
  case False
  then show ?thesis
    using assms by (intro exI [of _ "bp s"]) (simp add: check_brk_def is_breakpoint_armed quiet_def)
qed

lemma write8_plain:
  assumes "plain (ucast a)" "quiet s"
  shows "\<exists>b. write8 a d s = ok (s\<lparr>ram := (ram s)(ucast a := ucast d), bp := b\<rparr>) \<and> armed b = armed (bp s)"
proof -
  let ?s = "s\<lparr>ram := (ram s)(ucast a := ucast d)\<rparr>"
  have "quiet ?s" using assms by (simp add: quiet_def)
  then obtain b where "check_brk (a AND 0xFFFF) BRK_WRITE ?s = (False, ?s\<lparr>bp := b\<rparr>)" "armed b = armed (bp s)"
    using check_brk_quiet [of ?s "a AND 0xFFFF"] by auto
  then show ?thesis
    by (intro exI [of _ b]) (simp add: write8_def Let_def e6809_write8_plain [OF assms(1)])
qed

subsection \<open>Lists of bytes in memory\<close>

text \<open>
  A memory of bytes at 16-bit addresses: a write to a safe address is read back
  there and changes no other address. A run of bytes that grows downwards, as a
  stack does, is the list of what was written.
\<close>

locale byte_memory =
  fixes get :: "'m \<Rightarrow> u16 \<Rightarrow> u8"
    and put :: "u16 \<Rightarrow> u8 \<Rightarrow> 'm \<Rightarrow> 'm"
    and safe :: "u16 \<Rightarrow> bool"
  assumes get_put: "safe a \<Longrightarrow> get (put a v m) b = (if b = a then v else get m b)"
begin

definition gets :: "'m \<Rightarrow> u16 \<Rightarrow> nat \<Rightarrow> u8 list" where
  "gets m a n = map (\<lambda>i. get m (a + of_nat i)) [0..<n]"

lemma gets_0: "gets m a 0 = []"
  by (simp add: gets_def)

lemma gets_Suc: "gets m a (Suc n) = get m a # gets m (a + 1) n"
  unfolding gets_def by (simp add: upt_conv_Cons map_Suc_upt [symmetric] ac_simps del: upt_Suc)

lemma length_gets: "length (gets m a n) = n"
  by (simp add: gets_def)

lemma gets_add: "gets m a (k + n) = gets m a k @ gets m (a + of_nat k) n"
  by (induction k arbitrary: a) (simp_all add: gets_0 gets_Suc ac_simps)

lemma gets_push:
  assumes "n < 65536" "safe (a - 1)"
  shows "gets (put (a - 1) x m) (a - 1) (Suc n) = x # gets m a n"
proof -
  have "get (put (a - 1) x m) (a + of_nat i) = get m (a + of_nat i)" if "i < n" for i
  proof -
    have "\<not> 65536 dvd Suc i" using assms(1) that by (auto dest: dvd_imp_le)
    then have "(of_nat (Suc i) :: u16) \<noteq> 0" by (simp only: word_of_nat_eq_0_iff) simp
    then have "a + of_nat i \<noteq> a - 1" by (auto simp: algebra_simps)
    then show ?thesis using assms(2) by (simp add: get_put)
  qed
  then have "gets (put (a - 1) x m) a n = gets m a n"
    unfolding gets_def by simp
  then show ?thesis using assms(2) by (simp add: gets_Suc get_put)
qed

end

text \<open>The memory of the emulator, written by \<open>e6809_write8\<close>.\<close>

definition poke :: "u16 \<Rightarrow> u8 \<Rightarrow> 'z machine_scheme \<Rightarrow> 'z machine_scheme" where
  "poke a v s = (case e6809_write8 (ucast a) v s of Inl (e, s) \<Rightarrow> s | Inr (u, s) \<Rightarrow> s)"

lemma ucast_u16_u32 [simp]: "ucast (ucast (a::u16) :: u32) = a"
  by (rule bit_word_eqI) (auto simp: bit_ucast_iff)

lemma ucast_u8_u32 [simp]: "ucast (ucast (a::u8) :: u32) = a"
  by (rule bit_word_eqI) (auto simp: bit_ucast_iff)

lemma poke_plain: "plain a \<Longrightarrow> poke a v s = s\<lparr>ram := (ram s)(a := v)\<rparr>"
  using e6809_write8_plain [of "ucast a" v s] unfolding poke_def and_0xFFFF ucast_u16_u32 by simp

definition peek :: "'z machine_scheme \<Rightarrow> u16 \<Rightarrow> u8" where
  "peek s a = e6809_read8 (ucast a) s"

lemma peek_ram: "peek s a = ram s a"
  by (simp add: peek_def e6809_read8_def)

interpretation mem: byte_memory peek poke plain
  by unfold_locales (simp add: poke_plain peek_ram)

lemma gets_ram: "ram s = ram t \<Longrightarrow> mem.gets s a n = mem.gets t a n"
  by (simp add: mem.gets_def peek_ram)

subsection \<open>Pushes\<close>

text \<open>
  After pushing \<open>bs\<close>, listed from the new top down to the old one, the state
  differs in the stack pointer, in the bytes above it, in the cycle count and in
  whether an ignored breakpoint is pending.
\<close>

definition pushed :: "xyus \<Rightarrow> u8 list \<Rightarrow> 'z machine_scheme \<Rightarrow> 'z machine_scheme \<Rightarrow> bool" where
  "pushed sp bs s s' \<longleftrightarrow>
     (ucast (get_xyus sp s') :: u16) = ucast (get_xyus sp s) - of_nat (length bs) \<and>
     mem.gets s' (ucast (get_xyus sp s')) (length bs) = bs \<and>
     (\<forall>a. (\<forall>i\<in>{1..length bs}. a \<noteq> ucast (get_xyus sp s) - of_nat i) \<longrightarrow> ram s' a = ram s a) \<and>
     armed (bp s') = armed (bp s) \<and>
     (\<exists>v m b c. s' = set_xyus sp v (s\<lparr>ram := m, bp := b, cycles := c\<rparr>))"

definition stack_room :: "xyus \<Rightarrow> nat \<Rightarrow> 'z machine_scheme \<Rightarrow> bool" where
  "stack_room sp n s \<longleftrightarrow> quiet s \<and> n \<le> 65536 \<and> (\<forall>i\<in>{1..n}. plain (ucast (get_xyus sp s) - of_nat i))"

lemma set_xyus_same: "set_xyus sp (get_xyus sp s) s = s"
  by (cases sp) simp_all

lemma get_set_xyus [simp]: "get_xyus sp (set_xyus sp v s) = v"
  by (cases sp) simp_all

lemma set_set_xyus [simp]: "set_xyus sp v (set_xyus sp w s) = set_xyus sp v s"
  by (cases sp) simp_all

lemma set_xyus_upds [simp]:
  "(set_xyus sp v s)\<lparr>ram := m\<rparr> = set_xyus sp v (s\<lparr>ram := m\<rparr>)"
  "(set_xyus sp v s)\<lparr>bp := b\<rparr> = set_xyus sp v (s\<lparr>bp := b\<rparr>)"
  "(set_xyus sp v s)\<lparr>cycles := c\<rparr> = set_xyus sp v (s\<lparr>cycles := c\<rparr>)"
  by (cases sp; simp)+

lemma set_xyus_sels [simp]:
  "ram (set_xyus sp v s) = ram s" "bp (set_xyus sp v s) = bp s" "cycles (set_xyus sp v s) = cycles s"
  "reg_a (set_xyus sp v s) = reg_a s" "reg_b (set_xyus sp v s) = reg_b s" "reg_cc (set_xyus sp v s) = reg_cc s"
  "reg_dp (set_xyus sp v s) = reg_dp s" "reg_pc (set_xyus sp v s) = reg_pc s"
  by (cases sp; simp)+

lemma get_xyus_upds [simp]:
  "get_xyus sp (s\<lparr>ram := m\<rparr>) = get_xyus sp s" "get_xyus sp (s\<lparr>bp := b\<rparr>) = get_xyus sp s"
  "get_xyus sp (s\<lparr>cycles := c\<rparr>) = get_xyus sp s"
  by (cases sp; simp)+

lemma pushed_refl: "pushed sp [] s s"
proof -
  have "\<exists>v m b c. s = set_xyus sp v (s\<lparr>ram := m, bp := b, cycles := c\<rparr>)"
    by (rule exI [of _ "get_xyus sp s"], rule exI [of _ "ram s"], rule exI [of _ "bp s"],
        rule exI [of _ "cycles s"]) (simp add: set_xyus_same)
  then show ?thesis
    unfolding pushed_def by (simp add: mem.gets_0)
qed

lemma ucast16_sub1: "(ucast (v - 1 :: u32) :: u16) = ucast v - 1"
  by (simp add: ucast16_diff)

lemma push8_pushed:
  assumes p: "pushed sp bs s s'" and room: "stack_room sp (Suc (length bs)) s"
  shows "\<exists>t. push8 sp d s' = ok t \<and> pushed sp (ucast d # bs) s t"
proof -
  let ?v = "get_xyus sp s' - 1" and ?top = "ucast (get_xyus sp s) :: u16"
  have a: "(ucast ?v :: u16) = ?top - of_nat (Suc (length bs))"
    using p by (simp add: pushed_def ucast16_sub1 algebra_simps)
  moreover have "plain (?top - of_nat (Suc (length bs)))"
    using room unfolding stack_room_def by (auto simp del: of_nat_Suc)
  ultimately have pl: "plain (ucast ?v)" by simp
  have "quiet (set_xyus sp ?v s')"
    using p room by (simp add: pushed_def stack_room_def quiet_def)
  then obtain b where w: "write8 ?v d (set_xyus sp ?v s') =
      ok (set_xyus sp ?v (s'\<lparr>ram := (ram s')(ucast ?v := ucast d), bp := b\<rparr>))" and b: "armed b = armed (bp s')"
    using write8_plain [OF pl, of "set_xyus sp ?v s'" d] by auto
  define t where "t = set_xyus sp ?v (s'\<lparr>ram := (ram s')(ucast ?v := ucast d), bp := b\<rparr>)"
  have "push8 sp d s' = ok t"
    by (simp add: push8_def Let_def w t_def)
  moreover have "pushed sp (ucast d # bs) s t"
    unfolding pushed_def
  proof (intro conjI)
    show "(ucast (get_xyus sp t) :: u16) = ucast (get_xyus sp s) - of_nat (length (ucast d # bs))"
      using a by (simp add: t_def)
    have "mem.gets t (ucast ?v) (Suc (length bs)) = mem.gets (poke (ucast ?v) (ucast d) s') (ucast ?v) (Suc (length bs))"
      by (rule gets_ram) (simp add: t_def poke_plain [OF pl])
    also have "\<dots> = ucast d # bs"
    proof -
      have "mem.gets s' (ucast (get_xyus sp s')) (length bs) = bs" "length bs < 65536"
        using p room by (auto simp: pushed_def stack_room_def)
      then show ?thesis
        using mem.gets_push [of "length bs" "ucast (get_xyus sp s')" "ucast d" s'] pl
        by (simp only: ucast16_sub1)
    qed
    finally show "mem.gets t (ucast (get_xyus sp t)) (length (ucast d # bs)) = ucast d # bs"
      by (simp add: t_def)
    show "\<forall>x. (\<forall>i\<in>{1..length (ucast d # bs)}. x \<noteq> ?top - of_nat i) \<longrightarrow> ram t x = ram s x"
    proof (intro allI impI)
      fix x assume x: "\<forall>i\<in>{1..length (ucast d # bs)}. x \<noteq> ?top - of_nat i"
      from x [rule_format, of "Suc (length bs)"] a have "x \<noteq> ucast ?v" by simp
      moreover from x p have "ram s' x = ram s x" by (simp add: pushed_def)
      ultimately show "ram t x = ram s x" by (simp add: t_def)
    qed
    show "armed (bp t) = armed (bp s)"
      using p b by (simp add: t_def pushed_def)
    from p obtain w m b' c where "s' = set_xyus sp w (s\<lparr>ram := m, bp := b', cycles := c\<rparr>)"
      by (auto simp: pushed_def)
    then have "t = set_xyus sp ?v (s\<lparr>ram := m(ucast ?v := ucast d), bp := b, cycles := c\<rparr>)"
      unfolding t_def by (intro machine.equality; cases sp; simp)
    then show "\<exists>v m b c. t = set_xyus sp v (s\<lparr>ram := m, bp := b, cycles := c\<rparr>)"
      by blast
  qed
  ultimately show ?thesis by blast
qed

lemma push16_pushed:
  assumes p: "pushed sp bs s s'" and room: "stack_room sp (length bs + 2) s"
  shows "\<exists>t. push16 sp d s' = ok t \<and> pushed sp (ucast (drop_bit 8 d) # ucast d # bs) s t"
proof -
  have "stack_room sp (Suc (length bs)) s"
    using room by (auto simp: stack_room_def)
  then obtain t where t: "push8 sp d s' = ok t" "pushed sp (ucast d # bs) s t"
    using push8_pushed [OF p] by blast
  moreover have "stack_room sp (Suc (length (ucast d # bs :: u8 list))) s" using room by simp
  ultimately show ?thesis
    using push8_pushed [OF t(2), of "drop_bit 8 d"] by (simp add: push16_def)
qed

text \<open>Two bytes of a 16-bit value, high byte first as the stack holds it.\<close>

definition bytes16 :: "u32 \<Rightarrow> u8 list" where
  "bytes16 d = [ucast (drop_bit 8 d), ucast d]"

lemma pushed_add_cycles: "pushed sp bs s s' \<Longrightarrow> pushed sp bs s (add_cycles n s')"
  by (auto simp: pushed_def add_cycles_def gets_ram [of "s'\<lparr>cycles := c\<rparr>" s' for c]) blast+

lemma push_if8:
  assumes p: "pushed sp bs s s'" and "stack_room sp (length bs + 1) s" and "f s' = f s"
  shows "\<exists>t. push_if b (\<lambda>s. push8 sp (f s) s) n s' = ok t \<and>
    pushed sp ((if b then [ucast (f s)] else []) @ bs) s t"
proof (cases b)
  case True
  obtain t where "push8 sp (f s') s' = ok t" "pushed sp (ucast (f s) # bs) s t"
    using push8_pushed [OF p, of "f s'"] assms by auto
  then show ?thesis using True by (auto simp: push_if_def intro: pushed_add_cycles)
qed (simp add: push_if_def p)

lemma push_if16:
  assumes p: "pushed sp bs s s'" and "stack_room sp (length bs + 2) s" and "f s' = f s"
  shows "\<exists>t. push_if b (\<lambda>s. push16 sp (f s) s) n s' = ok t \<and>
    pushed sp ((if b then bytes16 (f s) else []) @ bs) s t"
proof (cases b)
  case True
  obtain t where "push16 sp (f s') s' = ok t" "pushed sp (bytes16 (f s) @ bs) s t"
    using push16_pushed [OF p, of "f s'"] assms by (auto simp: bytes16_def)
  then show ?thesis using True by (auto simp: push_if_def intro: pushed_add_cycles)
qed (simp add: push_if_def p)

lemma ok_bind:
  "\<exists>t. m = ok t \<and> P t \<Longrightarrow> (\<And>t. P t \<Longrightarrow> \<exists>u. f () t = ok u \<and> Q u) \<Longrightarrow> \<exists>u. bindr m f = ok u \<and> Q u"
  by auto

text \<open>The registers a push does not touch.\<close>

lemma pushed_regs:
  assumes "pushed sp bs s s'" "sp = S \<or> sp = U"
  shows "reg_pc s' = reg_pc s" "reg_y s' = reg_y s" "reg_x s' = reg_x s" "reg_dp s' = reg_dp s"
    "reg_b s' = reg_b s" "reg_a s' = reg_a s" "reg_cc s' = reg_cc s"
  using assms by (auto simp: pushed_def)

definition frame :: "u32 \<Rightarrow> u32 \<Rightarrow> 'z machine_scheme \<Rightarrow> u8 list" where
  "frame op d s =
     (if op AND 0x01 \<noteq> 0 then [ucast (reg_cc s)] else []) @
     (if op AND 0x02 \<noteq> 0 then [ucast (reg_a s)] else []) @
     (if op AND 0x04 \<noteq> 0 then [ucast (reg_b s)] else []) @
     (if op AND 0x08 \<noteq> 0 then [ucast (reg_dp s)] else []) @
     (if op AND 0x10 \<noteq> 0 then bytes16 (reg_x s) else []) @
     (if op AND 0x20 \<noteq> 0 then bytes16 (reg_y s) else []) @
     (if op AND 0x40 \<noteq> 0 then bytes16 d else []) @
     (if op AND 0x80 \<noteq> 0 then bytes16 (ucast (reg_pc s)) else [])"

lemma stack_room_mono: "stack_room sp n s \<Longrightarrow> m \<le> n \<Longrightarrow> stack_room sp m s"
  by (auto simp: stack_room_def)

lemma length_bytes16: "length (bytes16 d) = 2"
  by (simp add: bytes16_def)

lemma inst_psh_pushed:
  assumes sp: "sp = S \<or> sp = U" and room: "stack_room sp 12 s"
  shows "\<exists>t. inst_psh op sp d s = ok t \<and> pushed sp (frame op d s) s t"
proof -
  note room' = stack_room_mono [OF room] and regs = pushed_regs [OF _ sp]
  have pc: "\<exists>t. push_if (op AND 0x80 \<noteq> 0) (\<lambda>s. push16 sp (ucast (reg_pc s)) s) 2 s = ok t \<and>
      pushed sp (if op AND 0x80 \<noteq> 0 then bytes16 (ucast (reg_pc s)) else []) s t"
    using push_if16 [OF pushed_refl, where f = "\<lambda>s. ucast (reg_pc s)" and b = "op AND 0x80 \<noteq> 0"
        and sp = sp and s = s and n = 2] room' [of 2]
    by (simp add: numeral_2_eq_2)
  show ?thesis
    unfolding inst_psh_def frame_def
    by (rule ok_bind, rule pc, rule ok_bind, rule push_if16 [where f = "\<lambda>_. d"], assumption,
      simp add: room' length_bytes16, rule refl,
      (rule ok_bind, rule push_if16 [where f = reg_y] push_if16 [where f = reg_x]
          push_if8 [where f = reg_dp] push_if8 [where f = reg_b] push_if8 [where f = reg_a],
        assumption, simp add: room' length_bytes16, simp add: regs)+,
      rule push_if8 [where f = reg_cc], assumption, simp add: room' length_bytes16, simp add: regs)
qed

subsection \<open>Pulls\<close>

text \<open>
  A state whose stack holds \<open>bs\<close> from its top on. A pull changes registers and
  the cycle count only.
\<close>

definition holds :: "xyus \<Rightarrow> u8 list \<Rightarrow> 'z machine_scheme \<Rightarrow> bool" where
  "holds sp bs s \<longleftrightarrow> mem.gets s (ucast (get_xyus sp s)) (length bs) = bs"

lemma holds_Cons:
  assumes "holds sp (x # bs) s"
  shows "ram s (ucast (get_xyus sp s)) = x"
    and "ram t = ram s \<Longrightarrow> (ucast (get_xyus sp t) :: u16) = ucast (get_xyus sp s) + 1 \<Longrightarrow> holds sp bs t"
  using assms gets_ram [of t s]
  by (auto simp: holds_def mem.gets_Suc peek_ram)

lemma pull8_holds:
  assumes "holds sp (x # bs) s"
  shows "pull8 sp s = (ucast x, set_xyus sp (get_xyus sp s + 1) s)"
  using holds_Cons [OF assms] by (simp add: pull8_def read8_ram)

lemma ucast16_add1: "(ucast (v + 1 :: u32) :: u16) = ucast v + 1"
  by (simp add: ucast16_add)

lemma holds_pulled: "holds sp (x # bs) s \<Longrightarrow> holds sp bs (set_xyus sp (get_xyus sp s + 1) s)"
  by (erule holds_Cons(2)) (simp_all add: ucast16_add1)

lemma ucast16_bytes16:
  "(ucast (push_bit 8 (ucast (ucast (drop_bit 8 d) :: u8)) OR ucast (ucast (d::u32) :: u8) :: u32) :: u16) = ucast d"
  by (rule bit_word_eqI)
    (auto simp: bit_ucast_iff bit_or_iff bit_push_bit_iff bit_drop_bit_eq)

lemma pull16_holds:
  assumes "holds sp (bytes16 d @ bs) s"
  shows "\<exists>v. pull16 sp s = (v, set_xyus sp (get_xyus sp s + 2) s) \<and> (ucast v :: u16) = ucast d"
    and "holds sp bs (set_xyus sp (get_xyus sp s + 2) s)"
proof -
  have h: "holds sp (ucast (drop_bit 8 d) # ucast d # bs) s" using assms by (simp add: bytes16_def)
  note h1 = holds_pulled [OF h]
  show "\<exists>v. pull16 sp s = (v, set_xyus sp (get_xyus sp s + 2) s) \<and> (ucast v :: u16) = ucast d"
    by (simp add: pull16_def pull8_holds [OF h] pull8_holds [OF h1] ucast16_bytes16 add.assoc)
  show "holds sp bs (set_xyus sp (get_xyus sp s + 2) s)"
    using holds_pulled [OF h1] by (simp add: add.assoc)
qed

text \<open>The registers seen as \<open>struct reg6809\<close>, and what a pull of a frame makes of them.\<close>

fun r_sp :: "xyus \<Rightarrow> reg6809 \<Rightarrow> u16" where
  "r_sp X r = r_x r" | "r_sp Y r = r_y r" | "r_sp U r = r_u r" | "r_sp S r = r_s r"

fun with_sp :: "xyus \<Rightarrow> u16 \<Rightarrow> reg6809 \<Rightarrow> reg6809" where
  "with_sp X v r = r\<lparr>r_x := v\<rparr>" | "with_sp Y v r = r\<lparr>r_y := v\<rparr>"
| "with_sp U v r = r\<lparr>r_u := v\<rparr>" | "with_sp S v r = r\<lparr>r_s := v\<rparr>"

abbreviation regs :: "'z machine_scheme \<Rightarrow> reg6809" where
  "regs s \<equiv> e6809_get_regs s"

lemma regs_set_xyus: "regs (set_xyus r v s) = with_sp r (ucast v) (regs s)"
  by (cases r) (simp_all add: e6809_get_regs_def)

lemma r_sp_regs: "r_sp r (regs s) = ucast (get_xyus r s)"
  by (cases r) (simp_all add: e6809_get_regs_def)

lemma r_sp_with_sp [simp]: "r_sp q (with_sp r v x) = (if q = r then v else r_sp q x)"
  by (cases q; cases r) simp_all

lemma regs_add_cycles [simp]: "regs (add_cycles n s) = regs s"
  by (simp add: e6809_get_regs_def)

lemma get_xyus_add_cycles [simp]: "get_xyus r (add_cycles n s) = get_xyus r s"
  by (cases r) simp_all

text \<open>One guarded pull, as a step on the registers and on what the stack holds.\<close>

definition pulls :: "xyus \<Rightarrow> u8 list \<Rightarrow> u8 list \<Rightarrow> (reg6809 \<Rightarrow> reg6809) \<Rightarrow>
    'z machine_scheme \<Rightarrow> 'z machine_scheme \<Rightarrow> bool" where
  "pulls sp xs bs f s t \<longleftrightarrow> holds sp bs t \<and> ram t = ram s \<and>
     regs t = f (with_sp sp (r_sp sp (regs s) + of_nat (length xs)) (regs s))"

lemma pull_if8:
  assumes h: "holds sp ((if b then [x] else []) @ bs) s"
    and upd: "\<And>v s. ram (upd v s) = ram s" "\<And>v s. get_xyus sp (upd v s) = get_xyus sp s"
      "\<And>v s. regs (upd v s) = g (ucast v) (regs s)"
    and g: "\<And>r. f r = (if b then g x r else r)"
  shows "pulls sp (if b then [x] else []) bs f s (pull_if b (\<lambda>s. let (v, s) = pull8 sp s in upd v s) n s)"
proof (cases b)
  case True
  let ?t = "set_xyus sp (get_xyus sp s + 1) s"
  have h1: "holds sp (x # bs) s" using h True by simp
  have "holds sp bs (add_cycles n (upd (ucast x) ?t))"
    using h1 by (rule holds_Cons(2)) (simp_all add: upd(1,2) ucast16_add1)
  then show ?thesis
    using True by (simp add: pulls_def pull_if_def pull8_holds [OF h1] upd g regs_set_xyus r_sp_regs
        ucast16_add1)
next
  case False
  then show ?thesis using h
    by (cases sp) (simp_all add: pulls_def pull_if_def g)
qed

lemma pull_if16:
  fixes g :: "u16 \<Rightarrow> reg6809 \<Rightarrow> reg6809"
  assumes h: "holds sp ((if b then bytes16 d else []) @ bs) s"
    and upd: "\<And>v s. ram (upd v s) = ram s" "\<And>v s. get_xyus sp (upd v s) = get_xyus sp s"
      "\<And>v s. regs (upd v s) = g (ucast v) (regs s)"
    and g: "\<And>r. f r = (if b then g (ucast d) r else r)"
  shows "pulls sp (if b then bytes16 d else []) bs f s
    (pull_if b (\<lambda>s. let (v, s) = pull16 sp s in upd v s) n s)"
proof (cases b)
  case True
  let ?t = "set_xyus sp (get_xyus sp s + 2) s"
  have h1: "holds sp (bytes16 d @ bs) s" using h True by simp
  obtain v where v: "pull16 sp s = (v, ?t)" "(ucast v :: u16) = ucast d"
    using pull16_holds(1) [OF h1] by blast
  have "holds sp bs (add_cycles n (upd v ?t))"
    using pull16_holds(2) [OF h1] gets_ram [of "add_cycles n (upd v ?t)" ?t]
    by (simp add: holds_def upd)
  then show ?thesis
    using True by (simp add: pulls_def pull_if_def v upd g regs_set_xyus r_sp_regs length_bytes16 ucast16_add)
next
  case False
  then show ?thesis using h
    by (cases sp) (simp_all add: pulls_def pull_if_def g)
qed

lemma pulls_trans:
  "pulls sp xs (ys @ bs) f s t \<Longrightarrow> pulls sp ys bs g t u \<Longrightarrow>
   (\<And>v r. f (with_sp sp v r) = with_sp sp v (f r)) \<Longrightarrow>
   pulls sp (xs @ ys) bs (\<lambda>r. g (f r)) s u"
  by (cases sp) (simp_all add: pulls_def add.assoc)


text \<open>
  What a pull of the registers selected by \<open>op\<close> makes of the registers \<open>r\<close>,
  when the stack holds those of \<open>q\<close>.
\<close>

definition restore :: "u32 \<Rightarrow> xyus \<Rightarrow> reg6809 \<Rightarrow> reg6809 \<Rightarrow> reg6809" where
  "restore op osp q r =
     (let r = (if op AND 0x01 \<noteq> 0 then r\<lparr>r_cc := r_cc q\<rparr> else r);
          r = (if op AND 0x02 \<noteq> 0 then r\<lparr>r_a := r_a q\<rparr> else r);
          r = (if op AND 0x04 \<noteq> 0 then r\<lparr>r_b := r_b q\<rparr> else r);
          r = (if op AND 0x08 \<noteq> 0 then r\<lparr>r_dp := r_dp q\<rparr> else r);
          r = (if op AND 0x10 \<noteq> 0 then r\<lparr>r_x := r_x q\<rparr> else r);
          r = (if op AND 0x20 \<noteq> 0 then r\<lparr>r_y := r_y q\<rparr> else r);
          r = (if op AND 0x40 \<noteq> 0 then with_sp osp (r_sp osp q) r else r)
      in if op AND 0x80 \<noteq> 0 then r\<lparr>r_pc := r_pc q\<rparr> else r)"

lemma regs_upds:
  "regs (s\<lparr>reg_cc := v\<rparr>) = (regs s)\<lparr>r_cc := ucast v\<rparr>"
  "regs (s\<lparr>reg_a := v\<rparr>) = (regs s)\<lparr>r_a := ucast v\<rparr>"
  "regs (s\<lparr>reg_b := v\<rparr>) = (regs s)\<lparr>r_b := ucast v\<rparr>"
  "regs (s\<lparr>reg_dp := v\<rparr>) = (regs s)\<lparr>r_dp := ucast v\<rparr>"
  "regs (s\<lparr>reg_x := v\<rparr>) = (regs s)\<lparr>r_x := ucast v\<rparr>"
  "regs (s\<lparr>reg_y := v\<rparr>) = (regs s)\<lparr>r_y := ucast v\<rparr>"
  "regs (s\<lparr>reg_pc := ucast v\<rparr>) = (regs s)\<lparr>r_pc := ucast v\<rparr>"
  by (simp_all add: e6809_get_regs_def)

lemma get_xyus_regs_upds:
  "get_xyus r (s\<lparr>reg_cc := v\<rparr>) = get_xyus r s" "get_xyus r (s\<lparr>reg_a := v\<rparr>) = get_xyus r s"
  "get_xyus r (s\<lparr>reg_b := v\<rparr>) = get_xyus r s" "get_xyus r (s\<lparr>reg_dp := v\<rparr>) = get_xyus r s"
  "get_xyus r (s\<lparr>reg_pc := p\<rparr>) = get_xyus r s"
  "r = S \<or> r = U \<Longrightarrow> get_xyus r (s\<lparr>reg_x := v\<rparr>) = get_xyus r s"
  "r = S \<or> r = U \<Longrightarrow> get_xyus r (s\<lparr>reg_y := v\<rparr>) = get_xyus r s"
  "r \<noteq> q \<Longrightarrow> get_xyus r (set_xyus q v s) = get_xyus r s"
  by (cases r; simp; fail | cases r; cases q; simp)+

lemma pulls_holds: "pulls sp xs bs f s t \<Longrightarrow> holds sp bs t"
  by (simp add: pulls_def)

lemma with_sp_upds:
  "(with_sp r v x)\<lparr>r_cc := w\<rparr> = with_sp r v (x\<lparr>r_cc := w\<rparr>)"
  "(with_sp r v x)\<lparr>r_a := w'\<rparr> = with_sp r v (x\<lparr>r_a := w'\<rparr>)"
  "(with_sp r v x)\<lparr>r_b := w'\<rparr> = with_sp r v (x\<lparr>r_b := w'\<rparr>)"
  "(with_sp r v x)\<lparr>r_dp := w'\<rparr> = with_sp r v (x\<lparr>r_dp := w'\<rparr>)"
  "r = S \<or> r = U \<Longrightarrow> (with_sp r v x)\<lparr>r_x := y\<rparr> = with_sp r v (x\<lparr>r_x := y\<rparr>)"
  "r = S \<or> r = U \<Longrightarrow> (with_sp r v x)\<lparr>r_y := y\<rparr> = with_sp r v (x\<lparr>r_y := y\<rparr>)"
  "(with_sp r v x)\<lparr>r_pc := y\<rparr> = with_sp r v (x\<lparr>r_pc := y\<rparr>)"
  "r \<noteq> q \<Longrightarrow> with_sp q y (with_sp r v x) = with_sp r v (with_sp q y x)"
  by (cases r; simp; fail | cases r; cases q; simp)+

lemmas pull_steps = regs_upds get_xyus_regs_upds regs_set_xyus

lemma pulls_trans':
  assumes "pulls sp xs zs f s t" "pulls sp ys bs g t u" "zs = ys @ bs"
    and "\<And>v r. f (with_sp sp v r) = with_sp sp v (f r)"
  shows "pulls sp (xs @ ys) bs (\<lambda>r. g (f r)) s u"
  using pulls_trans [of sp xs ys bs f s t g u] assms by simp

lemma inst_pul_restores:
  assumes sp: "sp = S \<and> osp = U \<or> sp = U \<and> osp = S"
    and h: "holds sp (frame op (get_xyus osp q) q @ bs) s"
  shows "pulls sp (frame op (get_xyus osp q) q) bs (restore op osp (regs q)) s (inst_pul op sp osp s)"
proof -
  have sp': "sp = S \<or> sp = U" "sp \<noteq> osp" using sp by auto
  define x1 where "x1 = (if op AND 0x01 \<noteq> 0 then [ucast (reg_cc q) :: u8] else [])"
  define x2 where "x2 = (if op AND 0x02 \<noteq> 0 then [ucast (reg_a q) :: u8] else [])"
  define x3 where "x3 = (if op AND 0x04 \<noteq> 0 then [ucast (reg_b q) :: u8] else [])"
  define x4 where "x4 = (if op AND 0x08 \<noteq> 0 then [ucast (reg_dp q) :: u8] else [])"
  define x5 where "x5 = (if op AND 0x10 \<noteq> 0 then bytes16 (reg_x q) else [])"
  define x6 where "x6 = (if op AND 0x20 \<noteq> 0 then bytes16 (reg_y q) else [])"
  define x7 where "x7 = (if op AND 0x40 \<noteq> 0 then bytes16 (get_xyus osp q) else [])"
  define x8 where "x8 = (if op AND 0x80 \<noteq> 0 then bytes16 (ucast (reg_pc q)) else [])"
  note xs = x1_def x2_def x3_def x4_def x5_def x6_def x7_def x8_def
  define s1 where "s1 = pull_if (op AND 0x01 \<noteq> 0) (\<lambda>s. let (v, s) = pull8 sp s in s\<lparr>reg_cc := v\<rparr>) 1 s"
  define s2 where "s2 = pull_if (op AND 0x02 \<noteq> 0) (\<lambda>s. let (v, s) = pull8 sp s in s\<lparr>reg_a := v\<rparr>) 1 s1"
  define s3 where "s3 = pull_if (op AND 0x04 \<noteq> 0) (\<lambda>s. let (v, s) = pull8 sp s in s\<lparr>reg_b := v\<rparr>) 1 s2"
  define s4 where "s4 = pull_if (op AND 0x08 \<noteq> 0) (\<lambda>s. let (v, s) = pull8 sp s in s\<lparr>reg_dp := v\<rparr>) 1 s3"
  define s5 where "s5 = pull_if (op AND 0x10 \<noteq> 0) (\<lambda>s. let (v, s) = pull16 sp s in s\<lparr>reg_x := v\<rparr>) 2 s4"
  define s6 where "s6 = pull_if (op AND 0x20 \<noteq> 0) (\<lambda>s. let (v, s) = pull16 sp s in s\<lparr>reg_y := v\<rparr>) 2 s5"
  define s7 where "s7 = pull_if (op AND 0x40 \<noteq> 0) (\<lambda>s. let (v, s) = pull16 sp s in set_xyus osp v s) 2 s6"
  define s8 where "s8 = pull_if (op AND 0x80 \<noteq> 0) (\<lambda>s. let (v, s) = pull16 sp s in s\<lparr>reg_pc := ucast v\<rparr>) 2 s7"
  define f1 where "f1 = (\<lambda>r::reg6809. if op AND 0x01 \<noteq> 0 then r\<lparr>r_cc := r_cc (regs q)\<rparr> else r)"
  define f2 where "f2 = (\<lambda>r::reg6809. if op AND 0x02 \<noteq> 0 then r\<lparr>r_a := r_a (regs q)\<rparr> else r)"
  define f3 where "f3 = (\<lambda>r::reg6809. if op AND 0x04 \<noteq> 0 then r\<lparr>r_b := r_b (regs q)\<rparr> else r)"
  define f4 where "f4 = (\<lambda>r::reg6809. if op AND 0x08 \<noteq> 0 then r\<lparr>r_dp := r_dp (regs q)\<rparr> else r)"
  define f5 where "f5 = (\<lambda>r::reg6809. if op AND 0x10 \<noteq> 0 then r\<lparr>r_x := r_x (regs q)\<rparr> else r)"
  define f6 where "f6 = (\<lambda>r::reg6809. if op AND 0x20 \<noteq> 0 then r\<lparr>r_y := r_y (regs q)\<rparr> else r)"
  define f7 where "f7 = (\<lambda>r::reg6809. if op AND 0x40 \<noteq> 0 then with_sp osp (r_sp osp (regs q)) r else r)"
  define f8 where "f8 = (\<lambda>r::reg6809. if op AND 0x80 \<noteq> 0 then r\<lparr>r_pc := r_pc (regs q)\<rparr> else r)"
  note fs = f1_def f2_def f3_def f4_def f5_def f6_def f7_def f8_def
  have p1: "pulls sp x1 (x2 @ x3 @ x4 @ x5 @ x6 @ x7 @ x8 @ bs) f1 s s1" unfolding x1_def s1_def
    by (rule pull_if8 [where g = "\<lambda>x r. r\<lparr>r_cc := x\<rparr>"])
      (use h in \<open>simp_all add: pull_steps xs fs frame_def e6809_get_regs_def\<close>)
  have p2: "pulls sp x2 (x3 @ x4 @ x5 @ x6 @ x7 @ x8 @ bs) f2 s1 s2" unfolding x2_def s2_def
    by (rule pull_if8 [where g = "\<lambda>x r. r\<lparr>r_a := x\<rparr>"])
      (use pulls_holds [OF p1] in \<open>simp_all add: pull_steps xs fs frame_def e6809_get_regs_def\<close>)
  have p3: "pulls sp x3 (x4 @ x5 @ x6 @ x7 @ x8 @ bs) f3 s2 s3" unfolding x3_def s3_def
    by (rule pull_if8 [where g = "\<lambda>x r. r\<lparr>r_b := x\<rparr>"])
      (use pulls_holds [OF p2] in \<open>simp_all add: pull_steps xs fs frame_def e6809_get_regs_def\<close>)
  have p4: "pulls sp x4 (x5 @ x6 @ x7 @ x8 @ bs) f4 s3 s4" unfolding x4_def s4_def
    by (rule pull_if8 [where g = "\<lambda>x r. r\<lparr>r_dp := x\<rparr>"])
      (use pulls_holds [OF p3] in \<open>simp_all add: pull_steps xs fs frame_def e6809_get_regs_def\<close>)
  have p5: "pulls sp x5 (x6 @ x7 @ x8 @ bs) f5 s4 s5" unfolding x5_def s5_def
    by (rule pull_if16 [where g = "\<lambda>x r. r\<lparr>r_x := x\<rparr>"])
      (use pulls_holds [OF p4] in \<open>simp_all add: pull_steps xs fs frame_def e6809_get_regs_def sp'\<close>)
  have p6: "pulls sp x6 (x7 @ x8 @ bs) f6 s5 s6" unfolding x6_def s6_def
    by (rule pull_if16 [where g = "\<lambda>x r. r\<lparr>r_y := x\<rparr>"])
      (use pulls_holds [OF p5] in \<open>simp_all add: pull_steps xs fs frame_def e6809_get_regs_def sp'\<close>)
  have p7: "pulls sp x7 (x8 @ bs) f7 s6 s7" unfolding x7_def s7_def
    by (rule pull_if16 [where g = "\<lambda>x r. with_sp osp x r"])
      (use pulls_holds [OF p6] in \<open>simp_all add: pull_steps xs fs frame_def r_sp_regs sp'\<close>)
  have p8: "pulls sp x8 bs f8 s7 s8" unfolding x8_def s8_def
    by (rule pull_if16 [where g = "\<lambda>x r. r\<lparr>r_pc := x\<rparr>"])
      (use pulls_holds [OF p7] in \<open>simp_all add: pull_steps xs fs frame_def e6809_get_regs_def\<close>)
  have q7: "pulls sp (x7 @ x8) bs (\<lambda>r. f8 (f7 r)) s6 s8"
    by (rule pulls_trans' [OF p7 p8]) (use sp' in \<open>simp_all add: fs with_sp_upds\<close>)
  have q6: "pulls sp (x6 @ x7 @ x8) bs (\<lambda>r. f8 (f7 (f6 r))) s5 s8"
    by (rule pulls_trans' [OF p6 q7]) (use sp' in \<open>simp_all add: fs with_sp_upds\<close>)
  have q5: "pulls sp (x5 @ x6 @ x7 @ x8) bs (\<lambda>r. f8 (f7 (f6 (f5 r)))) s4 s8"
    by (rule pulls_trans' [OF p5 q6]) (use sp' in \<open>simp_all add: fs with_sp_upds\<close>)
  have q4: "pulls sp (x4 @ x5 @ x6 @ x7 @ x8) bs (\<lambda>r. f8 (f7 (f6 (f5 (f4 r))))) s3 s8"
    by (rule pulls_trans' [OF p4 q5]) (use sp' in \<open>simp_all add: fs with_sp_upds\<close>)
  have q3: "pulls sp (x3 @ x4 @ x5 @ x6 @ x7 @ x8) bs (\<lambda>r. f8 (f7 (f6 (f5 (f4 (f3 r)))))) s2 s8"
    by (rule pulls_trans' [OF p3 q4]) (use sp' in \<open>simp_all add: fs with_sp_upds\<close>)
  have q2: "pulls sp (x2 @ x3 @ x4 @ x5 @ x6 @ x7 @ x8) bs (\<lambda>r. f8 (f7 (f6 (f5 (f4 (f3 (f2 r))))))) s1 s8"
    by (rule pulls_trans' [OF p2 q3]) (use sp' in \<open>simp_all add: fs with_sp_upds\<close>)
  have q1: "pulls sp (x1 @ x2 @ x3 @ x4 @ x5 @ x6 @ x7 @ x8) bs (\<lambda>r. f8 (f7 (f6 (f5 (f4 (f3 (f2 (f1 r)))))))) s s8"
    by (rule pulls_trans' [OF p1 q2]) (use sp' in \<open>simp_all add: fs with_sp_upds\<close>)
  have "(\<lambda>r. f8 (f7 (f6 (f5 (f4 (f3 (f2 (f1 r)))))))) = restore op osp (regs q)"
    unfolding fs restore_def Let_def ..
  moreover have "inst_pul op sp osp s = s8"
    unfolding inst_pul_def Let_def s1_def s2_def s3_def s4_def s5_def s6_def s7_def s8_def ..
  ultimately show ?thesis
    using q1 unfolding frame_def xs [symmetric] by simp
qed


subsection \<open>Round trips\<close>

lemma length_frame: "length (frame op d s) \<le> 12"
  by (simp add: frame_def length_bytes16)

lemma restore_with_sp:
  "sp = S \<and> osp = U \<or> sp = U \<and> osp = S \<Longrightarrow>
   restore op osp q (with_sp sp v r) = with_sp sp v (restore op osp q r)"
  by (auto simp: restore_def Let_def with_sp_upds)

lemma with_sp_with_sp [simp]: "with_sp r v (with_sp r w x) = with_sp r v x"
  by (cases r) simp_all

text \<open>
  The state \<open>u\<close> still has the stack that the pushes left in \<open>t\<close>: the same stack
  pointer and the same \<open>n\<close> bytes above it. What lies below, and every other
  register, may have changed.
\<close>

definition same_stack :: "xyus \<Rightarrow> nat \<Rightarrow> 'z machine_scheme \<Rightarrow> 'z machine_scheme \<Rightarrow> bool" where
  "same_stack sp n t u \<longleftrightarrow> r_sp sp (regs u) = r_sp sp (regs t) \<and>
     (\<forall>i<n. ram u (r_sp sp (regs t) + of_nat i) = ram t (r_sp sp (regs t) + of_nat i))"

lemma holds_same_stack:
  assumes "holds sp bs t" "same_stack sp n t u" "length bs \<le> n"
  shows "holds sp (bs @ []) u"
proof -
  have "mem.gets u (ucast (get_xyus sp u)) (length bs) = mem.gets t (ucast (get_xyus sp t)) (length bs)"
    unfolding mem.gets_def peek_ram using assms(2,3)
    by (intro map_cong refl) (simp add: same_stack_def r_sp_regs)
  then show ?thesis using assms(1) by (simp add: holds_def)
qed

lemma same_stack_eq:
  "regs t = regs t' \<Longrightarrow> ram t = ram t' \<Longrightarrow> same_stack sp n t u = same_stack sp n t' u"
  by (simp add: same_stack_def)

lemma pushed_pul:
  assumes sp: "sp = S \<and> osp = U \<or> sp = U \<and> osp = S"
    and t: "pushed sp (frame op (get_xyus osp s) s) s t" and u: "same_stack sp 12 t u"
  shows "regs (inst_pul op sp osp u) = with_sp sp (r_sp sp (regs s)) (restore op osp (regs s) (regs u))"
    and "ram (inst_pul op sp osp u) = ram u"
proof -
  let ?f = "frame op (get_xyus osp s) s"
  have "holds sp ?f t" using t unfolding pushed_def holds_def by blast
  then have "holds sp (?f @ []) u"
    using u length_frame by (rule holds_same_stack)
  then have p: "pulls sp ?f [] (restore op osp (regs s)) u (inst_pul op sp osp u)"
    by (rule inst_pul_restores [OF sp])
  have "r_sp sp (regs u) + of_nat (length ?f) = r_sp sp (regs s)"
    using t u by (simp add: pushed_def same_stack_def r_sp_regs)
  then show "regs (inst_pul op sp osp u) = with_sp sp (r_sp sp (regs s)) (restore op osp (regs s) (regs u))"
    using p by (simp add: pulls_def restore_with_sp [OF sp])
  show "ram (inst_pul op sp osp u) = ram u" using p by (simp add: pulls_def)
qed

lemma restore_all:
  "sp = S \<and> osp = U \<or> sp = U \<and> osp = S \<Longrightarrow>
   with_sp sp (r_sp sp q) (restore 0xFF osp q r) = q"
  by (auto simp: restore_def Let_def)

lemma quiet_fields [simp]:
  "quiet (set_cc f v s) = quiet s" "quiet (s\<lparr>reg_pc := p\<rparr>) = quiet s"
  "quiet (add_cycles n s) = quiet s" "quiet (s\<lparr>irq_status := i\<rparr>) = quiet s"
  by (simp_all add: quiet_def)

lemma get_xyus_set_cc [simp]: "get_xyus r (set_cc f v s) = get_xyus r s"
  by (cases r) simp_all

lemma stack_room_set_cc [simp]: "stack_room sp n (set_cc f v s) = stack_room sp n s"
  by (simp add: stack_room_def)

lemma take_irq_frame:
  assumes "stack_room S 12 s" "get_cc FLAG_I s = 0" "irq_status s \<noteq> IRQ_CWAI"
  shows "\<exists>t p. take_irq s = ok t \<and> pushed S (frame 0xFF (reg_u s) (set_cc FLAG_E 1 s)) (set_cc FLAG_E 1 s) p \<and>
    r_sp S (regs t) = r_sp S (regs p) \<and> ram t = ram p \<and> reg_pc t = ucast (read16 0xFFF8 t) \<and>
    get_cc FLAG_I t = 1 \<and> irq_status t = IRQ_NORMAL"
proof -
  obtain p where p: "inst_psh 0xFF S (reg_u s) (set_cc FLAG_E 1 s) = ok p"
      "pushed S (frame 0xFF (reg_u s) (set_cc FLAG_E 1 s)) (set_cc FLAG_E 1 s) p"
    using inst_psh_pushed [of S "set_cc FLAG_E 1 s"] assms(1) by auto
  let ?q = "set_cc FLAG_I 1 p"
  let ?t = "add_cycles 7 (?q\<lparr>reg_pc := ucast (read16 0xFFF8 ?q), irq_status := IRQ_NORMAL\<rparr>)"
  have "take_irq s = ok ?t"
    using assms(2,3) p(1) by (simp add: take_irq_def Let_def)
  moreover have "r_sp S (regs ?t) = r_sp S (regs p)" "ram ?t = ram p"
    by (simp_all add: e6809_get_regs_def)
  moreover have "reg_pc ?t = ucast (read16 0xFFF8 ?t)"
    by (simp add: read16_def read8_ram)
  moreover have "get_cc FLAG_I ?t = 1"
    using cc.get_put [of FLAG_I FLAG_I 1 p] by (simp add: cc_flags_def get_cc_def)
  ultimately show ?thesis using p(2) by (intro exI [of _ ?t] exI [of _ p]) simp
qed


lemma inst_rti_full:
  "get_cc FLAG_E u \<noteq> 0 \<Longrightarrow> inst_rti u = ok (add_cycles 3 (inst_pul 0xFF S U u))"
  by (simp add: inst_rti_def)

lemma pc_read8_ram: "pc_read8 s = (ucast (ram s (reg_pc s)), s\<lparr>reg_pc := reg_pc s + 1\<rparr>)"
  by (simp add: pc_read8_def read8_ram)

lemma pc_read16_ram:
  "pc_read16 s = (push_bit 8 (ucast (ram s (reg_pc s))) OR ucast (ram s (reg_pc s + 1)),
     s\<lparr>reg_pc := reg_pc s + 2\<rparr>)"
  by (simp add: pc_read16_def read16_def read8_ram ucast16_add1)

lemma quiet_power_on: "quiet power_on"
  by (simp add: quiet_def power_on_def armed_def brk_initial_def)

lemma stack_room_power_on:
  "stack_room S 12 (power_on\<lparr>reg_s := 0x8000, reg_cc := cc, reg_pc := pc, ram := m\<rparr>)"
proof -
  have "{1..12} = {1, 2, 3, 4, 5, 6, 7, 8, 9, 10, 11, 12 :: nat}"
    by (rule set_eqI) (simp, presburger)
  then show ?thesis
    using quiet_power_on by (simp add: stack_room_def quiet_def plain_def)
qed

lemma exec_jsr_extended:
  "ram s (reg_pc s) = 0xBD \<Longrightarrow> exec_page0 dosys s = jsr_ea ea_extended 8 (s\<lparr>reg_pc := reg_pc s + 1\<rparr>)"
  by (simp add: exec_page0_def pc_read8_ram opcode_tables)

lemma exec_rts:
  "ram s (reg_pc s) = 0x39 \<Longrightarrow> exec_page0 dosys s =
    (let (v, s) = pull16 S (s\<lparr>reg_pc := reg_pc s + 1\<rparr>) in ok (add_cycles 5 (s\<lparr>reg_pc := ucast v\<rparr>)))"
  by (simp add: exec_page0_def pc_read8_ram opcode_tables)

lemma ucast16_word: "(ucast (push_bit 8 (ucast (h::u8)) OR ucast (l::u8) :: u32) :: u16) = word_cat h l"
  by (rule bit_word_eqI)
    (auto simp: bit_ucast_iff bit_or_iff bit_push_bit_iff bit_word_cat_iff dest: bit_imp_le_length)

subsection \<open>Properties\<close>

text \<open>
  C2. A push of any set of registers on either stack succeeds when the twelve
  bytes below the stack pointer are plain memory, and a pull with the same post
  byte, from any later state with the same stack, gives every selected register
  its value at the push, leaves the others alone and puts the stack pointer back.
\<close>

theorem push_pull_round_trip:
  assumes "sp = S \<and> osp = U \<or> sp = U \<and> osp = S" and "stack_room sp 12 s"
  shows "\<exists>t. inst_psh op sp (get_xyus osp s) s = ok t \<and>
    (\<forall>u. same_stack sp 12 t u \<longrightarrow>
       regs (inst_pul op sp osp u) =
         with_sp sp (r_sp sp (regs s)) (restore op osp (regs s) (regs u)) \<and>
       ram (inst_pul op sp osp u) = ram u)"
proof -
  obtain t where "inst_psh op sp (get_xyus osp s) s = ok t"
      "pushed sp (frame op (get_xyus osp s) s) s t"
    using inst_psh_pushed [of sp s op "get_xyus osp s"] assms by blast
  then show ?thesis using pushed_pul [OF assms(1)] by blast
qed

text \<open>
  C3. An interrupt is transparent: when it is taken, the processor continues at
  the vector with interrupts masked, and \<open>rti\<close>, from any state of the handler
  that has the same stack and E still set, restores every register the program
  had, but for the E flag that the interrupt sets.
\<close>

theorem irq_then_rti:
  assumes "stack_room S 12 s" "get_cc FLAG_I s = 0" "irq_status s \<noteq> IRQ_CWAI"
  shows "\<exists>t. take_irq s = ok t \<and> reg_pc t = ucast (read16 0xFFF8 t) \<and> get_cc FLAG_I t = 1 \<and>
    (\<forall>u. same_stack S 12 t u \<and> get_cc FLAG_E u \<noteq> 0 \<longrightarrow>
       (\<exists>v. inst_rti u = ok v \<and> regs v = regs (set_cc FLAG_E 1 s) \<and> ram v = ram u))"
proof -
  obtain t p where t: "take_irq s = ok t" "reg_pc t = ucast (read16 0xFFF8 t)" "get_cc FLAG_I t = 1"
    and p: "pushed S (frame 0xFF (reg_u s) (set_cc FLAG_E 1 s)) (set_cc FLAG_E 1 s) p"
    and tp: "r_sp S (regs t) = r_sp S (regs p)" "ram t = ram p"
    using take_irq_frame [OF assms] by blast
  have "\<exists>v. inst_rti u = ok v \<and> regs v = regs (set_cc FLAG_E 1 s) \<and> ram v = ram u"
    if u: "same_stack S 12 t u" "get_cc FLAG_E u \<noteq> 0" for u
  proof -
    have "same_stack S 12 p u" using u(1) tp by (simp add: same_stack_def)
    with p have "regs (inst_pul 0xFF S U u) = regs (set_cc FLAG_E 1 s)" "ram (inst_pul 0xFF S U u) = ram u"
      using pushed_pul [of S U "0xFF" "set_cc FLAG_E 1 s" p u] restore_all [of S U] by auto
    then show ?thesis using u(2) by (simp add: inst_rti_full)
  qed
  then show ?thesis using t by blast
qed


theorem push_pull_round_trip_witness:
  "\<exists>t. inst_psh 0xFF S 0 (power_on\<lparr>reg_s := 0x8000, reg_cc := 0, reg_pc := 0x100, ram := (\<lambda>_. 0)\<rparr>) = ok t"
  using push_pull_round_trip [of S U "power_on\<lparr>reg_s := 0x8000, reg_cc := 0, reg_pc := 0x100, ram := (\<lambda>_. 0)\<rparr>" "0xFF",
      OF _ stack_room_power_on]
  by (auto simp: power_on_def)

theorem irq_then_rti_witness:
  "\<exists>t. take_irq (power_on\<lparr>reg_s := 0x8000, reg_cc := 0, reg_pc := 0x100, ram := (\<lambda>_. 0)\<rparr>) = ok t \<and>
     get_cc FLAG_I t = 1"
  using irq_then_rti [OF stack_room_power_on [where cc = 0 and pc = "0x100" and m = "\<lambda>_. 0"]]
  by (auto simp: power_on_def get_cc_def)


text \<open>
  C4. A subroutine call returns: \<open>jsr\<close> with an extended address goes to that
  address, and an \<open>rts\<close> executed anywhere with the same two bytes on the stack
  continues after the call, with the stack pointer as before it and every other
  register as at the \<open>rts\<close>.
\<close>

theorem jsr_then_rts:
  assumes "ram s (reg_pc s) = 0xBD" and "stack_room S 2 s"
  shows "\<exists>t. exec_page0 dosys s = ok t \<and>
    reg_pc t = word_cat (ram s (reg_pc s + 1)) (ram s (reg_pc s + 2)) \<and>
    (\<forall>u. same_stack S 2 t u \<and> ram u (reg_pc u) = 0x39 \<longrightarrow>
      (\<exists>v. exec_page0 dosys u = ok v \<and> ram v = ram u \<and>
         regs v = (regs u)\<lparr>r_s := r_s (regs s), r_pc := reg_pc s + 3\<rparr>))"
proof -
  let ?s = "s\<lparr>reg_pc := reg_pc s + 3\<rparr>"
  have "pushed S [] ?s ?s" "stack_room S (length ([] :: u8 list) + 2) ?s"
    using assms(2) pushed_refl by (simp_all add: stack_room_def numeral_2_eq_2)
  then obtain p where p: "push16 S (ucast (reg_pc ?s)) ?s = ok p"
      "pushed S (bytes16 (ucast (reg_pc ?s))) ?s p"
    using push16_pushed [of S "[]" ?s ?s "ucast (reg_pc ?s)"] by (auto simp: bytes16_def)
  define t where "t = add_cycles 8 (p\<lparr>reg_pc := word_cat (ram s (reg_pc s + 1)) (ram s (reg_pc s + 2))\<rparr>)"
  have t: "exec_page0 dosys s = ok t"
    using assms(1) p(1)
    by (simp add: exec_jsr_extended jsr_ea_def ea_extended_def pc_read16_ram ucast16_word t_def add.assoc)
  have "holds S (bytes16 (ucast (reg_pc ?s))) p"
    using p(2) unfolding pushed_def holds_def by blast
  then have holds: "holds S (bytes16 (ucast (reg_pc s + 3))) p" by simp
  have "\<exists>v. exec_page0 dosys u = ok v \<and> ram v = ram u \<and>
      regs v = (regs u)\<lparr>r_s := r_s (regs s), r_pc := reg_pc s + 3\<rparr>"
    if u: "same_stack S 2 t u" "ram u (reg_pc u) = 0x39" for u
  proof -
    let ?u = "u\<lparr>reg_pc := reg_pc u + 1\<rparr>"
    have "same_stack S 2 p ?u"
      using u(1) by (simp add: same_stack_def t_def r_sp_regs)
    then have "holds S (bytes16 (ucast (reg_pc s + 3)) @ []) ?u"
      by (rule holds_same_stack [OF holds]) (simp add: length_bytes16)
    then obtain v where v: "pull16 S ?u = (v, set_xyus S (reg_s ?u + 2) ?u)" "(ucast v :: u16) = reg_pc s + 3"
      using pull16_holds(1) by fastforce
    have "(ucast (reg_s u) :: u16) + 2 = ucast (reg_s s)"
      using p(2) u(1) by (simp add: pushed_def same_stack_def r_sp_regs t_def length_bytes16)
    then show ?thesis
      using u(2) v by (simp add: exec_rts e6809_get_regs_def ucast16_add)
  qed
  then show ?thesis using t by (auto simp: t_def)
qed

theorem jsr_then_rts_witness:
  "\<exists>t. exec_page0 (\<lambda>n s. Inr ((0, False, 0), s))
     (power_on\<lparr>reg_s := 0x8000, reg_pc := 0x100, ram := (\<lambda>_. 0)(0x100 := 0xBD, 0x101 := 0x12, 0x102 := 0x34)\<rparr>)
     = ok t \<and> reg_pc t = 0x1234"
proof -
  let ?m = "(\<lambda>_. 0)(0x100 := 0xBD, 0x101 := 0x12, 0x102 := 0x34) :: u16 \<Rightarrow> u8"
  let ?s = "power_on\<lparr>reg_s := 0x8000, reg_pc := 0x100, ram := ?m\<rparr>"
  have "stack_room S 2 ?s"
    using stack_room_power_on [where cc = 0 and pc = "0x100" and m = ?m]
    by (simp add: stack_room_def quiet_def)
  moreover have "word_cat (0x12 :: u8) (0x34 :: u8) = (0x1234 :: u16)"
    by (simp add: word_cat_eq)
  ultimately show ?thesis
    using jsr_then_rts [of ?s "\<lambda>n s. Inr ((0, False, 0), s)"] by (auto simp: power_on_def)
qed

end
