(* ===== verification/Len.thy ===== *)
theory Len
  imports Stack
begin

text \<open>
  By how much each body of the processor's switches (\<open>emulators/e6809.c\<close>) moves
  the program counter, helper by helper and table by table.
\<close>

subsection \<open>Instruction lengths\<close>

text \<open>A body that ends normally has moved the program counter by \<open>n\<close> of its start.\<close>

definition adv :: "('z machine_scheme \<Rightarrow> u16) \<Rightarrow> ('z machine_scheme \<Rightarrow> ('z machine_scheme, 'r) res) \<Rightarrow> bool" where
  "adv n f \<longleftrightarrow> (\<forall>s r t. f s = Inr (r, t) \<longrightarrow> reg_pc t = reg_pc s + n s)"

definition keeps_pc :: "('z machine_scheme \<Rightarrow> 'z machine_scheme) \<Rightarrow> bool" where
  "keeps_pc f \<longleftrightarrow> (\<forall>s. reg_pc (f s) = reg_pc s)"

text \<open>The bytes of an indexed operand, by its post byte, as \<open>ea_indexed\<close> reads them.\<close>

definition post_len :: "u32 \<Rightarrow> u16" where
  "post_len op =
     (if op AND 0x80 = 0 then 1 else if op = 0x9F then 3
      else if op AND 0x9F \<in> {0x88, 0x98, 0x8C, 0x9C} then 2
      else if op AND 0x9F \<in> {0x89, 0x99, 0x8D, 0x9D} then 3 else 1)"

definition idx_len :: "'z machine_scheme \<Rightarrow> u16" where
  "idx_len s = post_len (fst (pc_read8 s))"

lemma advI: "(\<And>s r t. f s = Inr (r, t) \<Longrightarrow> reg_pc t = reg_pc s + n s) \<Longrightarrow> adv n f"
  by (simp add: adv_def)

lemma advD: "adv n f \<Longrightarrow> f s = Inr (r, t) \<Longrightarrow> reg_pc t = reg_pc s + n s"
  by (simp add: adv_def)

lemma adv_bind: "adv n f \<Longrightarrow> (\<And>x. adv (\<lambda>_. 0) (g x)) \<Longrightarrow> adv n (\<lambda>s. bindr (f s) g)"
  unfolding adv_def by (auto simp: bindr_eq_Inr)

lemma reg_pc_set_xyus [simp]: "reg_pc (set_xyus r v s) = reg_pc s"
  by (cases r) simp_all

lemma reg_pc_set_reg_d [simp]: "reg_pc (set_reg_d v s) = reg_pc s"
  by (simp add: set_reg_d_def)

lemma pc_reads [simp]: "reg_pc (snd (pc_read8 s)) = reg_pc s + 1" "reg_pc (snd (pc_read16 s)) = reg_pc s + 2"
  by (simp_all add: pc_read8_def pc_read16_def)

lemma adv_direct [simp]: "adv (\<lambda>_. 1) ea_direct"
  by (rule advI) (auto simp: ea_direct_def split_beta)

lemma adv_extended [simp]: "adv (\<lambda>_. 2) ea_extended"
  by (rule advI) (metis ea_extended_def Inr_inject pc_reads(2) snd_conv)

lemma adv_imm [simp]: "adv (\<lambda>_. 1) imm8" "adv (\<lambda>_. 2) imm16"
  by (rule advI; metis imm8_def imm16_def Inr_inject pc_reads snd_conv)+

lemma adv_die [simp]: "adv n (die m)"
  by (simp add: adv_def die_def)

lemma indexed_modes_adv:
  "\<forall>(k, f) \<in> set (ea_indexed_modes op r). adv (\<lambda>_.
     if k \<in> {0x88, 0x98, 0x8C, 0x9C} then 1 else if k \<in> {0x89, 0x99, 0x8D, 0x9D} then 2 else 0) f"
  unfolding ea_indexed_modes_def Let_def split_beta adv_def
  by (simp del: pc_read8_def)

lemma switch_key:
  assumes "\<forall>(l, f) \<in> set tab. P l f" and "P k dflt"
  shows "P k (switch tab dflt k)"
  using assms by (auto simp: switch_def split: option.splits dest: map_of_SomeD)

lemma adv_indexed [simp]: "adv idx_len ea_indexed"
proof (rule advI)
  fix s :: "'a machine_scheme" and a t
  assume ea: "ea_indexed s = Inr (a, t)"
  define op where "op = fst (pc_read8 s)"
  define r where "r = rptr_xyus (drop_bit 5 op AND 3)"
  define s1 where "s1 = snd (pc_read8 s)"
  have pc: "reg_pc s1 = reg_pc s + 1" by (simp add: s1_def)
  have e: "ea_indexed s =
      (if op AND 0x80 = 0 then Inr (ea_indexed_7 op r s1)
       else if op = 0x9F then (let (w, s) = pc_read16 s1 in Inr (read16 w s, add_cycles 5 s))
       else switch (ea_indexed_modes op r) (die ''undefined post-byte'') (op AND 0x9F) s1)"
    by (simp add: ea_indexed_def op_def r_def s1_def split_beta Let_def)
  have sw: "adv (\<lambda>_. if k \<in> {0x88, 0x98, 0x8C, 0x9C} then 1
      else if k \<in> {0x89, 0x99, 0x8D, 0x9D} then 2 else 0)
      (switch (ea_indexed_modes op r) (die m) k)" for k m
    by (rule switch_key [OF indexed_modes_adv]) simp
  show "reg_pc t = reg_pc s + idx_len s"
    using ea advD [OF sw [of "op AND 0x9F" "''undefined post-byte''"], of s1 a t] pc unfolding e idx_len_def op_def [symmetric] post_len_def
    by (auto simp: ea_indexed_7_def split_beta Let_def split: if_splits)
qed

lemma adv_mem [simp]: "adv n ea \<Longrightarrow> adv n (mem8 ea)" "adv n ea \<Longrightarrow> adv n (mem16 ea)"
  unfolding mem8_def mem16_def by (erule adv_bind; simp add: adv_def)+

lemma adv_write8: "adv (\<lambda>_. 0) (write8 a d)"
  unfolding adv_def write8_def Let_def e6809_write8_def check_brk_def split_beta
  by (auto simp: bindr_def put_stdout_def split: if_splits sum.splits prod.splits)

lemma adv_write16: "adv (\<lambda>_. 0) (write16 a d)"
  unfolding write16_def by (rule adv_bind) (rule adv_write8)+

text \<open>The arithmetic helpers only change condition codes.\<close>

definition pure1 :: "(u32 \<Rightarrow> 'z machine_scheme \<Rightarrow> u32 \<times> 'z machine_scheme) \<Rightarrow> bool" where
  "pure1 inst \<longleftrightarrow> (\<forall>x s. reg_pc (snd (inst x s)) = reg_pc s)"

definition pure2 :: "(u32 \<Rightarrow> u32 \<Rightarrow> 'z machine_scheme \<Rightarrow> u32 \<times> 'z machine_scheme) \<Rightarrow> bool" where
  "pure2 inst \<longleftrightarrow> (\<forall>x y s. reg_pc (snd (inst x y s)) = reg_pc s)"

lemma pure1_insts [simp]:
  "pure1 inst_neg" "pure1 inst_com" "pure1 inst_lsr" "pure1 inst_ror" "pure1 inst_asr"
  "pure1 inst_asl" "pure1 inst_rol" "pure1 inst_dec" "pure1 inst_inc"
  by (simp_all add: pure1_def inst_neg_def inst_com_def inst_lsr_def inst_ror_def inst_asr_def
      inst_asl_def inst_rol_def inst_dec_def inst_inc_def Let_def)

lemma reg_pc_tst [simp]: "reg_pc (inst_tst8 d s) = reg_pc s" "reg_pc (inst_tst16 w s) = reg_pc s"
  "reg_pc (inst_clr s) = reg_pc s"
  by (simp_all add: inst_tst8_def inst_tst16_def inst_clr_def Let_def)

lemma pure2_insts [simp]:
  "pure2 inst_sub8" "pure2 inst_sbc" "pure2 inst_and" "pure2 inst_eor" "pure2 inst_adc"
  "pure2 inst_or" "pure2 inst_add8" "pure2 inst_add16" "pure2 inst_sub16"
  by (simp_all add: pure2_def inst_sub8_def inst_sbc_def inst_and_def inst_eor_def inst_adc_def
      inst_or_def inst_add8_def inst_add16_def inst_sub16_def Let_def)

lemma adv_ok: "(\<And>s. reg_pc (f s) = reg_pc s) \<Longrightarrow> adv (\<lambda>_. 0) (\<lambda>s. ok (f s))"
  by (simp add: adv_def)

lemma adv_bodies [simp]:
  "adv n ea \<Longrightarrow> pure1 inst \<Longrightarrow> adv n (rmw ea inst c)"
  "adv n ea \<Longrightarrow> adv n (tst_mem ea c)"
  "adv n ea \<Longrightarrow> adv n (clr_mem ea c)"
  "adv n opd \<Longrightarrow> pure2 inst2 \<Longrightarrow> adv n (alu_a inst2 opd c)"
  "adv n opd \<Longrightarrow> pure2 inst2 \<Longrightarrow> adv n (alu_b inst2 opd c)"
  "adv n opd \<Longrightarrow> pure2 inst2 \<Longrightarrow> adv n (alu_d inst2 opd c)"
  "adv n opd \<Longrightarrow> pure2 inst2 \<Longrightarrow> adv n (cmp_with reg inst2 opd c)"
  "adv n opd \<Longrightarrow> adv n (ld_a opd c)"
  "adv n opd \<Longrightarrow> adv n (ld_b opd c)"
  "adv n opd \<Longrightarrow> adv n (ld_d opd c)"
  "adv n opd \<Longrightarrow> adv n (ld_r r opd c)"
  "adv n ea \<Longrightarrow> adv n (st8 reg ea c)"
  "adv n ea \<Longrightarrow> adv n (st16 reg ea c)"
  unfolding rmw_def tst_mem_def clr_mem_def alu_a_def alu_b_def alu_d_def cmp_with_def ld_a_def
    ld_b_def ld_d_def ld_r_def st8_def st16_def Let_def split_beta
  by (erule adv_bind, auto simp: pure1_def pure2_def adv_def bindr_eq_Inr split_beta
      dest: advD [OF adv_write8] advD [OF adv_write16])+

lemma adv_on [simp]:
  "pure1 inst \<Longrightarrow> adv (\<lambda>_. 0) (on_a inst c)" "pure1 inst \<Longrightarrow> adv (\<lambda>_. 0) (on_b inst c)"
  by (auto simp: adv_def on_a_def on_b_def pure1_def split_beta)

lemma adv_lea [simp]: "adv idx_len (lea r)" "adv idx_len (lea_z r)"
  unfolding lea_def lea_z_def Let_def by (rule adv_bind [OF adv_indexed], simp add: adv_def)+


lemma adv_push8: "adv (\<lambda>_. 0) (push8 sp d)"
  unfolding push8_def Let_def adv_def by (auto dest: advD [OF adv_write8])

lemma adv_push16: "adv (\<lambda>_. 0) (push16 sp d)"
  unfolding push16_def by (rule adv_bind) (rule adv_push8)+

lemma adv_push_if8: "adv (\<lambda>_. 0) (push_if b (\<lambda>s. push8 sp (f s) s) n)"
  by (auto simp: adv_def push_if_def bindr_eq_Inr dest: advD [OF adv_push8])

lemma adv_push_if16: "adv (\<lambda>_. 0) (push_if b (\<lambda>s. push16 sp (f s) s) n)"
  by (auto simp: adv_def push_if_def bindr_eq_Inr dest: advD [OF adv_push16])

lemma adv_psh: "adv (\<lambda>_. 0) (inst_psh op sp d)"
  unfolding inst_psh_def
  by (rule adv_bind, rule adv_push_if16, rule adv_bind, rule adv_push_if16 [where f = "\<lambda>_. d"],
      (rule adv_bind, rule adv_push_if8 adv_push_if16)+, rule adv_push_if8)

lemma adv_psh_op [simp]: "adv (\<lambda>_. 1) (psh_op sp osp)"
  unfolding adv_def psh_op_def Let_def split_beta
  by (auto simp: bindr_eq_Inr dest!: advD [OF adv_psh])

lemma adv_cwai [simp]: "adv (\<lambda>_. 1) inst_cwai"
  unfolding adv_def inst_cwai_def Let_def split_beta
  by (auto simp: bindr_eq_Inr dest!: advD [OF adv_psh])

text \<open>What the addressing mode in the disassembler's tables says about the operand bytes.\<close>

definition mode_adv :: "addr_mode \<Rightarrow> 'z machine_scheme \<Rightarrow> u16" where
  "mode_adv M = (case M of
     M_imb \<Rightarrow> \<lambda>_. 1 | M_dir \<Rightarrow> \<lambda>_. 1 | M_r1 \<Rightarrow> \<lambda>_. 1 | M_r2 \<Rightarrow> \<lambda>_. 1 | M_r3 \<Rightarrow> \<lambda>_. 1 | M_reb \<Rightarrow> \<lambda>_. 1
   | M_imw \<Rightarrow> \<lambda>_. 2 | M_ext \<Rightarrow> \<lambda>_. 2 | M_rew \<Rightarrow> \<lambda>_. 2 | M_ind \<Rightarrow> idx_len | _ \<Rightarrow> \<lambda>_. 0)"

lemma mode_adv_simps [simp]:
  "mode_adv M_imp = (\<lambda>_. 0)" "mode_adv M_imb = (\<lambda>_. 1)" "mode_adv M_imw = (\<lambda>_. 2)"
  "mode_adv M_dir = (\<lambda>_. 1)" "mode_adv M_ext = (\<lambda>_. 2)" "mode_adv M_ind = idx_len"
  "mode_adv M_r1 = (\<lambda>_. 1)" "mode_adv M_r2 = (\<lambda>_. 1)" "mode_adv M_r3 = (\<lambda>_. 1)"
  by (simp_all add: mode_adv_def)

text \<open>The addressing modes of the three tables.\<close>

definition modes0 :: "addr_mode list" where
  "modes0 = map snd m6809_codes"

lemma modes0_list: "modes0 =
  [M_dir, M_nom, M_nom, M_dir, M_dir, M_nom, M_dir, M_dir,
   M_dir, M_dir, M_dir, M_nom, M_dir, M_dir, M_dir, M_dir,
   M_nom, M_nom, M_imp, M_imp, M_nom, M_nom, M_rew, M_rew,
   M_nom, M_imp, M_imb, M_nom, M_imb, M_imp, M_r1, M_r1,
   M_reb, M_reb, M_reb, M_reb, M_reb, M_reb, M_reb, M_reb,
   M_reb, M_reb, M_reb, M_reb, M_reb, M_reb, M_reb, M_reb,
   M_ind, M_ind, M_ind, M_ind, M_r2, M_r2, M_r3, M_r3,
   M_nom, M_imp, M_imp, M_imp, M_imb, M_imp, M_imp, M_imp,
   M_imp, M_nom, M_nom, M_imp, M_imp, M_nom, M_imp, M_imp,
   M_imp, M_imp, M_imp, M_nom, M_imp, M_imp, M_nom, M_imp,
   M_imp, M_nom, M_nom, M_imp, M_imp, M_nom, M_imp, M_imp,
   M_imp, M_imp, M_imp, M_nom, M_imp, M_imp, M_nom, M_imp,
   M_ind, M_nom, M_nom, M_ind, M_ind, M_nom, M_ind, M_ind,
   M_ind, M_ind, M_ind, M_nom, M_ind, M_ind, M_ind, M_ind,
   M_ext, M_nom, M_nom, M_ext, M_ext, M_nom, M_ext, M_ext,
   M_ext, M_ext, M_ext, M_nom, M_ext, M_ext, M_ext, M_ext,
   M_imb, M_imb, M_imb, M_imw, M_imb, M_imb, M_imb, M_nom,
   M_imb, M_imb, M_imb, M_imb, M_imw, M_reb, M_imw, M_nom,
   M_dir, M_dir, M_dir, M_dir, M_dir, M_dir, M_dir, M_dir,
   M_dir, M_dir, M_dir, M_dir, M_dir, M_dir, M_dir, M_dir,
   M_ind, M_ind, M_ind, M_ind, M_ind, M_ind, M_ind, M_ind,
   M_ind, M_ind, M_ind, M_ind, M_ind, M_ind, M_ind, M_ind,
   M_ext, M_ext, M_ext, M_ext, M_ext, M_ext, M_ext, M_ext,
   M_ext, M_ext, M_ext, M_ext, M_ext, M_ext, M_ext, M_ext,
   M_imb, M_imb, M_imb, M_imw, M_imb, M_imb, M_imb, M_nom,
   M_imb, M_imb, M_imb, M_imb, M_imw, M_nom, M_imw, M_nom,
   M_dir, M_dir, M_dir, M_dir, M_dir, M_dir, M_dir, M_dir,
   M_dir, M_dir, M_dir, M_dir, M_dir, M_dir, M_dir, M_dir,
   M_ind, M_ind, M_ind, M_ind, M_ind, M_ind, M_ind, M_ind,
   M_ind, M_ind, M_ind, M_ind, M_ind, M_ind, M_ind, M_ind,
   M_ext, M_ext, M_ext, M_ext, M_ext, M_ext, M_ext, M_ext,
   M_ext, M_ext, M_ext, M_ext, M_ext, M_ext, M_ext, M_ext]"
  by (simp add: modes0_def m6809_codes_def)

definition modes1 :: "addr_mode list" where
  "modes1 = map snd m6809_codes10"

lemma modes1_list: "modes1 =
  [M_nom, M_nom, M_nom, M_nom, M_nom, M_nom, M_nom, M_nom,
   M_nom, M_nom, M_nom, M_nom, M_nom, M_nom, M_nom, M_nom,
   M_nom, M_nom, M_nom, M_nom, M_nom, M_nom, M_nom, M_nom,
   M_nom, M_nom, M_nom, M_nom, M_nom, M_nom, M_nom, M_nom,
   M_nom, M_rew, M_rew, M_rew, M_rew, M_rew, M_rew, M_rew,
   M_rew, M_rew, M_rew, M_rew, M_rew, M_rew, M_rew, M_rew,
   M_nom, M_nom, M_nom, M_nom, M_nom, M_nom, M_nom, M_nom,
   M_nom, M_nom, M_nom, M_nom, M_nom, M_nom, M_nom, M_imp,
   M_nom, M_nom, M_nom, M_nom, M_nom, M_nom, M_nom, M_nom,
   M_nom, M_nom, M_nom, M_nom, M_nom, M_nom, M_nom, M_nom,
   M_nom, M_nom, M_nom, M_nom, M_nom, M_nom, M_nom, M_nom,
   M_nom, M_nom, M_nom, M_nom, M_nom, M_nom, M_nom, M_nom,
   M_nom, M_nom, M_nom, M_nom, M_nom, M_nom, M_nom, M_nom,
   M_nom, M_nom, M_nom, M_nom, M_nom, M_nom, M_nom, M_nom,
   M_nom, M_nom, M_nom, M_nom, M_nom, M_nom, M_nom, M_nom,
   M_nom, M_nom, M_nom, M_nom, M_nom, M_nom, M_nom, M_nom,
   M_nom, M_nom, M_nom, M_imw, M_nom, M_nom, M_nom, M_nom,
   M_nom, M_nom, M_nom, M_nom, M_imw, M_nom, M_imw, M_nom,
   M_nom, M_nom, M_nom, M_dir, M_nom, M_nom, M_nom, M_nom,
   M_nom, M_nom, M_nom, M_nom, M_dir, M_nom, M_dir, M_dir,
   M_nom, M_nom, M_nom, M_ind, M_nom, M_nom, M_nom, M_nom,
   M_nom, M_nom, M_nom, M_nom, M_ind, M_nom, M_ind, M_ind,
   M_nom, M_nom, M_nom, M_ext, M_nom, M_nom, M_nom, M_nom,
   M_nom, M_nom, M_nom, M_nom, M_ext, M_nom, M_ext, M_ext,
   M_nom, M_nom, M_nom, M_nom, M_nom, M_nom, M_nom, M_nom,
   M_nom, M_nom, M_nom, M_nom, M_nom, M_nom, M_imw, M_nom,
   M_nom, M_nom, M_nom, M_nom, M_nom, M_nom, M_nom, M_nom,
   M_nom, M_nom, M_nom, M_nom, M_nom, M_nom, M_dir, M_dir,
   M_nom, M_nom, M_nom, M_nom, M_nom, M_nom, M_nom, M_nom,
   M_nom, M_nom, M_nom, M_nom, M_nom, M_nom, M_ind, M_ind,
   M_nom, M_nom, M_nom, M_nom, M_nom, M_nom, M_nom, M_nom,
   M_nom, M_nom, M_nom, M_nom, M_nom, M_nom, M_ext, M_ext]"
  by (simp add: modes1_def m6809_codes10_def)

definition modes2 :: "addr_mode list" where
  "modes2 = map snd m6809_codes11"

lemma modes2_list: "modes2 =
  [M_nom, M_nom, M_nom, M_nom, M_nom, M_nom, M_nom, M_nom,
   M_nom, M_nom, M_nom, M_nom, M_nom, M_nom, M_nom, M_nom,
   M_nom, M_nom, M_nom, M_nom, M_nom, M_nom, M_nom, M_nom,
   M_nom, M_nom, M_nom, M_nom, M_nom, M_nom, M_nom, M_nom,
   M_nom, M_nom, M_nom, M_nom, M_nom, M_nom, M_nom, M_nom,
   M_nom, M_nom, M_nom, M_nom, M_nom, M_nom, M_nom, M_nom,
   M_nom, M_nom, M_nom, M_nom, M_nom, M_nom, M_nom, M_nom,
   M_nom, M_nom, M_nom, M_nom, M_nom, M_nom, M_nom, M_imp,
   M_nom, M_nom, M_nom, M_nom, M_nom, M_nom, M_nom, M_nom,
   M_nom, M_nom, M_nom, M_nom, M_nom, M_nom, M_nom, M_nom,
   M_nom, M_nom, M_nom, M_nom, M_nom, M_nom, M_nom, M_nom,
   M_nom, M_nom, M_nom, M_nom, M_nom, M_nom, M_nom, M_nom,
   M_nom, M_nom, M_nom, M_nom, M_nom, M_nom, M_nom, M_nom,
   M_nom, M_nom, M_nom, M_nom, M_nom, M_nom, M_nom, M_nom,
   M_nom, M_nom, M_nom, M_nom, M_nom, M_nom, M_nom, M_nom,
   M_nom, M_nom, M_nom, M_nom, M_nom, M_nom, M_nom, M_nom,
   M_nom, M_nom, M_nom, M_imw, M_nom, M_nom, M_nom, M_nom,
   M_nom, M_nom, M_nom, M_nom, M_imw, M_nom, M_nom, M_nom,
   M_nom, M_nom, M_nom, M_dir, M_nom, M_nom, M_nom, M_nom,
   M_nom, M_nom, M_nom, M_nom, M_dir, M_nom, M_nom, M_nom,
   M_nom, M_nom, M_nom, M_ind, M_nom, M_nom, M_nom, M_nom,
   M_nom, M_nom, M_nom, M_nom, M_ind, M_nom, M_nom, M_nom,
   M_nom, M_nom, M_nom, M_ext, M_nom, M_nom, M_nom, M_nom,
   M_nom, M_nom, M_nom, M_nom, M_ext, M_nom, M_nom, M_nom,
   M_nom, M_nom, M_nom, M_nom, M_nom, M_nom, M_nom, M_nom,
   M_nom, M_nom, M_nom, M_nom, M_nom, M_nom, M_nom, M_nom,
   M_nom, M_nom, M_nom, M_nom, M_nom, M_nom, M_nom, M_nom,
   M_nom, M_nom, M_nom, M_nom, M_nom, M_nom, M_nom, M_nom,
   M_nom, M_nom, M_nom, M_nom, M_nom, M_nom, M_nom, M_nom,
   M_nom, M_nom, M_nom, M_nom, M_nom, M_nom, M_nom, M_nom,
   M_nom, M_nom, M_nom, M_nom, M_nom, M_nom, M_nom, M_nom,
   M_nom, M_nom, M_nom, M_nom, M_nom, M_nom, M_nom, M_nom]"
  by (simp add: modes2_def m6809_codes11_def)

text \<open>Opcodes that may set the program counter: jumps, calls, branches, returns,
pulls, exchanges, transfers and software interrupts.\<close>

definition transfers :: "u32 set" where
  "transfers = {0x0E, 0x6E, 0x7E, 0x16, 0x17, 0x8D, 0x9D, 0xAD, 0xBD, 0x35, 0x37, 0x39, 0x3B, 0x3F,
     0x1E, 0x1F, 0x20, 0x21, 0x22, 0x23, 0x24, 0x25, 0x26, 0x27, 0x28, 0x29, 0x2A, 0x2B, 0x2C,
     0x2D, 0x2E, 0x2F}"

definition table_adv :: "addr_mode list \<Rightarrow> (u32 \<times> 'z body) list \<Rightarrow> bool" where
  "table_adv c tab \<longleftrightarrow> (\<forall>(k, f) \<in> set tab. k \<in> transfers \<or> adv (mode_adv (c ! unat k)) f)"

lemma table_adv_append: "table_adv c (xs @ ys) \<longleftrightarrow> table_adv c xs \<and> table_adv c ys"
  by (auto simp: table_adv_def)

lemma adv_ok_iff: "adv n (\<lambda>s. ok (f s)) \<longleftrightarrow> (\<forall>s. reg_pc (f s) = reg_pc s + n s)"
  by (simp add: adv_def)

lemma reg_pc_ok [simp]:
  "reg_pc (inst_mul s) = reg_pc s" "reg_pc (inst_sex s) = reg_pc s" "reg_pc (inst_daa s) = reg_pc s"
  by (simp_all add: inst_mul_def inst_sex_def inst_daa_def Let_def)

lemma adv_page0_neg_ror: "table_adv modes0 page0_neg_ror"
  by (simp add: table_adv_def page0_neg_ror_def transfers_def modes0_list adv_ok_iff)

lemma adv_page0_asr_dec: "table_adv modes0 page0_asr_dec"
  by (simp add: table_adv_def page0_asr_dec_def transfers_def modes0_list adv_ok_iff)

lemma adv_page0_inc_clr: "table_adv modes0 page0_inc_clr"
  by (simp add: table_adv_def page0_inc_clr_def transfers_def modes0_list adv_ok_iff)

lemma adv_page0_sub_cmp: "table_adv modes0 page0_sub_cmp"
  by (simp add: table_adv_def page0_sub_cmp_def transfers_def modes0_list adv_ok_iff)

lemma adv_page0_sbc_bit: "table_adv modes0 page0_sbc_bit"
  by (simp add: table_adv_def page0_sbc_bit_def transfers_def modes0_list adv_ok_iff)

lemma adv_page0_ld_st8: "table_adv modes0 page0_ld_st8"
  by (simp add: table_adv_def page0_ld_st8_def transfers_def modes0_list adv_ok_iff)

lemma adv_page0_eor_or: "table_adv modes0 page0_eor_or"
  by (simp add: table_adv_def page0_eor_or_def transfers_def modes0_list adv_ok_iff)

lemma adv_page0_add_cmpx: "table_adv modes0 page0_add_cmpx"
  by (simp add: table_adv_def page0_add_cmpx_def transfers_def modes0_list adv_ok_iff)

lemma adv_page0_ldx_stu: "table_adv modes0 page0_ldx_stu"
  by (simp add: table_adv_def page0_ldx_stu_def transfers_def modes0_list adv_ok_iff)

lemma adv_page0_addd_mul: "table_adv modes0 page0_addd_mul"
  by (simp add: table_adv_def page0_addd_mul_def transfers_def modes0_list adv_ok_iff split_beta)

lemma adv_page0_branch: "table_adv modes0 page0_branch"
  by (simp add: table_adv_def page0_branch_def transfers_def modes0_list adv_ok_iff)

lemma adv_page0_jump: "table_adv modes0 page0_jump"
  by (simp add: table_adv_def page0_jump_def transfers_def modes0_list adv_ok_iff)

lemma adv_page0_stack: "table_adv modes0 page0_stack"
  by (simp add: table_adv_def page0_stack_def transfers_def modes0_list adv_ok_iff split_beta)

lemma adv_page0_system: "table_adv modes0 (page0_system dosys)"
  by (simp add: table_adv_def page0_system_def transfers_def modes0_list adv_ok_iff split_beta)

lemma adv_page1: "table_adv modes1 page1_ops"
  by (simp add: table_adv_def page1_ops_def page1_branch_def page1_cmp_ld_def page1_st_swi2_def
      transfers_def modes1_list)

lemma adv_page2: "table_adv modes2 page2"
  by (simp add: table_adv_def page2_def transfers_def modes2_list)

end
