(* ===== verification/Agree.thy ===== *)
theory Agree
  imports Len
begin

text \<open>
  Instruction lengths: \<open>Len\<close> shows by how much each body of the processor's
  switch moves the program counter; this theory computes the length that \<open>Dasm\<close>
  returns and compares the two.
\<close>

lemma exec_adv0:
  assumes e: "exec_page0 dosys s = Inr (r, t)" and op: "ram s (reg_pc s) \<notin> {0x10, 0x11}"
    and tr: "ucast (ram s (reg_pc s)) \<notin> transfers"
  shows "reg_pc t = reg_pc s + 1 +
    mode_adv (modes0 ! unat (ram s (reg_pc s))) (s\<lparr>reg_pc := reg_pc s + 1\<rparr>)"
proof -
  define k where "k = (ucast (ram s (reg_pc s)) :: u32)"
  have k: "unat k = unat (ram s (reg_pc s))" by (simp add: k_def unsigned_ucast_eq take_bit_nat_eq_self order_less_le_trans [OF unsigned_less])
  have tab: "\<forall>(l, f) \<in> set (page0_ops dosys). l \<in> transfers \<or> l \<in> {0x10, 0x11} \<or>
      adv (mode_adv (modes0 ! unat l)) f"
    using adv_page0_neg_ror adv_page0_asr_dec adv_page0_inc_clr adv_page0_sub_cmp adv_page0_sbc_bit
      adv_page0_ld_st8 adv_page0_eor_or adv_page0_add_cmpx adv_page0_ldx_stu adv_page0_addd_mul
      adv_page0_branch adv_page0_jump adv_page0_stack adv_page0_system [of dosys]
    unfolding page0_ops_def table_adv_def set_append ball_Un by auto
  have "k \<in> transfers \<or> k \<in> {0x10, 0x11} \<or> adv (mode_adv (modes0 ! unat k))
      (switch (page0_ops dosys) (die m) k)" for m
    by (rule switch_key [OF tab]) simp
  moreover have "k \<notin> {0x10, 0x11}"
    using op k by (auto simp: word_unat_eq_iff)
  ultimately have "adv (mode_adv (modes0 ! unat k)) (switch (page0_ops dosys) (die m) k)" for m
    using tr by (simp add: k_def)
  from advD [OF this] e show ?thesis
    unfolding exec_page0_def pc_read8_ram k_def [symmetric] k [symmetric] by fastforce
qed

lemma exec_adv_page1:
  assumes e: "exec_page1 s = Inr (r, t)" and tr: "ucast (ram s (reg_pc s)) \<notin> transfers"
  shows "reg_pc t = reg_pc s + 1 +
    mode_adv (modes1 ! unat (ram s (reg_pc s))) (s\<lparr>reg_pc := reg_pc s + 1\<rparr>)"
proof -
  define k where "k = (ucast (ram s (reg_pc s)) :: u32)"
  have k: "unat k = unat (ram s (reg_pc s))"
    by (simp add: k_def unsigned_ucast_eq take_bit_nat_eq_self order_less_le_trans [OF unsigned_less])
  have tab: "\<forall>(l, f) \<in> set page1_ops. l \<in> transfers \<or> adv (mode_adv (modes1 ! unat l)) f"
    using adv_page1 unfolding table_adv_def by auto
  have "k \<in> transfers \<or> adv (mode_adv (modes1 ! unat k)) (switch page1_ops (die m) k)" for m
    by (rule switch_key [OF tab]) simp
  then have "adv (mode_adv (modes1 ! unat k)) (switch page1_ops (die m) k)" for m
    using tr by (simp add: k_def)
  from advD [OF this] e show ?thesis
    unfolding exec_page1_def pc_read8_ram k_def [symmetric] k [symmetric] by fastforce
qed

lemma exec_adv_page2:
  assumes e: "exec_page2 s = Inr (r, t)" and tr: "ucast (ram s (reg_pc s)) \<notin> transfers"
  shows "reg_pc t = reg_pc s + 1 +
    mode_adv (modes2 ! unat (ram s (reg_pc s))) (s\<lparr>reg_pc := reg_pc s + 1\<rparr>)"
proof -
  define k where "k = (ucast (ram s (reg_pc s)) :: u32)"
  have k: "unat k = unat (ram s (reg_pc s))"
    by (simp add: k_def unsigned_ucast_eq take_bit_nat_eq_self order_less_le_trans [OF unsigned_less])
  have tab: "\<forall>(l, f) \<in> set page2. l \<in> transfers \<or> adv (mode_adv (modes2 ! unat l)) f"
    using adv_page2 unfolding table_adv_def by auto
  have "k \<in> transfers \<or> adv (mode_adv (modes2 ! unat k)) (switch page2 (die m) k)" for m
    by (rule switch_key [OF tab]) simp
  then have "adv (mode_adv (modes2 ! unat k)) (switch page2 (die m) k)" for m
    using tr by (simp add: k_def)
  from advD [OF this] e show ?thesis
    unfolding exec_page2_def pc_read8_ram k_def [symmetric] k [symmetric] by fastforce
qed

definition dlen :: "u8 \<Rightarrow> u32" where
  "dlen T = (if T AND 0x80 = 0 then 1
     else if T AND 0x1F \<in> {0x08, 0x0C, 0x18, 0x1C} then 2
     else if T AND 0x1F \<in> {0x09, 0x0D, 0x19, 0x1D} \<or> T = 0x9F then 3 else 1)"

lemma snd_index_ext:
  "snd (index_string_ext False rd T R PC) = PC + dlen T - 1" if "T AND 0x80 \<noteq> 0"
  using that unfolding index_string_ext_def dlen_def switch_Cons switch_Nil by (auto simp: not_le)

lemma snd_index_string: "snd (index_string False rd b pc) = pc + dlen (rd pc)"
  by (auto simp: index_string_def split_beta Let_def snd_index_ext) (simp add: dlen_def)

lemma dlen_post_len: "(ucast (dlen T) :: u16) = post_len (ucast T)"
  by (rule all_u8) code_simp

definition mlen :: "addr_mode \<Rightarrow> u8 \<Rightarrow> u32" where
  "mlen M b = (case M of
     M_nom \<Rightarrow> 0 | M_imp \<Rightarrow> 0 | M_imw \<Rightarrow> 2 | M_ext \<Rightarrow> 2 | M_rew \<Rightarrow> 2 | M_ind \<Rightarrow> dlen b
   | M_imb \<Rightarrow> 1 | M_dir \<Rightarrow> 1 | M_reb \<Rightarrow> 1 | M_r1 \<Rightarrow> 1 | M_r2 \<Rightarrow> 1 | M_r3 \<Rightarrow> 1 | _ \<Rightarrow> 0)"

definition modes_6809 :: "addr_mode set" where
  "modes_6809 = {M_nom, M_imp, M_imb, M_imw, M_dir, M_ext, M_ind, M_reb, M_rew, M_r1, M_r2, M_r3}"

lemma snd_dasm_operand:
  "M \<in> modes_6809 \<Longrightarrow> snd (dasm_operand cfg_6809 rd I M PC) = PC + mlen M (rd PC)"
  by (auto simp: modes_6809_def dasm_operand_def mlen_def Let_def snd_index_string cfg_6809_def)

lemma modes_all: "set modes0 \<subseteq> modes_6809" "set modes1 \<subseteq> modes_6809" "set modes2 \<subseteq> modes_6809"
  by (simp_all add: modes0_list modes1_list modes2_list modes_6809_def)

lemma modes_length: "length modes0 = 256" "length modes1 = 256" "length modes2 = 256"
  by (simp_all add: modes0_list modes1_list modes2_list)

lemma modes_nth:
  "snd (m6809_codes ! unat (T :: u8)) = modes0 ! unat T"
  "snd (m6809_codes10 ! unat T) = modes1 ! unat T"
  "snd (m6809_codes11 ! unat T) = modes2 ! unat T"
  using modes_length unsigned_less [of T, where ?'a = nat]
  by (simp_all add: modes0_def modes1_def modes2_def)

lemma modes_in [simp]: "modes0 ! unat (T :: u8) \<in> modes_6809" "modes1 ! unat T \<in> modes_6809"
    "modes2 ! unat T \<in> modes_6809"
  by (rule subsetD [OF modes_all(1)] subsetD [OF modes_all(2)] subsetD [OF modes_all(3)], rule nth_mem,
      simp add: modes_length order_less_le_trans [OF unsigned_less])+

lemma cfg_6809_codes [simp]: "codes cfg_6809 = m6809_codes" "codes10 cfg_6809 = m6809_codes10"
    "codes11 cfg_6809 = m6809_codes11"
  by (simp_all add: cfg_6809_def)

lemma snd_Dasm:
  "snd (d6809_disassemble rd pc) =
     (if rd pc = 0x10 then 2 + mlen (modes1 ! unat (rd (pc + 1))) (rd (pc + 2))
      else if rd pc = 0x11 then 2 + mlen (modes2 ! unat (rd (pc + 1))) (rd (pc + 2))
      else 1 + mlen (modes0 ! unat (rd pc)) (rd (pc + 1)))"
  by (auto simp: d6809_disassemble_def Dasm_def split_beta Let_def snd_dasm_operand modes_nth)

lemma mode_adv_mlen:
  "M \<in> modes_6809 \<Longrightarrow> mode_adv M s = ucast (mlen M (ram s (reg_pc s)))"
  by (auto simp: modes_6809_def mode_adv_def mlen_def idx_len_def dlen_post_len pc_read8_ram)

definition transfers_control :: "'z machine_scheme \<Rightarrow> bool" where
  "transfers_control s =
     (let op = ram s (reg_pc s); op1 = ram s (reg_pc s + 1)
      in (if op = 0x10 \<or> op = 0x11 then ucast op1 else ucast op) \<in> transfers)"

lemma debug_read:
  assumes "\<forall>i \<in> {0, 1, 2}. reg_pc s + i \<notin> {0xFE00..<0xFF00}" and "i \<in> {0, 1, 2}"
  shows "e6809_read8_debug (ucast (reg_pc s) + ucast (i :: u16)) s = ram s (reg_pc s + i)"
proof -
  have n: "reg_pc s + i \<notin> {0xFE00..<0xFF00}" using assms by blast
  define x where "x = (ucast (reg_pc s) + ucast i :: u32)"
  have u: "(ucast x :: u16) = reg_pc s + i"
    unfolding x_def by (simp add: ucast16_add)
  have "ucast x \<in> {0xFE00..<0xFF00 :: u16}" if "0xFE00 \<le> x" "x < 0xFF00"
    using that by (simp add: word_le_nat_alt word_less_nat_alt unsigned_ucast_eq take_bit_nat_eq_self)
  with n u show ?thesis
    unfolding x_def [symmetric] e6809_read8_debug_def by (metis not_le)
qed

lemma ucast_mlen: "(ucast (1 + mlen M b) :: u16) = 1 + ucast (mlen M b)"
    "(ucast (2 + mlen M b) :: u16) = 2 + ucast (mlen M b)"
  by (simp_all add: ucast16_add)

text \<open>
  C13. Processor and disassembler agree on instruction lengths: an instruction
  that runs to its end and is not a jump, call, return, branch, pull, exchange,
  transfer or software interrupt leaves the program counter behind it by exactly
  the length that \<open>d6809_disassemble\<close> returns for that address, if none of the
  bytes it starts with lies in the page that the debugging read hides.
\<close>

theorem disassembled_length_is_pc_advance:
  assumes exec: "exec_page0 dosys s = Inr ((), t)"
    and seq: "\<not> transfers_control s"
    and vis: "\<forall>i \<in> {0, 1, 2}. reg_pc s + i \<notin> {0xFE00..<0xFF00}"
  shows "reg_pc t = reg_pc s +
    ucast (snd (d6809_disassemble (\<lambda>a. e6809_read8_debug a s) (ucast (reg_pc s))))"
proof -
  note rd = debug_read [OF vis]
  define s1 where "s1 = s\<lparr>reg_pc := reg_pc s + 1\<rparr>"
  have s1: "reg_pc s1 = reg_pc s + 1" "ram s1 = ram s" by (simp_all add: s1_def)
  have pc: "e6809_read8_debug (ucast (reg_pc s)) s = ram s (reg_pc s)"
    "e6809_read8_debug (ucast (reg_pc s) + 1) s = ram s (reg_pc s + 1)"
    "e6809_read8_debug (ucast (reg_pc s) + 2) s = ram s (reg_pc s + 2)"
    using rd [of 0] rd [of 1] rd [of 2] by simp_all
  consider (p1) "ram s (reg_pc s) = 0x10" | (p2) "ram s (reg_pc s) = 0x11"
    | (p0) "ram s (reg_pc s) \<notin> {0x10, 0x11}" by blast
  then show ?thesis
  proof cases
    case p1
    then have "exec_page1 s1 = Inr ((), t)"
      using exec by (simp add: exec_page0_def pc_read8_ram opcode_tables s1_def)
    moreover have "ucast (ram s1 (reg_pc s1)) \<notin> transfers"
      using seq p1 by (simp add: transfers_control_def s1)
    ultimately show ?thesis
      using exec_adv_page1 [of s1 "()" t] by (simp add: snd_Dasm pc p1 s1 mode_adv_mlen ucast_mlen)
        (simp add: add.commute)
  next
    case p2
    then have "exec_page2 s1 = Inr ((), t)"
      using exec by (simp add: exec_page0_def pc_read8_ram opcode_tables s1_def)
    moreover have "ucast (ram s1 (reg_pc s1)) \<notin> transfers"
      using seq p2 by (simp add: transfers_control_def s1)
    ultimately show ?thesis
      using exec_adv_page2 [of s1 "()" t] by (simp add: snd_Dasm pc p2 s1 mode_adv_mlen ucast_mlen)
        (simp add: add.commute)
  next
    case p0
    then have "ucast (ram s (reg_pc s)) \<notin> transfers"
      using seq by (simp add: transfers_control_def Let_def)
    from exec_adv0 [OF exec p0 this] p0 show ?thesis
      by (simp add: snd_Dasm pc mode_adv_mlen ucast_mlen)
  qed
qed
lemma disassembled_length_is_pc_advance_witness:
  "let m = power_on\<lparr>reg_pc := 0x100, ram := (\<lambda>_. 0)(0x100 := 0x10, 0x101 := 0xAE, 0x102 := 0x89)\<rparr>;
       d = (\<lambda>n s. Inr ((0, False, 0), s))
   in \<exists>t. exec_page0 d m = Inr ((), t) \<and> reg_pc t = 0x105 \<and>
      reg_pc t = 0x100 + ucast (snd (d6809_disassemble (\<lambda>a. e6809_read8_debug a m) 0x100))"
proof -
  let ?m = "power_on\<lparr>reg_pc := 0x100, ram := (\<lambda>_. 0)(0x100 := 0x10, 0x101 := 0xAE, 0x102 := 0x89)\<rparr>"
  let ?d = "\<lambda>n s :: machine. Inr ((0, False, 0), s)"
  have "exec_page0 ?d ?m = exec_page1 (?m\<lparr>reg_pc := 0x101\<rparr>)"
    by (simp add: exec_page0_def pc_read8_ram opcode_tables)
  moreover have "\<exists>t. exec_page1 (?m\<lparr>reg_pc := 0x101\<rparr>) = Inr ((), t) \<and> reg_pc t = 0x105"
    by (simp add: exec_page1_def pc_read8_ram pc_read16_ram page1_ops_def page1_branch_def page1_cmp_ld_def
      page1_st_swi2_def ld_r_def mem16_def ea_indexed_def ea_indexed_modes_def rptr_xyus_def Let_def inst_tst16_def)
  ultimately obtain t where t: "exec_page0 ?d ?m = Inr ((), t)" "reg_pc t = 0x105" by auto
  from disassembled_length_is_pc_advance [OF t(1)] t show ?thesis
    by (simp add: transfers_control_def transfers_def Let_def)
qed

end
