(* ===== verification/Legal.thy ===== *)
theory Legal
  imports Agree
begin

text \<open>
  The opcodes that \<open>e6809_sstep\<close> executes against those that the tables of
  \<open>d6809.c\<close> name: the labels of the three switch statements are compared, as
  sorted lists, with the table indices whose mode is not \<open>_nom\<close>.
\<close>

lemma page0_labels: "map fst (page0_ops dosys) = [0x00, 0x40, 0x50, 0x60, 0x70, 0x03, 0x43, 0x53, 0x63, 0x73, 0x04, 0x44, 0x54, 0x64, 0x74, 0x06, 0x46, 0x56, 0x66, 0x76, 0x07, 0x47, 0x57, 0x67, 0x77, 0x08, 0x48, 0x58, 0x68, 0x78, 0x09, 0x49, 0x59, 0x69, 0x79, 0x0A, 0x4A, 0x5A, 0x6A, 0x7A, 0x0C, 0x4C, 0x5C, 0x6C, 0x7C, 0x0D, 0x4D, 0x5D, 0x6D, 0x7D, 0x0E, 0x6E, 0x7E, 0x0F, 0x4F, 0x5F, 0x6F, 0x7F, 0x80, 0x90, 0xA0, 0xB0, 0xC0, 0xD0, 0xE0, 0xF0, 0x81, 0x91, 0xA1, 0xB1, 0xC1, 0xD1, 0xE1, 0xF1, 0x82, 0x92, 0xA2, 0xB2, 0xC2, 0xD2, 0xE2, 0xF2, 0x84, 0x94, 0xA4, 0xB4, 0xC4, 0xD4, 0xE4, 0xF4, 0x85, 0x95, 0xA5, 0xB5, 0xC5, 0xD5, 0xE5, 0xF5, 0x86, 0x96, 0xA6, 0xB6, 0xC6, 0xD6, 0xE6, 0xF6, 0x97, 0xA7, 0xB7, 0xD7, 0xE7, 0xF7, 0x88, 0x98, 0xA8, 0xB8, 0xC8, 0xD8, 0xE8, 0xF8, 0x89, 0x99, 0xA9, 0xB9, 0xC9, 0xD9, 0xE9, 0xF9, 0x8A, 0x9A, 0xAA, 0xBA, 0xCA, 0xDA, 0xEA, 0xFA, 0x8B, 0x9B, 0xAB, 0xBB, 0xCB, 0xDB, 0xEB, 0xFB, 0x83, 0x93, 0xA3, 0xB3, 0x8C, 0x9C, 0xAC, 0xBC, 0x8E, 0x9E, 0xAE, 0xBE, 0xCE, 0xDE, 0xEE, 0xFE, 0x9F, 0xAF, 0xBF, 0xDF, 0xEF, 0xFF, 0xC3, 0xD3, 0xE3, 0xF3, 0xCC, 0xDC, 0xEC, 0xFC, 0xDD, 0xED, 0xFD, 0x12, 0x3D, 0x20, 0x21, 0x22, 0x23, 0x24, 0x25, 0x26, 0x27, 0x28, 0x29, 0x2A, 0x2B, 0x2C, 0x2D, 0x2E, 0x2F, 0x16, 0x17, 0x8D, 0x9D, 0xAD, 0xBD, 0x30, 0x31, 0x32, 0x33, 0x34, 0x35, 0x36, 0x37, 0x39, 0x3A, 0x1A, 0x1C, 0x1D, 0x1E, 0x1F, 0x3B, 0x3F, 0x13, 0x19, 0x3C, 0x10, 0x11]"
  by (simp add: opcode_tables)
lemma page0_no_reset: "0x3E \<notin> fst ` set (page0_ops dosys)"
  unfolding set_map [symmetric] page0_labels by simp

lemma page1_labels: "map fst page1_ops = [0x20, 0x21, 0x22, 0x23, 0x24, 0x25, 0x26, 0x27, 0x28, 0x29, 0x2A, 0x2B, 0x2C, 0x2D, 0x2E, 0x2F, 0x83, 0x93, 0xA3, 0xB3, 0x8C, 0x9C, 0xAC, 0xBC, 0x8E, 0x9E, 0xAE, 0xBE, 0x9F, 0xAF, 0xBF, 0xCE, 0xDE, 0xEE, 0xFE, 0xDF, 0xEF, 0xFF, 0x3F]"
  by (simp add: page1_ops_def page1_branch_def page1_cmp_ld_def page1_st_swi2_def)

lemma page2_labels: "map fst page2 = [0x83, 0x93, 0xA3, 0xB3, 0x8C, 0x9C, 0xAC, 0xBC, 0x3F]"
  by (simp add: page2_def)


fun merge :: "nat list \<Rightarrow> nat list \<Rightarrow> nat list" where
  "merge [] ys = ys"
| "merge xs [] = xs"
| "merge (x # xs) (y # ys) = (if x \<le> y then x # merge xs (y # ys) else y # merge (x # xs) ys)"

fun merge_pairs :: "nat list list \<Rightarrow> nat list list" where
  "merge_pairs (xs # ys # zs) = merge xs ys # merge_pairs zs"
| "merge_pairs zs = zs"

definition sort_labels :: "nat list \<Rightarrow> nat list" where
  "sort_labels xs = concat ((merge_pairs ^^ 8) (map (\<lambda>x. [x]) xs))"

lemma set_merge [simp]: "set (merge xs ys) = set xs \<union> set ys"
  by (induction xs ys rule: merge.induct) auto

lemma set_merge_pairs: "set (concat (merge_pairs zs)) = set (concat zs)"
  by (induction zs rule: merge_pairs.induct) auto

lemma set_sort_labels: "set (sort_labels xs) = set xs"
proof -
  have "set (concat ((merge_pairs ^^ n) zs)) = set (concat zs)" for n zs
    by (induction n) (simp_all only: funpow.simps id_apply o_apply set_merge_pairs)
  then have "set (sort_labels xs) = set (concat (map (\<lambda>x. [x]) xs))"
    unfolding sort_labels_def .
  then show ?thesis by simp
qed


definition legal :: "addr_mode list \<Rightarrow> nat list" where
  "legal modes = map fst (filter (\<lambda>(i, M). M \<noteq> M_nom) (zip [0..<256] modes))"

lemma page2_legal: "sort_labels (map unat (map fst page2)) = legal modes2"
  unfolding page2_labels legal_def modes2_list by code_simp

lemma page1_legal: "sort_labels (map unat (map fst page1_ops)) = sort_labels (0x20 # legal modes1)"
  unfolding page1_labels legal_def modes1_list by code_simp

lemma page0_legal:
  "sort_labels (0x3E # map unat (map fst (page0_ops dosys))) = sort_labels (0x10 # 0x11 # legal modes0)"
  unfolding page0_labels legal_def modes0_list by code_simp

lemma set_legal:
  "length modes = 256 \<Longrightarrow> set (legal modes) = {unat op |op :: u8. modes ! unat op \<noteq> M_nom}"
proof -
  assume l: "length modes = 256"
  then have "set (legal modes) = {i. i < 256 \<and> modes ! i \<noteq> M_nom}"
    by (force simp: legal_def set_zip image_iff)
  also have "\<dots> = {unat op |op :: u8. modes ! unat op \<noteq> M_nom}"
  proof (intro equalityI subsetI)
    fix i assume "i \<in> {i. i < 256 \<and> modes ! i \<noteq> M_nom}"
    then have "i = unat (of_nat i :: u8)" "modes ! i \<noteq> M_nom"
      by (simp_all add: unsigned_of_nat take_bit_nat_eq_self)
    then show "i \<in> {unat op |op :: u8. modes ! unat op \<noteq> M_nom}" by (metis (mono_tags, lifting) mem_Collect_eq)
  qed (use unsigned_less [where ?'a = nat and ?'b = 8] in auto)
  finally show ?thesis .
qed

lemma labels_of_nats:
  "set (map unat (map fst tab)) = A \<Longrightarrow> fst ` set tab = (of_nat ` A :: u32 set)"
  by (force simp: image_image)

lemma of_nat_legal: "(of_nat ` {unat op |op :: u8. P op} :: u32 set) = {ucast op |op. P op}"
  by (force simp: of_nat_unat)

lemma insert_of_nat:
  "insert (0x3E::u32) A = {0x10, 0x11} \<union> B \<Longrightarrow> 0x3E \<notin> A \<Longrightarrow> A = B - {0x3E} \<union> {0x10, 0x11}"
proof -
  assume eq: "insert (0x3E::u32) A = {0x10, 0x11} \<union> B" and n: "0x3E \<notin> A"
  from n have "A = insert 0x3E A - {0x3E}" by simp
  then have "A = ({0x10, 0x11} \<union> B) - {0x3E}" unfolding eq .
  then show ?thesis by auto
qed

lemma page0_opcodes: "fst ` set (page0_ops dosys) =
    {ucast op |op :: u8. snd (m6809_codes ! unat op) \<noteq> M_nom} - {0x3E} \<union> {0x10, 0x11}"
proof -
  have "insert 62 (set (map unat (map fst (page0_ops dosys)))) = {16, 17} \<union> set (legal modes0)"
    using arg_cong [OF page0_legal [of dosys], of set] unfolding set_sort_labels by simp
  from arg_cong [OF this, of "\<lambda>A. of_nat ` A :: u32 set"]
  have "insert 62 (fst ` set (page0_ops dosys)) = {16, 17} \<union> {ucast op |op :: u8. modes0 ! unat op \<noteq> M_nom}"
    unfolding image_insert image_Un set_legal [OF modes_length(1)] of_nat_legal
      labels_of_nats [OF refl, symmetric] by simp
  from insert_of_nat [OF this page0_no_reset] show ?thesis
    unfolding modes_nth .
qed

lemma page1_opcodes:
  "fst ` set page1_ops = insert 0x20 {ucast op |op :: u8. snd (m6809_codes10 ! unat op) \<noteq> M_nom}"
proof -
  have "set (map unat (map fst page1_ops)) = insert 32 (set (legal modes1))"
    using arg_cong [OF page1_legal, of set] unfolding set_sort_labels by simp
  from labels_of_nats [OF this] show ?thesis
    unfolding image_insert set_legal [OF modes_length(2)] of_nat_legal modes_nth by simp
qed

lemma page2_opcodes:
  "fst ` set page2 = {ucast op |op :: u8. snd (m6809_codes11 ! unat op) \<noteq> M_nom}"
proof -
  have "set (map unat (map fst page2)) = set (legal modes2)"
    using arg_cong [OF page2_legal, of set] unfolding set_sort_labels .
  from labels_of_nats [OF this] show ?thesis
    unfolding set_legal [OF modes_length(3)] of_nat_legal modes_nth .
qed

lemma ucast8_eq: "(ucast (a :: u8) :: u32) = ucast b \<longleftrightarrow> a = b"
proof
  assume "(ucast a :: u32) = ucast b"
  then have "(ucast (ucast a :: u32) :: u8) = ucast (ucast b :: u32)" by simp
  then show "a = b" by simp
qed simp

lemma ucast8_opcode: "(ucast (a :: u8) :: u32) = 0x10 \<longleftrightarrow> a = 0x10" "(ucast a :: u32) = 0x11 \<longleftrightarrow> a = 0x11"
    "(ucast a :: u32) = 0x3E \<longleftrightarrow> a = 0x3E" "(ucast a :: u32) = 0x20 \<longleftrightarrow> a = 0x20"
  using ucast8_eq [of a "0x10"] ucast8_eq [of a "0x11"] ucast8_eq [of a "0x3E"] ucast8_eq [of a "0x20"]
  by simp_all

lemma unat_ucast8 [simp]: "unat (ucast (a :: u8) :: u32) = unat a"
  by (simp add: unsigned_ucast_eq take_bit_nat_eq_self order_less_le_trans [OF unsigned_less])

lemma switch_undefined: "k \<notin> fst ` set tab \<Longrightarrow> switch tab d k = d"
  by (simp add: switch_def map_of_eq_None_iff [symmetric])

text \<open>
  C14. The switch statements of \<open>e6809_sstep\<close> and the tables of the disassembler
  know the same opcodes: page 2 exactly, page 1 up to 0x20, which the processor
  accepts as a long branch and the disassembler calls invalid, and page 0 up to
  0x3E, which the disassembler names RESET and the processor does not execute
  (0x10 and 0x11 are the prefixes of the other pages).
\<close>

theorem opcodes_agree:
  "fst ` set (page0_ops dosys) =
     {ucast op |op :: u8. snd (m6809_codes ! unat op) \<noteq> M_nom} - {0x3E} \<union> {0x10, 0x11} \<and>
   fst ` set page1_ops = insert 0x20 {ucast op |op :: u8. snd (m6809_codes10 ! unat op) \<noteq> M_nom} \<and>
   fst ` set page2 = {ucast op |op :: u8. snd (m6809_codes11 ! unat op) \<noteq> M_nom}"
  by (intro conjI page0_opcodes page1_opcodes page2_opcodes)

text \<open>
  An opcode that the disassembler calls invalid (or RESET) ends the run with
  exit code 1 and a message that names the page and the opcode, and changes
  nothing but the program counter before that; so does an invalid opcode behind
  either prefix, apart from 0x20 behind 0x10.
\<close>

lemma undefined_opcode_exits:
  fixes s :: "'z machine_scheme"
  defines "op0 \<equiv> ram s (reg_pc s)" and "op1 \<equiv> ram s (reg_pc s + 1)"
  shows
   "(op0 = 0x3E \<or> op0 \<notin> {0x10, 0x11} \<and> snd (m6809_codes ! unat op0) = M_nom \<longrightarrow>
      exec_page0 dosys s = Inl (Exit 1, s\<lparr>reg_pc := reg_pc s + 1, stdout := stdout s @
        ''unknown page-0 op code: '' @ fmt_p2x (unat op0) @ newline\<rparr>)) \<and>
    (op0 = 0x10 \<and> op1 \<noteq> 0x20 \<and> snd (m6809_codes10 ! unat op1) = M_nom \<longrightarrow>
      exec_page0 dosys s = Inl (Exit 1, s\<lparr>reg_pc := reg_pc s + 2, stdout := stdout s @
        ''unknown page-1 op code: '' @ fmt_p2x (unat op1) @ newline\<rparr>)) \<and>
    (op0 = 0x11 \<and> snd (m6809_codes11 ! unat op1) = M_nom \<longrightarrow>
      exec_page0 dosys s = Inl (Exit 1, s\<lparr>reg_pc := reg_pc s + 2, stdout := stdout s @
        ''unknown page-2 op code: '' @ fmt_p2x (unat op1) @ newline\<rparr>))"
proof (intro conjI impI)
  assume *: "op0 = 0x3E \<or> op0 \<notin> {0x10, 0x11} \<and> snd (m6809_codes ! unat op0) = M_nom"
  have "ucast op0 \<notin> fst ` set (page0_ops dosys)"
    unfolding page0_opcodes using * by (auto simp: ucast8_eq ucast8_opcode)
  from switch_undefined [OF this] show "exec_page0 dosys s = Inl (Exit 1, s\<lparr>reg_pc := reg_pc s + 1,
      stdout := stdout s @ ''unknown page-0 op code: '' @ fmt_p2x (unat op0) @ newline\<rparr>)"
    by (simp add: exec_page0_def pc_read8_ram die_def put_stdout_def op0_def)
next
  assume *: "op0 = 0x10 \<and> op1 \<noteq> 0x20 \<and> snd (m6809_codes10 ! unat op1) = M_nom"
  have "ucast op1 \<notin> fst ` set (page1_ops :: (u32 \<times> 'z body) list)"
    unfolding page1_opcodes using * by (auto simp: ucast8_eq ucast8_opcode)
  note sw = switch_undefined [OF this]
  have "exec_page0 dosys s = exec_page1 (s\<lparr>reg_pc := reg_pc s + 1\<rparr>)"
    using * by (simp add: op0_def exec_page0_def pc_read8_ram opcode_tables)
  then show "exec_page0 dosys s = Inl (Exit 1, s\<lparr>reg_pc := reg_pc s + 2,
      stdout := stdout s @ ''unknown page-1 op code: '' @ fmt_p2x (unat op1) @ newline\<rparr>)"
    by (simp add: exec_page1_def pc_read8_ram die_def put_stdout_def sw op1_def [symmetric])
next
  assume *: "op0 = 0x11 \<and> snd (m6809_codes11 ! unat op1) = M_nom"
  have "ucast op1 \<notin> fst ` set (page2 :: (u32 \<times> 'z body) list)"
    unfolding page2_opcodes using * by (auto simp: ucast8_eq ucast8_opcode)
  note sw = switch_undefined [OF this]
  have "exec_page0 dosys s = exec_page2 (s\<lparr>reg_pc := reg_pc s + 1\<rparr>)"
    using * by (simp add: op0_def exec_page0_def pc_read8_ram opcode_tables)
  then show "exec_page0 dosys s = Inl (Exit 1, s\<lparr>reg_pc := reg_pc s + 2,
      stdout := stdout s @ ''unknown page-2 op code: '' @ fmt_p2x (unat op1) @ newline\<rparr>)"
    by (simp add: exec_page2_def pc_read8_ram die_def put_stdout_def sw op1_def [symmetric])
qed

lemma undefined_opcode_exits_witness:
  "\<exists>t. exec_page0 (\<lambda>n s. Inr ((0, False, 0), s)) (power_on\<lparr>ram := (\<lambda>_. 0)(0 := 0x3E)\<rparr>) = Inl (Exit 1, t)"
  using undefined_opcode_exits [of "power_on\<lparr>ram := (\<lambda>_. 0)(0 := 0x3E)\<rparr>" "\<lambda>n s. Inr ((0, False, 0), s)"]
  by (simp add: power_on_def)

end
