(* ===== verification/Emulator.thy ===== *)
theory Emulator
  imports Syscalls
begin

text \<open>
  The program \<open>emu6809\<close> (\<open>emulators/emu6809.c\<close>): options, the loader, the main
  loop, and the restart of \<open>main\<close> by \<open>execve\<close>. Besides the host, two things of
  the C library are parameters: the environment variable FUZIXROOT and the number
  of bytes that a block of \<open>malloc\<close> really has.
\<close>

text \<open>
  The state of \<open>getopt\<close> that outlives a call of \<open>main\<close>, and the array in which
  \<open>execve\<close> hands arguments to \<open>main\<close>, which keeps what earlier calls left.
\<close>

record 'h emulator = "'h process" +
  optind :: nat
  arglist :: "string option list"

definition emulator_on :: "string list \<Rightarrow> 'h \<Rightarrow> 'h emulator" where
  "emulator_on ls h = process.extend (process_on ls h) (emulator.fields 1 (replicate MAX_ARGS None))"

subsection \<open>Options\<close>

text \<open>
  \<open>getopt(argc, argv, "+d:m:Mb:")\<close>: it stops at the first argument that is no
  option. \<open>nextchar\<close> holds the rest of a group of options.
\<close>

datatype opt = Opt char string | Bad string | End

definition cell :: "string option list \<Rightarrow> nat \<Rightarrow> string" where
  "cell v i = (case v ! i of Some a \<Rightarrow> a | None \<Rightarrow> [])"

definition option_letter :: "nat \<Rightarrow> string option list \<Rightarrow> nat \<Rightarrow> char \<Rightarrow> string \<Rightarrow> opt \<times> nat \<times> string" where
  "option_letter argc v ind c rest =
     (if c = CHR ''M'' then (if rest = [] then (Opt c [], ind + 1, []) else (Opt c [], ind, rest))
      else if c \<in> set ''dmb'' then
        (if rest \<noteq> [] then (Opt c rest, ind + 1, [])
         else if ind + 1 < argc then (Opt c (cell v (ind + 1)), ind + 2, [])
         else (Bad (cell v 0 @ '': option requires an argument -- '' @ [CHR 0x27, c, CHR 0x27] @ newline), ind + 1, []))
      else (Bad (cell v 0 @ '': invalid option -- '' @ [CHR 0x27, c, CHR 0x27] @ newline),
            if rest = [] then ind + 1 else ind, rest))"

definition getopt :: "nat \<Rightarrow> string option list \<Rightarrow> nat \<Rightarrow> string \<Rightarrow> opt \<times> nat \<times> string" where
  "getopt argc v ind nextchar =
     (if nextchar \<noteq> [] then option_letter argc v ind (hd nextchar) (tl nextchar)
      else if ind \<ge> argc then (End, ind, [])
      else let a = cell v ind
           in if a = ''--'' then (End, ind + 1, [])
              else if length a < 2 \<or> hd a \<noteq> CHR ''-'' then (End, ind, [])
              else option_letter argc v ind (hd (tl a)) (tl (tl a)))"

text \<open>The options in order: each one is handled before the next is read.\<close>

definition perror :: "'h os \<Rightarrow> string option \<Rightarrow> ('h, 'z) process_scheme \<Rightarrow> ('h, 'z) process_scheme" where
  "perror os name s =
     (let (e, s) = host_call os (H_call ''strerror'' [errno s]) s
      in put_stderr ((case name of Some n \<Rightarrow> n @ '': '' | None \<Rightarrow> []) @ rname e @ newline) s)"

text \<open>
  \<open>fopen\<close>, with mode 0 for reading and 1 for writing; the text of a file that is
  read comes back in \<open>rname\<close>.
\<close>

definition load_mapfile :: "'h os \<Rightarrow> string \<Rightarrow> ('h, 'z) process_scheme \<Rightarrow> (('h, 'z) process_scheme, unit) res" where
  "load_mapfile os path s =
     (let (r, s) = host_call os (H_path ''fopen'' path [0]) s;
          f = (if rv r = -1 then None else Some (rname r))
      in case read_mapfile f (maps s) of
           Inl (e, m) \<Rightarrow> Inl (e, s\<lparr>maps := m\<rparr>)
         | Inr (_, m) \<Rightarrow> ok (if f = None then perror os (Some path) (s\<lparr>maps := m\<rparr>) else s\<lparr>maps := m\<rparr>))"

definition main_usage :: "string \<Rightarrow> ('h, 'z) process_scheme \<Rightarrow> (('h, 'z) process_scheme, 'a) res" where
  "main_usage name s = Inl (Exit 1, put_stderr
     (''Usage: '' @ name @ '' [-M] [-d logfile] [-m mapfile] [-b addr] executable <arguments>'' @ newline @ newline @
      [CHR 0x09] @ ''-d: write debugging information to logfile'' @ newline @
      [CHR 0x09] @ ''-m: load a mapfile with symbol information'' @ newline @
      [CHR 0x09] @ ''-M: start in the monitor'' @ newline @
      [CHR 0x09] @ ''-b: set breakpoint at address (decimal or $hex)'' @ newline @ newline @
      [CHR 0x09] @ ''If the FUZIXROOT environment variable is set,'' @ newline @
      [CHR 0x09] @ ''use that as the executable'' @ [CHR 0x27] @ ''s root directory.'' @ newline) s)"

text \<open>What the options leave in the local variables of \<open>main\<close>.\<close>

record main_locals =
  start_in_monitor :: bool
  brkstr :: "string list"

definition main_option ::
  "'h os \<Rightarrow> char \<Rightarrow> string \<Rightarrow> main_locals \<Rightarrow> ('h, 'z) process_scheme \<Rightarrow> (('h, 'z) process_scheme, main_locals) res" where
  "main_option os c optarg l s =
     (if c = CHR ''d'' then
        let (r, s) = host_call os (H_path ''fopen'' optarg [1]) s
        in if rv r = -1 then Inl (Exit 1, put_stderr (''Unable to open '' @ optarg @ newline) s)
           else Inr (l, s\<lparr>logfile := Some []\<rparr>)
      else if c = CHR ''m'' then bindr (load_mapfile os optarg s) (\<lambda>_ s. Inr (l, s))
      else if c = CHR ''M'' then Inr (l\<lparr>start_in_monitor := True\<rparr>, s)
      else Inr (l\<lparr>brkstr := brkstr l @ [optarg]\<rparr>, s))"

text \<open>How many letters can still be read before the index moves.\<close>

definition letters_left :: "nat \<Rightarrow> string option list \<Rightarrow> nat \<Rightarrow> string \<Rightarrow> nat" where
  "letters_left argc v ind nc =
     (if nc \<noteq> [] then length nc else if ind \<ge> argc then 0 else length (cell v ind))"

lemma getopt_progress:
  assumes "getopt argc v ind nc = (Opt c a, ind', nc')"
  shows "argc - ind' < argc - ind \<or>
     argc - ind' = argc - ind \<and> letters_left argc v ind' nc' < letters_left argc v ind nc"
  using assms
  by (auto simp: getopt_def option_letter_def letters_left_def Let_def split: if_splits)

lemma option_keeps_optind:
  fixes s :: "('h, 'z) emulator_scheme"
  assumes "main_option os c a l s = Inr (l', s')"
  shows "optind s' = optind s"
proof -
  have h: "optind (snd (host_call os q u)) = optind u" for q and u :: "('h, 'z) emulator_scheme"
    by (simp add: host_call_def split_beta Let_def)
  show ?thesis
    using assms
    by (auto simp: main_option_def load_mapfile_def perror_def put_stderr_def h Let_def split_beta bindr_eq_Inr
        split: if_splits sum.splits)
qed

function main_options ::
  "'h os \<Rightarrow> nat \<Rightarrow> string option list \<Rightarrow> string \<Rightarrow> main_locals \<Rightarrow> ('h, 'z) emulator_scheme \<Rightarrow>
   (('h, 'z) emulator_scheme, main_locals) res" where
  "main_options os argc v nc l s =
     (case getopt argc v (optind s) nc of
        (End, ind, _) \<Rightarrow> Inr (l, s\<lparr>optind := ind\<rparr>)
      | (Bad msg, ind, _) \<Rightarrow> main_usage (cell v 0) (put_stderr msg (s\<lparr>optind := ind\<rparr>))
      | (Opt c a, ind, nc') \<Rightarrow> bindr (main_option os c a l (s\<lparr>optind := ind\<rparr>)) (main_options os argc v nc'))"
  by pat_completeness auto
termination
proof (relation "measures [\<lambda>(os, argc, v, nc, l, s). argc - optind s,
     \<lambda>(os, argc, v, nc, l, s). letters_left argc v (optind s) nc]", simp)
  fix os argc v nc l s o' p c a ind nc' l' and s' :: "('h, 'z) emulator_scheme"
  assume g: "(o', p) = getopt argc v (optind s) nc" "o' = Opt c a" "(ind, nc') = p"
    and m: "main_option os c a l (s\<lparr>optind := ind\<rparr>) = Inr (l', s')"
  show "((os, argc, v, nc', l', s'), os, argc, v, nc, l, s) \<in> measures [\<lambda>(os, argc, v, nc, l, s). argc - optind s,
     \<lambda>(os, argc, v, nc, l, s). letters_left argc v (optind s) nc]"
    using getopt_progress [of argc v "optind s" nc c a ind nc'] g [symmetric] option_keeps_optind [OF m] by auto
qed

declare main_options.simps [simp del]

subsection \<open>Loading a program\<close>

text \<open>
  \<open>struct exec\<close>: the 16-byte header of a FUZIX binary, big-endian. Only the
  members that the loader reads.
\<close>

record exec =
  a_magic :: u16
  a_cpu :: u8
  a_base :: u8
  a_entry :: u8
  a_endhi :: u8
  a_endlo :: u8

definition EXEC_MAGIC :: u16 where "EXEC_MAGIC = 0x80A8"
definition A_6809 :: u8 where "A_6809 = 4"

definition read_header :: "u8 list \<Rightarrow> exec" where
  "read_header bs = \<lparr>a_magic = of_be16 bs, a_cpu = bs ! 2, a_base = bs ! 4,
     a_entry = bs ! 12, a_endhi = bs ! 13, a_endlo = bs ! 14\<rparr>"

definition loadaddr :: "exec \<Rightarrow> u16" where
  "loadaddr e = push_bit 8 (ucast (a_base e)) + ucast (a_entry e)"

definition bssend :: "exec \<Rightarrow> u16" where
  "bssend e = push_bit 8 (ucast (a_endhi e)) + ucast (a_endlo e) + 1"

text \<open>
  \<open>load_executable\<close>: a file with another header is handed to the host, which
  replaces the process. The name is NULL when there is no argument left; then
  \<open>open\<close> fails.
\<close>

definition load_executable ::
  "'h os \<Rightarrow> string option \<Rightarrow> string list \<Rightarrow> ('h, 'z) process_scheme \<Rightarrow> (('h, 'z) process_scheme, u16) res" where
  "load_executable os filename args s =
     (case filename of
        None \<Rightarrow> Inl (Exit 1, perror os None (s\<lparr>errno := EFAULT\<rparr>))
      | Some name \<Rightarrow>
          let (r, s) = host_call os (H_path ''open'' name [0]) s; fd = word_of_int (rv r)
          in if rv r = -1 then Inl (Exit 1, perror os filename s)
             else let (r, s) = host_call os (H_call ''fstat'' [fd]) s
             in if rv r = -1 then Inl (Exit 1, perror os filename s)
                else let (r, s) = host_call os (H_read fd 16) s; e = read_header (rbytes r)
                in if rv r = 16 \<and> a_magic e = EXEC_MAGIC \<and> a_cpu e = A_6809
                   then let s = set_initial_brk (bssend e) s;
                            (r, s) = host_call os (H_read fd 0xFFF0) s
                        in bindr (store_bytes (unat (loadaddr e)) (rbytes r) s) (\<lambda>_ s.
                             Inr (loadaddr e, snd (host_call os (H_call ''close'' [fd]) s)))
                   else let (r, s) = host_call os (H_execv name args) s
                        in if rv r = -1
                           then Inl (Exit 1, put_stderr (''Failed to exec native binary '' @ name @ newline) s)
                           else Inl (Exec name args, s))"

text \<open>
  The default map file. The buffer for its name is allocated without room for the
  final NUL: with a block of exactly that size the copy is a fault.
\<close>

definition default_map ::
  "'h os \<Rightarrow> (nat \<Rightarrow> nat) \<Rightarrow> string \<Rightarrow> ('h, 'z) process_scheme \<Rightarrow> (('h, 'z) process_scheme, unit) res" where
  "default_map os usable name s =
     (if mapfile_loaded (maps s) then ok s
      else if usable (length name + 4) < length name + 5 then Inl (Fault, s)
      else let path = name @ ''.map''; (r, s) = host_call os (H_path ''open'' path [0]) s
           in if rv r = -1 then ok s
              else load_mapfile os path (snd (host_call os (H_call ''close'' [word_of_int (rv r)]) s)))"

fun arm_breakpoints :: "string list \<Rightarrow> 'z machine_scheme \<Rightarrow> 'z machine_scheme" where
  "arm_breakpoints [] s = s"
| "arm_breakpoints (b # bs) s =
     (let addr = fst (parse_addr (maps s) b)
      in arm_breakpoints bs (if addr \<noteq> minus_one then set_breakpoint_msg addr BRK_INST s else s))"

subsection \<open>main\<close>

definition default_envp :: "string list" where
  "default_envp = [''PATH=/bin:/usr/bin:.'', ''HOME=/'', ''TERM=vt100'', ''USER=root'']"

text \<open>The arguments from an index on, up to the NULL pointer; without one the reads run off the array.\<close>

definition args_from :: "nat \<Rightarrow> string option list \<Rightarrow> string list option" where
  "args_from i v = (if None \<in> set (drop i v) then Some (map the (takeWhile (\<lambda>a. a \<noteq> None) (drop i v))) else None)"

text \<open>\<open>main\<close> up to its loop. \<open>v\<close> is the array behind \<open>argv\<close>.\<close>

definition main_start ::
  "'h os \<Rightarrow> (nat \<Rightarrow> nat) \<Rightarrow> string option \<Rightarrow> nat \<Rightarrow> string option list \<Rightarrow> 'h emulator \<Rightarrow> ('h emulator, unit) res" where
  "main_start os usable fuzixroot argc v s =
     (if argc < 2 then main_usage (cell v 0) s
      else let s = s\<lparr>emuname := cell v 0, bp := monitor_init (bp s)\<rparr>
      in bindr (main_options os argc v [] \<lparr>start_in_monitor = False, brkstr = []\<rparr> s) (\<lambda>l s.
         let s = s\<lparr>ram := (\<lambda>_. 0)\<rparr>
         in case args_from (optind s) v of
              None \<Rightarrow> Inl (Fault, s)
            | Some args \<Rightarrow>
                bindr (load_executable os (v ! optind s) args s) (\<lambda>pc s.
                bindr (default_map os usable (hd args) s) (\<lambda>_ s.
                bindr (set_arg_env 0xFDFF args default_envp (arm_breakpoints (brkstr l) s)) (\<lambda>sp s.
                bindr (set_fuzix_root os (case fuzixroot of Some d \<Rightarrow> d | None \<Rightarrow> []) s) (\<lambda>_ s.
                  let s = e6809_reset sp pc s
                  in if start_in_monitor l
                     then bindr (monitor (do_syscall os) (ucast pc) s) (\<lambda>addr s.
                            ok (if addr \<noteq> minus_one then e6809_reset sp (ucast addr) s else s))
                     else ok s))))))"

text \<open>
  The run of the program, with a bound on the number of processor steps and
  starts. \<open>None\<close> is the loop of \<open>main\<close>, \<open>Some\<close> a start with these arguments.
  \<open>execve\<close> stores its arguments in the array \<open>arglist\<close>, behind a NULL pointer
  whatever it held before, and starts again with the state as it is.
\<close>

definition store_arglist :: "string list \<Rightarrow> 'h emulator \<Rightarrow> 'h emulator" where
  "store_arglist args s =
     s\<lparr>arglist := map Some args @ None # drop (length args + 1) (arglist s)\<rparr>"

fun emulate ::
  "'h os \<Rightarrow> (nat \<Rightarrow> nat) \<Rightarrow> string option \<Rightarrow> nat \<Rightarrow> (nat \<times> string option list) option \<Rightarrow> 'h emulator \<Rightarrow>
   ('h emulator, unit) res" where
  "emulate os usable fuzixroot 0 start s = ok s"
| "emulate os usable fuzixroot (Suc n) start s =
     (case (case start of
              Some (argc, v) \<Rightarrow> main_start os usable fuzixroot argc v s
            | None \<Rightarrow> bindr (e6809_sstep (monitor (do_syscall os)) (do_syscall os) False False s) (\<lambda>_ s. ok s)) of
        Inr (_, s) \<Rightarrow> emulate os usable fuzixroot n None s
      | Inl (Main args, s) \<Rightarrow>
          let s = store_arglist args s
          in emulate os usable fuzixroot n (Some (length args, arglist s)) s
      | Inl halted \<Rightarrow> Inl halted)"

definition emu6809 ::
  "'h os \<Rightarrow> (nat \<Rightarrow> nat) \<Rightarrow> string option \<Rightarrow> nat \<Rightarrow> string list \<Rightarrow> string list \<Rightarrow> 'h \<Rightarrow> ('h emulator, unit) res" where
  "emu6809 os usable fuzixroot n argv ls h =
     emulate os usable fuzixroot n (Some (length argv, map Some argv @ [None])) (emulator_on ls h)"

end
