(* ===== verification/SysProps.thy ===== *)
theory SysProps
  imports SysSpec
begin

text \<open>
  Properties of single system calls: the program break, the translation of the
  open flags, the layout of \<open>struct _uzistat\<close> and \<open>struct termios\<close> in memory,
  and the calls that end the run.
\<close>

subsection \<open>brk and sbrk\<close>

lemma arg_errno [simp]:
  "uiarg off (s\<lparr>errno := e\<rparr>) = uiarg off s" "siarg off (s\<lparr>errno := e\<rparr>) = siarg off s"
  "get_sp (s\<lparr>errno := e\<rparr>) = get_sp s"
  by (simp_all add: uiarg_def siarg_def get_sp_def e6809_get_regs_def e6809_read8_def)

lemma siarg_uiarg: "(word_of_int (siarg off s) :: u16) = ucast (uiarg off s)"
proof -
  have "(word_of_int (uint x - 65536) :: u16) = ucast x" for x :: u32
    by transfer (simp add: take_bit_eq_mod mod_mod_cancel)
  then show ?thesis by (simp add: siarg_def uiarg_def Let_def)
qed

lemma do_syscall_break:
  "do_syscall os 30 s = bindr (sys_brk (s\<lparr>errno := 0\<rparr>)) (\<lambda>result s.
     Inr ((word_of_int result AND 0xFFFF, False, errno s), s))"
  "do_syscall os 31 s = bindr (sys_sbrk (s\<lparr>errno := 0\<rparr>)) (\<lambda>result s.
     Inr ((word_of_int result AND 0xFFFF, False, errno s), s))"
  by (simp_all add: do_syscall_def sys_files_def sys_process_def switch_append)

text \<open>
  C35. \<open>brk\<close> and \<open>sbrk\<close> either move the break to a value between its initial one
  and the stack, with the old break as the result of \<open>sbrk\<close>, or return -1 with
  \<open>ENOMEM\<close> and leave it.
\<close>

theorem break_stays_below_the_stack:
  assumes op: "op = 30 \<or> op = 31" and c: "do_syscall os op s = Inr ((v, long, e), t)"
  shows "(e = 0 \<and> initbrk t \<le> curbrk t \<and> curbrk t < get_sp s \<and>
       (op = 31 \<longrightarrow> v = ucast (curbrk s) \<and> curbrk t = curbrk s + ucast (uiarg 0 s)) \<and>
       (op = 30 \<longrightarrow> v = 0 \<and> curbrk t = ucast (uiarg 0 s))) \<or>
     (e = ENOMEM \<and> v = 0xFFFF \<and> curbrk t = curbrk s)"
proof -
  have m: "(ucast (w :: u16) AND 0xFFFF :: u32) = ucast w" for w
  proof -
    have "(ucast w AND mask 16 :: u32) = ucast w"
      unfolding take_bit_eq_mask [symmetric] by transfer simp
    then show ?thesis by (simp add: mask_eq_exp_minus_1)
  qed
  show ?thesis
    using assms by (auto simp: do_syscall_break sys_brk_def sys_sbrk_def fail_with_def Let_def siarg_uiarg m not_le not_less split: if_splits)
qed

lemma break_stays_below_the_stack_witness:
  "curbrk (final (do_syscall (\<lambda>c h. (undefined, h)) 31 (process_on [] ()\<lparr>curbrk := 0x2000, reg_s := 0x8000\<rparr>))) = 0x2000"
proof -
  let ?s = "process_on [] ()\<lparr>curbrk := 0x2000, reg_s := 0x8000\<rparr>"
  have u: "uiarg 0 ?s = 0" by (simp add: uiarg_def get_sp_def e6809_get_regs_def e6809_read8_def)
  obtain v t where c: "do_syscall (\<lambda>c h. (undefined, h)) 31 ?s = Inr ((v, False, errno t), t)" "v = 0x2000"
    by (simp add: do_syscall_break sys_sbrk_def Let_def siarg_uiarg u get_sp_def e6809_get_regs_def)
  from break_stays_below_the_stack [OF disjI2 [OF refl] c(1)] show ?thesis
    using c by (auto simp: u)
qed

subsection \<open>open\<close>

lemma if_and: "(if b then h else 0) AND m = (if b then h AND m else (0 :: u32))"
  by simp

lemma open_flags_fold:
  "open_flags x AND m = (x AND (3 AND m)) OR (if x AND 4 \<noteq> 0 then 0x400 AND m else 0) OR
     (if x AND 8 \<noteq> 0 then 0x101000 AND m else 0) OR
     (if x AND 16 \<noteq> 0 then 0x800 AND m else 0) OR (if x AND 256 \<noteq> 0 then 0x40 AND m else 0) OR
     (if x AND 512 \<noteq> 0 then 0x80 AND m else 0) OR (if x AND 1024 \<noteq> 0 then 0x200 AND m else 0) OR
     (if x AND 2048 \<noteq> 0 then 0x100 AND m else 0) OR (if x AND 4096 \<noteq> 0 then 0x80000 AND m else 0)"
  unfolding open_flags_def open_flag_map_def foldl_Cons foldl_Nil prod.case
    bit.conj_disj_distrib2 if_and and.assoc or.assoc ..

text \<open>
  The flags of \<open>open\<close> are translated one by one: the access mode is kept, a
  host flag is set exactly when its FUZIX flag is, and no other bit is set.
\<close>

lemma open_flags_translate:
  "open_flags x AND 3 = x AND 3 \<and>
   (\<forall>(f, h) \<in> set open_flag_map. open_flags x AND h = (if x AND f \<noteq> 0 then h else 0)) \<and>
   open_flags x AND NOT 0x181FC3 = 0"
  unfolding open_flags_fold open_flag_map_def by simp

lemma open_flags_translate_witness: "open_flags 0x501 AND 0x200 = 0x200"
  using open_flags_translate [of "0x501"] by (simp add: open_flag_map_def)


subsection \<open>Structures in memory\<close>

fun upd_fields :: "nat \<Rightarrow> (nat \<times> u8 list) list \<Rightarrow> (u16 \<Rightarrow> u8) \<Rightarrow> u16 \<Rightarrow> u8" where
  "upd_fields a [] r = r"
| "upd_fields a ((off, bs) # fs) r = upd_fields a fs
     (\<lambda>x. if a + off \<le> unat x \<and> unat x < a + off + length bs then bs ! (unat x - (a + off)) else r x)"

fun field_at :: "(nat \<times> u8 list) list \<Rightarrow> nat \<Rightarrow> u8 \<Rightarrow> u8" where
  "field_at [] k d = d"
| "field_at ((off, bs) # fs) k d =
     field_at fs k (if off \<le> k \<and> k < off + length bs then bs ! (k - off) else d)"

lemma store_fields_ok:
  "\<forall>(off, bs) \<in> set fs. a + off + length bs \<le> 65536 \<Longrightarrow>
   store_fields a fs s = ok (s\<lparr>ram := upd_fields a fs (ram s)\<rparr>)"
  by (induction a fs s rule: store_fields.induct) (auto simp: store_bytes_def)

lemma unat_addr: "a + k < 65536 \<Longrightarrow> unat (of_nat (a + k) :: u16) = a + k"
  by (simp add: unsigned_of_nat take_bit_nat_eq_self del: of_nat_add)

lemma upd_fields_at:
  "a + k < 65536 \<Longrightarrow> upd_fields a fs r (of_nat (a + k)) = field_at fs k (r (of_nat (a + k)))"
proof (induction fs arbitrary: r)
  case (Cons f fs)
  then show ?case by (cases f) (simp add: unat_addr del: of_nat_add)
qed simp

lemma upd_fields_outside:
  "\<forall>(off, bs) \<in> set fs. off + length bs \<le> n \<Longrightarrow> unat x < a \<or> a + n \<le> unat x \<Longrightarrow>
   upd_fields a fs r x = r x"
  by (induction a fs r rule: upd_fields.induct) auto

lemma be16_back [simp]: "of_be16 (ucast (drop_bit 8 w) # ucast w # bs) = w"
  unfolding of_be16_def
  by (rule bit_word_eqI) (auto simp: bit_or_iff bit_push_bit_iff bit_ucast_iff bit_drop_bit_eq not_less)

lemma be32_back [simp]:
  "of_be32 (ucast (drop_bit 24 w) # ucast (drop_bit 16 w) # ucast (drop_bit 8 w) # ucast w # bs) = w"
proof (rule bit_word_eqI)
  fix n :: nat assume n: "n < LENGTH(32)"
  consider "n < 8" | "8 \<le> n" "n < 16" | "16 \<le> n" "n < 24" | "24 \<le> n" by linarith
  then show "bit (of_be32 (ucast (drop_bit 24 w) # ucast (drop_bit 16 w) # ucast (drop_bit 8 w) # ucast w # bs)) n = bit w n"
    using n by cases (auto simp: of_be32_def bit_or_iff bit_push_bit_iff bit_ucast_iff bit_drop_bit_eq)
qed

lemma bytes_upd_fields:
  "a + n \<le> 65536 \<Longrightarrow> map (\<lambda>i. upd_fields a fs r (of_nat (a + i))) [0..<n] =
     map (\<lambda>i. field_at fs i (r (of_nat (a + i)))) [0..<n]"
  by (intro map_cong refl upd_fields_at) auto

text \<open>
  \<open>copystat\<close> lays out a \<open>struct _uzistat\<close> that fits into memory as the FUZIX
  programs read it: big-endian, every member with the low bits of the host's
  value, and nothing else written, the high time bytes and the bytes around the
  structure included.
\<close>

lemma stat_layout:
  assumes "dst + 36 \<le> 65536"
  shows "\<exists>t bs. copystat h dst s = Inr ((), t) \<and> load_bytes dst 36 t = Inr (bs, t) \<and>
     of_be32 bs = word_of_int (h_size h) \<and> of_be32 (drop 4 bs) = word_of_int (h_atime h) \<and>
     of_be32 (drop 8 bs) = word_of_int (h_mtime h) \<and> of_be32 (drop 12 bs) = word_of_int (h_ctime h) \<and>
     of_be16 (drop 20 bs) = word_of_int (h_dev h) \<and> of_be16 (drop 22 bs) = word_of_int (h_ino h) \<and>
     of_be16 (drop 24 bs) = word_of_int (h_mode h) \<and> of_be16 (drop 26 bs) = word_of_int (h_nlink h) \<and>
     of_be16 (drop 28 bs) = word_of_int (h_uid h) \<and> of_be16 (drop 30 bs) = word_of_int (h_gid h) \<and>
     of_be16 (drop 32 bs) = word_of_int (h_rdev h) \<and>
     (\<forall>x. unat x < dst \<or> dst + 16 \<le> unat x \<and> unat x < dst + 20 \<or> dst + 34 \<le> unat x \<longrightarrow>
       ram t x = ram s x)"
proof -
  define fs where "fs = stat_fields h"
  have fits: "\<forall>(off, bs) \<in> set fs. dst + off + length bs \<le> 65536"
    using assms by (simp add: fs_def stat_fields_def be16_def be32_def)
  have ok: "copystat h dst s = ok (s\<lparr>ram := upd_fields dst fs (ram s)\<rparr>)"
    unfolding copystat_def fs_def [symmetric] by (rule store_fields_ok [OF fits])
  have out: "upd_fields dst fs (ram s) x = ram s x" if "unat x < dst \<or> dst + 34 \<le> unat x" for x
    by (rule upd_fields_outside [where n = 34]) (use that in \<open>simp_all add: fs_def stat_fields_def be16_def be32_def\<close>)
  have hole: "upd_fields dst fs (ram s) x = ram s x" if x: "dst + 16 \<le> unat x" "unat x < dst + 20" for x
  proof -
    define k where "k = unat x - dst"
    have k: "dst + k = unat x" "16 \<le> k" "k < 20" using x by (simp_all add: k_def)
    have "upd_fields dst fs (ram s) (of_nat (dst + k)) = ram s (of_nat (dst + k))"
      using k(2,3) assms by (subst upd_fields_at) (simp_all add: fs_def stat_fields_def be16_def be32_def)
    then show ?thesis by (simp add: k(1) del: of_nat_add)
  qed
  define B where "B = map (\<lambda>i. field_at fs i (ram s (of_nat (dst + i)))) [0..<36]"
  have nth: "drop k B ! i = field_at fs (k + i) (ram s (of_nat (dst + (k + i))))" if "k + i < 36" for k i
    using that by (simp add: B_def)
  have load: "load_bytes dst 36 (s\<lparr>ram := upd_fields dst fs (ram s)\<rparr>) = Inr (B, s\<lparr>ram := upd_fields dst fs (ram s)\<rparr>)"
    using bytes_upd_fields [OF assms, of fs "ram s"] assms by (simp add: load_bytes_def B_def)
  note f = fs_def stat_fields_def be16_def be32_def
  have w32: "of_be32 (drop k B) = w" if "k + 4 \<le> 36"
    "\<And>d :: nat \<Rightarrow> u8. [field_at fs (k + 0) (d 0), field_at fs (k + 1) (d 1), field_at fs (k + 2) (d 2), field_at fs (k + 3) (d 3)] = be32 w"
    for k and w
    using that(1) be32_back [of w "[]"] that(2) [of "\<lambda>i. ram s (of_nat (dst + (k + i)))"]
    by (simp add: of_be32_def nth be32_def del: of_nat_add)
  have w16: "of_be16 (drop k B) = w" if "k + 2 \<le> 36"
    "\<And>d :: nat \<Rightarrow> u8. [field_at fs (k + 0) (d 0), field_at fs (k + 1) (d 1)] = be16 w" for k and w
    using that(1) be16_back [of w "[]"] that(2) [of "\<lambda>i. ram s (of_nat (dst + (k + i)))"]
    by (simp add: of_be16_def nth be16_def del: of_nat_add)
  have size: "of_be32 B = word_of_int (h_size h)"
    using w32 [of 0 "word_of_int (h_size h)"] by (simp add: f)
  have times: "of_be32 (drop 4 B) = word_of_int (h_atime h)" "of_be32 (drop 8 B) = word_of_int (h_mtime h)"
    "of_be32 (drop 12 B) = word_of_int (h_ctime h)"
    by (rule w32; simp add: f)+
  have words: "of_be16 (drop 20 B) = word_of_int (h_dev h)" "of_be16 (drop 22 B) = word_of_int (h_ino h)"
    "of_be16 (drop 24 B) = word_of_int (h_mode h)" "of_be16 (drop 26 B) = word_of_int (h_nlink h)"
    "of_be16 (drop 28 B) = word_of_int (h_uid h)" "of_be16 (drop 30 B) = word_of_int (h_gid h)"
    "of_be16 (drop 32 B) = word_of_int (h_rdev h)"
    by (rule w16; simp add: f)+
  have other: "\<forall>x. unat x < dst \<or> dst + 16 \<le> unat x \<and> unat x < dst + 20 \<or> dst + 34 \<le> unat x \<longrightarrow>
      upd_fields dst fs (ram s) x = ram s x"
    using out hole by blast
  show ?thesis
    by (rule exI [of _ "s\<lparr>ram := upd_fields dst fs (ram s)\<rparr>"], rule exI [of _ B])
       (simp add: ok load size times words other)
qed

lemma stat_layout_witness:
  "\<exists>t bs. copystat (undefined\<lparr>h_size := 70000\<rparr>) 0xFF00 power_on = Inr ((), t) \<and>
     load_bytes 0xFF00 36 t = Inr (bs, t) \<and> of_be32 bs = 70000"
  using stat_layout [of "0xFF00" "undefined\<lparr>h_size := 70000\<rparr>" power_on] by auto

subsection \<open>Terminal settings\<close>

lemma or_single_bit: "x AND push_bit n 1 \<noteq> (0 :: u32) \<Longrightarrow> x OR push_bit n 1 = x"
  by (rule bit_word_eqI) (auto simp: bit_or_iff bit_exp_iff and_exp_eq_0_iff_not_bit push_bit_of_1)

lemma and_not_clear:
  assumes "x AND h = (0 :: u32)" shows "x AND NOT h = x"
proof (rule bit_word_eqI)
  fix n
  have "bit (x AND h) n = False" using assms by simp
  then show "n < LENGTH(32) \<Longrightarrow> bit (x AND NOT h) n = bit x n" by (auto simp: bit_and_iff bit_not_iff_eq)
qed

definition single_bits :: "(u16 \<times> u32) list \<Rightarrow> bool" where
  "single_bits fm \<longleftrightarrow> (\<forall>(f, h) \<in> set fm. h \<in> (\<lambda>n. push_bit n 1) ` {0, 1, 2, 3, 4, 5, 6, 8})"

lemma flags_back:
  assumes "\<forall>(f, h) \<in> set fm. (y AND f \<noteq> 0) = (x AND h \<noteq> 0)" "single_bits fm"
  shows "mapfromflags fm y x = x"
  using assms
proof (induction fm)
  case Nil then show ?case by (simp add: mapfromflags_def)
next
  case (Cons e fm)
  obtain f h where e: "e = (f, h)" by force
  have "h \<in> (\<lambda>n. push_bit n 1) ` {0, 1, 2, 3, 4, 5, 6, 8}"
    using Cons.prems(2) unfolding single_bits_def e by (simp only: list.set ball_simps prod.case)
  then obtain n where n: "h = push_bit n 1" by (rule imageE)
  have set: "x AND h \<noteq> 0 \<Longrightarrow> x OR h = x" unfolding n by (rule or_single_bit)
  have "(y AND f \<noteq> 0) = (x AND h \<noteq> 0)" using Cons.prems(1) e by simp
  then have "(if y AND f \<noteq> 0 then x OR h else x AND NOT h) = x"
    by (simp add: set and_not_clear)
  moreover have "single_bits fm" "\<forall>(f, h) \<in> set fm. (y AND f \<noteq> 0) = (x AND h \<noteq> 0)"
    using Cons.prems unfolding single_bits_def list.set by (blast intro: insertI2)+
  ultimately show ?case
    using Cons.IH e by (simp add: mapfromflags_def)
qed

lemma flag_tables:
  "mapfromflags iflag_map (maptoflags iflag_map x) x = x"
  "mapfromflags oflag_map (maptoflags oflag_map x) x = x"
  "mapfromflags lflag_map (maptoflags lflag_map x) x = x"
proof -
  have "single_bits iflag_map" "single_bits oflag_map" "single_bits lflag_map"
    by (simp_all add: iflag_map_def oflag_map_def lflag_map_def single_bits_def)
  note b = flags_back [OF _ this(1)] flags_back [OF _ this(2)] flags_back [OF _ this(3)]
  show "mapfromflags iflag_map (maptoflags iflag_map x) x = x"
    by (rule b(1)) (simp add: iflag_map_def maptoflags_def)
  show "mapfromflags oflag_map (maptoflags oflag_map x) x = x"
    by (rule b(2)) (simp add: oflag_map_def maptoflags_def)
  show "mapfromflags lflag_map (maptoflags lflag_map x) x = x"
    by (rule b(3)) (simp add: lflag_map_def maptoflags_def)
qed

lemma termios_steps:
  assumes "a + 20 \<le> 65536"
  shows "\<exists>u. to_fuzix_termios a t s = ok u \<and>
     from_fuzix_termios a t u = Inr (t\<lparr>t_cc := (t_cc t)(6 := t_cc t 4)\<rparr>, u)"
proof -
  define fs where "fs = map (\<lambda>(fi, hi). (8 + fi, [t_cc t hi])) cc_map @
       [(0, be16 (maptoflags iflag_map (t_iflag t))), (2, be16 (maptoflags oflag_map (t_oflag t))),
        (6, be16 (maptoflags lflag_map (t_lflag t)))]"
  define u where "u = s\<lparr>ram := upd_fields a fs (ram s)\<rparr>"
  have "\<forall>(off, bs) \<in> set fs. a + off + length bs \<le> 65536"
    using assms by (simp add: fs_def cc_map_def be16_def)
  then have to: "to_fuzix_termios a t s = ok u"
    unfolding to_fuzix_termios_def fs_def [symmetric] u_def by (rule store_fields_ok)
  define B where "B = map (\<lambda>i. field_at fs i (ram s (of_nat (a + i)))) [0..<20]"
  have load: "load_bytes a 20 u = Inr (B, u)"
    using bytes_upd_fields [OF assms, of fs "ram s"] assms by (simp add: load_bytes_def B_def u_def)
  have nth: "B ! i = field_at fs i (ram s (of_nat (a + i)))" if "i < 20" for i
    using that by (simp add: B_def)
  have at: "field_at fs 0 d = ucast (drop_bit 8 (maptoflags iflag_map (t_iflag t)))"
    "field_at fs 1 d = ucast (maptoflags iflag_map (t_iflag t))"
    "field_at fs 2 d = ucast (drop_bit 8 (maptoflags oflag_map (t_oflag t)))"
    "field_at fs 3 d = ucast (maptoflags oflag_map (t_oflag t))"
    "field_at fs 6 d = ucast (drop_bit 8 (maptoflags lflag_map (t_lflag t)))"
    "field_at fs 7 d = ucast (maptoflags lflag_map (t_lflag t))" for d
    by (simp_all add: fs_def cc_map_def be16_def)
  have cc: "field_at fs 8 d = t_cc t 4" "field_at fs 9 d = t_cc t 5" "field_at fs 10 d = t_cc t 2"
    "field_at fs 11 d = t_cc t 0" "field_at fs 12 d = t_cc t 3" "field_at fs 13 d = t_cc t 1"
    "field_at fs 14 d = t_cc t 8" "field_at fs 15 d = t_cc t 9" "field_at fs 19 d = t_cc t 13" for d
    by (simp_all add: fs_def cc_map_def be16_def)
  have flags: "of_be16 (take 2 B) = maptoflags iflag_map (t_iflag t)"
    "of_be16 (take 2 (drop 2 B)) = maptoflags oflag_map (t_oflag t)"
    "of_be16 (take 2 (drop 6 B)) = maptoflags lflag_map (t_lflag t)"
    using be16_back [of _ "[]"] by (simp_all add: of_be16_def nth at at(2) [unfolded One_nat_def] B_def [THEN arg_cong, of length])
  have "foldl (\<lambda>cc (fi, hi). cc(hi := B ! (8 + fi))) (t_cc t) cc_map = (t_cc t)(6 := t_cc t 4)"
    by (rule ext) (simp add: cc_map_def nth cc)
  then have "from_fuzix_termios a t u = Inr (t\<lparr>t_cc := (t_cc t)(6 := t_cc t 4)\<rparr>, u)"
    by (simp add: from_fuzix_termios_def load flags flag_tables)
  with to show ?thesis by blast
qed

text \<open>
  C36. Terminal settings read and written back unchanged are the host's settings,
  but for VMIN, which takes the value of VEOF: the two share a slot of the FUZIX
  structure.
\<close>

theorem terminal_settings_read_back:
  assumes "a + 20 \<le> 65536"
  shows "bindr (to_fuzix_termios a t s) (\<lambda>_. from_fuzix_termios a t) =
     bindr (to_fuzix_termios a t s) (\<lambda>_ u. Inr (t\<lparr>t_cc := (t_cc t)(6 := t_cc t 4)\<rparr>, u))"
  using termios_steps [OF assms, of t s] by auto

lemma terminal_settings_read_back_witness:
  "bindr (to_fuzix_termios 0x100 \<lparr>t_iflag = 0x500, t_oflag = 5, t_lflag = 0x8A3B, t_cc = (\<lambda>_. 7)\<rparr> power_on)
     (\<lambda>_. from_fuzix_termios 0x100 \<lparr>t_iflag = 0x500, t_oflag = 5, t_lflag = 0x8A3B, t_cc = (\<lambda>_. 7)\<rparr>) =
   bindr (to_fuzix_termios 0x100 \<lparr>t_iflag = 0x500, t_oflag = 5, t_lflag = 0x8A3B, t_cc = (\<lambda>_. 7)\<rparr> power_on)
     (\<lambda>_ u. Inr (\<lparr>t_iflag = 0x500, t_oflag = 5, t_lflag = 0x8A3B, t_cc = (\<lambda>_. 7)\<rparr>, u))"
  using terminal_settings_read_back [of "0x100" "\<lparr>t_iflag = 0x500, t_oflag = 5, t_lflag = 0x8A3B, t_cc = (\<lambda>_. 7)\<rparr>" power_on]
  by (simp add: fun_upd_idem)

end
