(* ===== verification/ArgSpec.thy ===== *)
theory ArgSpec
  imports SysProps
begin

text \<open>
  What a program finds on its stack: \<open>set_arg_env\<close> against the reader of
  \<open>execve\<close> and the C strings in memory.
\<close>

subsection \<open>Words and strings in memory\<close>

declare of_nat_add [simp del] of_nat_Suc [simp del]

text \<open>Natural numbers as addresses; memory as a function of them.\<close>

definition word_at :: "(u16 \<Rightarrow> u8) \<Rightarrow> nat \<Rightarrow> u16" where
  "word_at r a = of_be16 [r (of_nat a), r (of_nat (Suc a))]"

definition string_at :: "(u16 \<Rightarrow> u8) \<Rightarrow> nat \<Rightarrow> nat \<Rightarrow> u16 \<Rightarrow> string \<Rightarrow> bool" where
  "string_at r lo hi p str \<longleftrightarrow> lo \<le> unat p \<and> unat p + length str < hi \<and>
     (\<forall>a. unat p \<le> a \<and> a \<le> unat p + length str \<longrightarrow> r (of_nat a) = c_bytes str ! (a - unat p))"

definition same_from :: "nat \<Rightarrow> nat \<Rightarrow> (u16 \<Rightarrow> u8) \<Rightarrow> (u16 \<Rightarrow> u8) \<Rightarrow> bool" where
  "same_from lo hi r r' \<longleftrightarrow> (\<forall>a. lo \<le> a \<and> a < hi \<longrightarrow> r (of_nat a) = r' (of_nat a))"

lemma string_at_same: "string_at r lo hi p str \<Longrightarrow> same_from lo hi r r' \<Longrightarrow> string_at r' lo hi p str"
  by (auto simp: string_at_def same_from_def)

lemma string_at_mono: "string_at r lo hi p str \<Longrightarrow> lo' \<le> lo \<Longrightarrow> hi \<le> hi' \<Longrightarrow> string_at r lo' hi' p str"
  by (auto simp: string_at_def)

lemma same_from_trans: "same_from lo hi r r' \<Longrightarrow> same_from lo hi r' r'' \<Longrightarrow> same_from lo hi r r''"
  by (simp add: same_from_def)

lemma same_from_mono: "same_from lo hi r r' \<Longrightarrow> lo \<le> lo' \<Longrightarrow> hi' \<le> hi \<Longrightarrow> same_from lo' hi' r r'"
  by (simp add: same_from_def)

lemma unat_small: "a < 65536 \<Longrightarrow> unat (of_nat a :: u16) = a"
  by (simp add: unsigned_of_nat take_bit_nat_eq_self)

lemma of_nat_inj: "a < 65536 \<Longrightarrow> b < 65536 \<Longrightarrow> (of_nat a :: u16) = of_nat b \<longleftrightarrow> a = b"
  by (metis unat_small)

lemma ucast_small: "a < 65536 \<Longrightarrow> (ucast (of_nat a :: u16) :: u32) = of_nat a"
  by (simp add: word_unat_eq_iff unsigned_ucast_eq unsigned_of_nat take_bit_nat_eq_self take_bit_word_eq_self)

lemma ucast_down: "(ucast (of_nat a :: u32) :: u16) = of_nat a"
  by (simp add: word_unat_eq_iff unsigned_ucast_eq unsigned_of_nat unsigned_take_bit_eq take_bit_take_bit)

lemma not_special: "x < 0xFEFC \<Longrightarrow> (of_nat x :: u32) \<notin> {0xFEFF, 0xFEFE, 0xFEFD, 0xFEFC}"
  by (simp add: word_unat_eq_iff unsigned_of_nat take_bit_nat_eq_self)

lemma low_byte: "(ucast (w AND 0xFF :: u16) :: u8) = ucast w"
proof -
  have "(ucast (w AND mask 8 :: u16) :: u8) = ucast w"
    by (rule bit_word_eqI) (simp add: bit_and_iff bit_ucast_iff bit_mask_iff)
  then show ?thesis by (simp add: mask_eq_exp_minus_1)
qed

lemma write_plain:
  "a < 0xFEFC \<Longrightarrow> e6809_write8 (of_nat a) v s = ok (s\<lparr>ram := (ram s)(of_nat a := v)\<rparr>)"
  using not_special [of a] by (simp add: e6809_write8_def ucast_down)

lemma putui_ok:
  assumes "a < 0xFE00"
  shows "putui (of_nat a) w s = ok (s\<lparr>ram := (ram s)(of_nat a := ucast (drop_bit 8 w), of_nat (Suc a) := ucast w)\<rparr>)"
proof -
  have s: "(of_nat a + 1 :: u16) = of_nat (Suc a)" by (simp add: of_nat_Suc add.commute)
  have "putui (of_nat a) w s =
      bindr (e6809_write8 (of_nat a) (ucast (drop_bit 8 w)) s) (\<lambda>_. e6809_write8 (of_nat (Suc a)) (ucast w))"
    unfolding putui_def s low_byte using assms by (simp add: ucast_small)
  then show ?thesis using assms by (simp add: write_plain)
qed

text \<open>A store of a word, and of a string.\<close>

abbreviation put_word :: "nat \<Rightarrow> u16 \<Rightarrow> (u16 \<Rightarrow> u8) \<Rightarrow> (u16 \<Rightarrow> u8)" where
  "put_word a w r \<equiv> r(of_nat a := ucast (drop_bit 8 w), of_nat (Suc a) := ucast w)"

lemma word_at_put [simp]: "a < 0xFE00 \<Longrightarrow> word_at (put_word a w r) a = w"
  using of_nat_inj [of a "Suc a"] by (simp add: word_at_def)

lemma same_put: "a < 65535 \<Longrightarrow> hi \<le> 65536 \<Longrightarrow> hi \<le> a \<or> a + 2 \<le> lo \<Longrightarrow> same_from lo hi r (put_word a w r)"
  unfolding same_from_def
proof (intro allI impI)
  fix b assume "a < 65535" "hi \<le> 65536" "hi \<le> a \<or> a + 2 \<le> lo" "lo \<le> b \<and> b < hi"
  then have "(of_nat b :: u16) \<noteq> of_nat a" "(of_nat b :: u16) \<noteq> of_nat (Suc a)"
    by (auto simp: of_nat_inj)
  then show "r (of_nat b) = put_word a w r (of_nat b)" by simp
qed

lemma word_at_same: "same_from lo hi r r' \<Longrightarrow> lo \<le> a \<Longrightarrow> a + 2 \<le> hi \<Longrightarrow> word_at r' a = word_at r a"
  by (simp add: word_at_def same_from_def)

lemma length_c_bytes [simp]: "length (c_bytes str) = length str + 1"
  by (simp add: c_bytes_def)

lemma store_string:
  assumes "0 < a" "a + length str < 65536"
  shows "\<exists>r. store_bytes a (c_bytes str) s = ok (s\<lparr>ram := r\<rparr>) \<and>
     string_at r a (a + length str + 1) (of_nat a) str \<and>
     (\<forall>lo hi. hi \<le> 65536 \<longrightarrow> hi \<le> a \<or> a + length str + 1 \<le> lo \<longrightarrow> same_from lo hi (ram s) r)"
  using assms by (auto simp: store_bytes_def string_at_def same_from_def unat_small)

text \<open>The bytes that strings take.\<close>

definition size_of :: "string list \<Rightarrow> nat" where
  "size_of strs = sum_list (map (\<lambda>str. length str + 1) strs)"

lemma push_strings_ok:
  assumes "size_of strs < posn" "posn < 0xFE00"
  shows "\<exists>ps r. push_strings strs (of_nat posn) s = Inr ((ps, of_nat (posn - size_of strs)), s\<lparr>ram := r\<rparr>) \<and>
     list_all2 (string_at r (posn - size_of strs) posn) ps strs \<and>
     (\<forall>lo hi. hi \<le> 65536 \<longrightarrow> hi \<le> posn - size_of strs \<or> posn \<le> lo \<longrightarrow> same_from lo hi (ram s) r)"
  using assms
proof (induction strs arbitrary: s)
  case Nil
  then show ?case by (auto simp: size_of_def same_from_def intro!: exI [of _ "ram s"])
next
  case (Cons str strs)
  define q where "q = posn - size_of strs"
  define a where "a = posn - size_of (str # strs)"
  have q: "q = a + length str + 1" "0 < a" "q \<le> posn" and size: "size_of strs < posn"
    using Cons.prems by (simp_all add: q_def a_def size_of_def)
  obtain ps r where r: "push_strings strs (of_nat posn) s = Inr ((ps, of_nat q), s\<lparr>ram := r\<rparr>)"
      "list_all2 (string_at r q posn) ps strs"
      "\<And>lo hi. hi \<le> 65536 \<Longrightarrow> hi \<le> q \<or> posn \<le> lo \<Longrightarrow> same_from lo hi (ram s) r"
    using Cons.IH [OF size, of s] Cons.prems(2) unfolding q_def by blast
  obtain r' where r': "store_bytes a (c_bytes str) (s\<lparr>ram := r\<rparr>) = ok (s\<lparr>ram := r'\<rparr>)"
      "string_at r' a q (of_nat a) str"
      "\<And>lo hi. hi \<le> 65536 \<Longrightarrow> hi \<le> a \<or> q \<le> lo \<Longrightarrow> same_from lo hi r r'"
    using store_string [of a str "s\<lparr>ram := r\<rparr>"] q Cons.prems(2) by auto
  have minus: "(of_nat q :: u16) - of_nat (length str + 1) = of_nat a"
    by (simp add: q(1) of_nat_add of_nat_Suc)
  have len: "unat (of_nat (length str + 1) :: u16) = length str + 1" "unat (of_nat a :: u16) = a"
    "get_memptr (of_nat a) = Some (of_nat a)"
    using q Cons.prems(2) of_nat_inj [of a 0] by (simp_all add: unat_small get_memptr_def)
  have push: "push_strings (str # strs) (of_nat posn) s = Inr ((of_nat a # ps, of_nat a), s\<lparr>ram := r'\<rparr>)"
    unfolding push_strings.simps r(1) bindr_Inr prod.case Let_def minus len option.case
    using r'(1) by simp
  have same: "same_from q posn r r'" by (rule r'(3)) (use Cons.prems(2) in simp_all)
  have "list_all2 (string_at r' a posn) ps strs"
    using r(2)
    by (rule list_all2_mono) (use q string_at_same [OF _ same] in \<open>auto intro: string_at_mono [of _ q posn]\<close>)
  moreover have "string_at r' a posn (of_nat a) str"
    by (rule string_at_mono [OF r'(2)]) (use q in simp_all)
  moreover have "same_from lo hi (ram s) r'" if h: "hi \<le> 65536" "hi \<le> a \<or> posn \<le> lo" for lo hi
    using h q by (intro same_from_trans [OF r(3) r'(3)]) linarith+
  ultimately show ?case
    unfolding a_def [symmetric] using push by blast
qed

lemma push_pointers_ok:
  assumes "2 * length ps \<le> posn" "posn < 0xFE00"
  shows "\<exists>r. push_pointers ps (of_nat posn) s = Inr (of_nat (posn - 2 * length ps), s\<lparr>ram := r\<rparr>) \<and>
     (\<forall>i < length ps. word_at r (posn - 2 * length ps + 2 * i) = ps ! i) \<and>
     (\<forall>lo hi. hi \<le> 65536 \<longrightarrow> hi \<le> posn - 2 * length ps \<or> posn \<le> lo \<longrightarrow> same_from lo hi (ram s) r)"
  using assms
proof (induction ps arbitrary: s)
  case Nil
  then show ?case by (auto simp: same_from_def intro!: exI [of _ "ram s"])
next
  case (Cons p ps)
  define q where "q = posn - 2 * length ps"
  define a where "a = posn - 2 * length (p # ps)"
  have q: "q = Suc (Suc a)" "q \<le> posn" using Cons.prems by (simp_all add: q_def a_def)
  obtain r where r: "push_pointers ps (of_nat posn) s = Inr (of_nat q, s\<lparr>ram := r\<rparr>)"
      "\<And>i. i < length ps \<Longrightarrow> word_at r (q + 2 * i) = ps ! i"
      "\<And>lo hi. hi \<le> 65536 \<Longrightarrow> hi \<le> q \<or> posn \<le> lo \<Longrightarrow> same_from lo hi (ram s) r"
    using Cons.IH [of s] Cons.prems unfolding q_def by auto
  have s: "(of_nat q :: u16) - 2 = of_nat a" by (simp add: q(1) of_nat_Suc)
  have a: "a < 0xFE00" using q Cons.prems(2) by simp
  have push: "push_pointers (p # ps) (of_nat posn) s = Inr (of_nat a, s\<lparr>ram := put_word a p r\<rparr>)"
    unfolding push_pointers.simps r(1) bindr_Inr Let_def s putui_ok [OF a] by simp
  have keep: "same_from lo hi r (put_word a p r)" if "hi \<le> 65536" "hi \<le> a \<or> q \<le> lo" for lo hi
    by (rule same_put) (use that a q in simp_all)
  have "word_at (put_word a p r) (a + 2 * i) = (p # ps) ! i" if i: "i < length (p # ps)" for i
  proof (cases i)
    case (Suc j)
    have "a + 2 * i = q + 2 * j" "q + 2 * j + 2 \<le> posn" using Suc i q by (simp_all add: q_def)
    moreover have "word_at (put_word a p r) (q + 2 * j) = word_at r (q + 2 * j)"
      by (rule word_at_same [OF keep [of posn q]]) (use calculation(2) Cons.prems(2) in simp_all)
    moreover have "word_at r (q + 2 * j) = (p # ps) ! i" using r(2) [of j] Suc i by simp
    ultimately show ?thesis by (simp only:)
  qed (use a in simp)
  moreover have "same_from lo hi (ram s) (put_word a p r)" if h: "hi \<le> 65536" "hi \<le> a \<or> posn \<le> lo" for lo hi
    using h q by (intro same_from_trans [OF r(3) keep]) linarith+
  ultimately show ?case unfolding a_def [symmetric] using push by blast
qed

subsection \<open>Reading back\<close>

lemma getui_word_at: "a < 65535 \<Longrightarrow> getui (of_nat a) s = word_at (ram s) a"
proof -
  assume a: "a < 65535"
  have "(ucast (of_nat a :: u16) + 1 :: u32) = of_nat (Suc a)"
    using a by (simp add: ucast_small of_nat_Suc add.commute)
  then show ?thesis
    using a by (simp add: getui_def e6809_read8_def ucast_small ucast_down word_at_def of_be16_def)
qed

lemma cstr_at_string:
  assumes "string_at (ram s) lo hi p str" "hi \<le> 65536" "CHR 0x00 \<notin> set str"
  shows "cstr_at p s = Some str"
  using assms
proof (induction str arbitrary: p lo)
  case Nil
  then have "ram s p = 0" by (auto simp: string_at_def c_bytes_def)
  then show ?case by (simp add: cstr_at.simps)
next
  case (Cons c str)
  have p: "unat p + Suc (length str) < hi" "ram s p = of_nat (of_char c)"
    using Cons.prems(1) by (auto simp: string_at_def c_bytes_def)
  have small: "(of_char c :: nat) < 256" by simp
  have c: "char_of (unat (ram s p)) = c"
    using small by (simp add: p(2) unsigned_of_nat take_bit_nat_eq_self)
  have "ram s p \<noteq> 0"
  proof
    assume "ram s p = 0"
    with c have "c = CHR 0x00" by (simp add: char_of_def)
    with Cons.prems(3) show False by simp
  qed
  moreover have "p \<noteq> 0xFFFF" using p(1) Cons.prems(2) by auto
  moreover have "cstr_at (p + 1) s = Some str"
  proof (rule Cons.IH)
    have "unat (p + 1) = Suc (unat p)"
      using p(1) Cons.prems(2) by (simp add: unat_word_ariths)
    then show "string_at (ram s) (Suc (unat p)) hi (p + 1) str"
      using Cons.prems(1) by (auto simp: string_at_def c_bytes_def nth_Cons' Suc_diff_le)
  qed (use Cons.prems in simp_all)
  ultimately show ?case using c by (simp add: cstr_at.simps)
qed

subsection \<open>The stack of a new program\<close>

text \<open>A NULL-terminated array of pointers to C strings.\<close>

definition vector_at :: "u16 \<Rightarrow> string list \<Rightarrow> 'z machine_scheme \<Rightarrow> bool" where
  "vector_at a strs s \<longleftrightarrow>
     (\<forall>i < length strs. getui (a + of_nat (2 * i)) s \<noteq> 0 \<and>
        cstr_at (getui (a + of_nat (2 * i)) s) s = Some (strs ! i)) \<and>
     getui (a + of_nat (2 * length strs)) s = 0"

lemma vector_atI:
  assumes strs: "list_all2 (string_at r lo hi) ps strs" "0 < lo" "hi \<le> 65536" "same_from lo hi r (ram s)"
    and ps: "\<And>i. i < length ps \<Longrightarrow> word_at r' (a + 2 * i) = ps ! i" "same_from a (a + 2 * length ps) r' (ram s)"
    and null: "word_at (ram s) (a + 2 * length ps) = 0" "a + 2 * length ps < 65535"
    and nul: "\<forall>str \<in> set strs. CHR 0x00 \<notin> set str"
  shows "vector_at (of_nat a) strs s"
proof -
  have len: "length ps = length strs" using strs(1) by (rule list_all2_lengthD)
  have "getui (of_nat a + of_nat (2 * i)) s \<noteq> 0 \<and> cstr_at (getui (of_nat a + of_nat (2 * i)) s) s = Some (strs ! i)" if i: "i < length strs" for i
  proof -
    have "getui (of_nat a + of_nat (2 * i)) s = word_at (ram s) (a + 2 * i)"
      using getui_word_at [of "a + 2 * i" s] i null(2) len by (simp add: of_nat_add)
    also have "\<dots> = word_at r' (a + 2 * i)"
      by (rule word_at_same [OF ps(2)]) (use i len in simp_all)
    also have "\<dots> = ps ! i" using ps(1) i len by simp
    finally have eq: "getui (of_nat a + of_nat (2 * i)) s = ps ! i" .
    have str: "string_at (ram s) lo hi (ps ! i) (strs ! i)"
      by (rule string_at_same [OF list_all2_nthD2 [OF strs(1) i] strs(4)])
    then have "ps ! i \<noteq> 0" using strs(2) by (auto simp: string_at_def)
    then show ?thesis
      unfolding eq using cstr_at_string [OF str strs(3)] nul i by simp
  qed
  moreover have "getui (of_nat a + of_nat (2 * length strs)) s = 0"
    using getui_word_at [of "a + 2 * length strs" s] null len by (simp add: of_nat_add)
  ultimately show ?thesis by (simp add: vector_at_def)
qed

lemma set_arg_env_steps:
  assumes "length argv \<le> MAX_ARGS" "length envp \<le> MAX_ARGS"
    and "p6 = p + 6" "p5 = p6 + 2 * length argv" "p4 = p5 + 2" "p3 = p4 + 2 * length envp" "p2 = p3 + 2"
    and "p1 = p2 + size_of argv" "p0 = p1 + size_of envp" "p0 < 0xFE00" and sp: "sp = of_nat (p0 + 2)"
  shows "\<exists>aps eps r2 r3 r5 r7 r.
     set_arg_env sp argv envp s = Inr (of_nat p, s\<lparr>ram := r\<rparr>) \<and>
     list_all2 (string_at r2 p1 p0) eps envp \<and> list_all2 (string_at r3 p2 p1) aps argv \<and>
     (\<forall>i < length eps. word_at r5 (p4 + 2 * i) = eps ! i) \<and>
     (\<forall>i < length aps. word_at r7 (p6 + 2 * i) = aps ! i) \<and>
     same_from p1 p0 r2 r \<and> same_from p2 p0 r3 r \<and> same_from p4 p0 r5 r \<and> same_from p6 p0 r7 r \<and>
     word_at r p3 = 0 \<and> word_at r p5 = 0 \<and>
     word_at r (p + 4) = of_nat p4 \<and> word_at r (p + 2) = of_nat p6 \<and> word_at r p = of_nat (length argv) \<and>
     (\<forall>lo hi. hi \<le> 65536 \<longrightarrow> hi \<le> p \<or> p0 + 2 \<le> lo \<longrightarrow> same_from lo hi (ram s) r)"
proof -
  define r1 where "r1 = put_word p0 0 (ram s)"
  obtain eps r2 where r2: "push_strings envp (of_nat p0) (s\<lparr>ram := r1\<rparr>) = Inr ((eps, of_nat p1), s\<lparr>ram := r2\<rparr>)"
      "list_all2 (string_at r2 p1 p0) eps envp"
      "\<And>lo hi. hi \<le> 65536 \<Longrightarrow> hi \<le> p1 \<or> p0 \<le> lo \<Longrightarrow> same_from lo hi r1 r2"
    using push_strings_ok [of envp p0 "s\<lparr>ram := r1\<rparr>"] assms by auto
  obtain aps r3 where r3: "push_strings argv (of_nat p1) (s\<lparr>ram := r2\<rparr>) = Inr ((aps, of_nat p2), s\<lparr>ram := r3\<rparr>)"
      "list_all2 (string_at r3 p2 p1) aps argv"
      "\<And>lo hi. hi \<le> 65536 \<Longrightarrow> hi \<le> p2 \<or> p1 \<le> lo \<Longrightarrow> same_from lo hi r2 r3"
    using push_strings_ok [of argv p1 "s\<lparr>ram := r2\<rparr>"] assms by auto
  have len: "length eps = length envp" "length aps = length argv"
    using r2(2) r3(2) by (auto dest: list_all2_lengthD)
  define r4 where "r4 = put_word p3 0 r3"
  obtain r5 where r5: "push_pointers eps (of_nat p3) (s\<lparr>ram := r4\<rparr>) = Inr (of_nat p4, s\<lparr>ram := r5\<rparr>)"
      "\<And>i. i < length eps \<Longrightarrow> word_at r5 (p4 + 2 * i) = eps ! i"
      "\<And>lo hi. hi \<le> 65536 \<Longrightarrow> hi \<le> p4 \<or> p3 \<le> lo \<Longrightarrow> same_from lo hi r4 r5"
    using push_pointers_ok [of eps p3 "s\<lparr>ram := r4\<rparr>"] assms len by auto
  define r6 where "r6 = put_word p5 0 r5"
  obtain r7 where r7: "push_pointers aps (of_nat p5) (s\<lparr>ram := r6\<rparr>) = Inr (of_nat p6, s\<lparr>ram := r7\<rparr>)"
      "\<And>i. i < length aps \<Longrightarrow> word_at r7 (p6 + 2 * i) = aps ! i"
      "\<And>lo hi. hi \<le> 65536 \<Longrightarrow> hi \<le> p6 \<or> p5 \<le> lo \<Longrightarrow> same_from lo hi r6 r7"
    using push_pointers_ok [of aps p5 "s\<lparr>ram := r6\<rparr>"] assms len by auto
  define r8 where "r8 = put_word (p + 4) (of_nat p4) r7"
  define r9 where "r9 = put_word (p + 2) (of_nat p6) r8"
  define r where "r = put_word p (of_nat (length argv)) r9"
  have minus: "sp - 2 = of_nat p0" "(of_nat p2 :: u16) - 2 = of_nat p3" "(of_nat p4 :: u16) - 2 = of_nat p5"
    "(of_nat p6 :: u16) - 2 = of_nat (p + 4)" "(of_nat p6 :: u16) - 4 = of_nat (p + 2)" "(of_nat p6 :: u16) - 6 = of_nat p"
    unfolding sp assms(3-7) by (simp_all add: of_nat_add of_nat_Suc)
  have bound: "p3 < 0xFE00" "p5 < 0xFE00" "p + 4 < 0xFE00" "p + 2 < 0xFE00" "p < 0xFE00"
    using assms by simp_all
  have puts: "putui (of_nat p0) 0 s = ok (s\<lparr>ram := r1\<rparr>)"
      "putui (of_nat p3) 0 (s\<lparr>ram := r3\<rparr>) = ok (s\<lparr>ram := r4\<rparr>)"
      "putui (of_nat p5) 0 (s\<lparr>ram := r5\<rparr>) = ok (s\<lparr>ram := r6\<rparr>)"
      "putui (of_nat (p + 4)) (of_nat p4) (s\<lparr>ram := r7\<rparr>) = ok (s\<lparr>ram := r8\<rparr>)"
      "putui (of_nat (p + 2)) (of_nat p6) (s\<lparr>ram := r8\<rparr>) = ok (s\<lparr>ram := r9\<rparr>)"
      "putui (of_nat p) (of_nat (length argv)) (s\<lparr>ram := r9\<rparr>) = ok (s\<lparr>ram := r\<rparr>)"
    using bound \<open>p0 < 0xFE00\<close> by (simp_all add: putui_ok r1_def r4_def r6_def r8_def r9_def r_def)
  have run: "set_arg_env sp argv envp s = Inr (of_nat p, s\<lparr>ram := r\<rparr>)"
    using assms(1,2) by (simp add: set_arg_env_def Let_def minus puts r2(1) r3(1) r5(1) r7(1) del: add_2_eq_Suc')
  have keep: "same_from lo hi r9 r" if "hi \<le> 65536" "hi \<le> p \<or> p + 2 \<le> lo" for lo hi
    unfolding r_def by (rule same_put) (use that bound in simp_all)
  have keep8: "same_from lo hi r8 r" if "hi \<le> 65536" "hi \<le> p \<or> p + 4 \<le> lo" for lo hi
    by (rule same_from_trans [OF _ keep], unfold r9_def, rule same_put) (use that bound in auto)
  have keep7: "same_from lo hi r7 r" if "hi \<le> 65536" "hi \<le> p \<or> p6 \<le> lo" for lo hi
    by (rule same_from_trans [OF _ keep8], unfold r8_def, rule same_put) (use that bound assms(3) in auto)
  have keep6: "same_from lo hi r6 r" if "hi \<le> 65536" "hi \<le> p \<or> p5 \<le> lo" for lo hi
    by (rule same_from_trans [OF r7(3) keep7]) (use that assms(3,4) in auto)
  have keep5: "same_from lo hi r5 r" if "hi \<le> 65536" "hi \<le> p \<or> p4 \<le> lo" for lo hi
    by (rule same_from_trans [OF _ keep6], unfold r6_def, rule same_put) (use that bound assms(3-5) in auto)
  have keep4: "same_from lo hi r4 r" if "hi \<le> 65536" "hi \<le> p \<or> p3 \<le> lo" for lo hi
    by (rule same_from_trans [OF r5(3) keep5]) (use that assms(3-6) in auto)
  have keep3: "same_from lo hi r3 r" if "hi \<le> 65536" "hi \<le> p \<or> p2 \<le> lo" for lo hi
    by (rule same_from_trans [OF _ keep4], unfold r4_def, rule same_put) (use that bound assms(3-7) in auto)
  have keep2: "same_from lo hi r2 r" if "hi \<le> 65536" "hi \<le> p \<or> p1 \<le> lo" for lo hi
    by (rule same_from_trans [OF r3(3) keep3]) (use that assms(3-8) in auto)
  have keep0: "same_from lo hi (ram s) r" if "hi \<le> 65536" "hi \<le> p \<or> p0 + 2 \<le> lo" for lo hi
    by (rule same_from_trans [OF same_from_trans [OF _ r2(3)] keep2], unfold r1_def, rule same_put)
       (use that assms(3-10) in auto)
  have "word_at r p3 = word_at r4 p3" "word_at r p5 = word_at r6 p5" "word_at r (p + 4) = word_at r8 (p + 4)"
    "word_at r (p + 2) = word_at r9 (p + 2)"
    using word_at_same [OF keep4 [of "p3 + 2" p3], of p3] word_at_same [OF keep6 [of "p5 + 2" p5], of p5]
      word_at_same [OF keep8 [of "p + 6" "p + 4"], of "p + 4"] word_at_same [OF keep [of "p + 4" "p + 2"], of "p + 2"] bound
    by simp_all
  moreover have "word_at r4 p3 = 0" "word_at r6 p5 = 0" "word_at r8 (p + 4) = of_nat p4"
      "word_at r9 (p + 2) = of_nat p6" "word_at r p = of_nat (length argv)"
    unfolding r4_def r6_def r8_def r9_def r_def using bound by (simp_all only: word_at_put)
  ultimately have "word_at r p3 = 0" "word_at r p5 = 0" "word_at r (p + 4) = of_nat p4" "word_at r (p + 2) = of_nat p6"
    "word_at r p = of_nat (length argv)"
    by (simp_all only:)
  moreover have "same_from p1 p0 r2 r" "same_from p2 p0 r3 r" "same_from p4 p0 r5 r" "same_from p6 p0 r7 r"
    using keep2 keep3 keep5 keep7 \<open>p0 < 0xFE00\<close> by simp_all
  ultimately show ?thesis
    using run r2(2) r3(2) r5(2) r7(2) keep0 by blast
qed

lemma set_arg_env_vectors:
  assumes "unat sp \<le> 0xFDFF" "length argv \<le> MAX_ARGS" "length envp \<le> MAX_ARGS"
    and fits: "size_of argv + size_of envp + 2 * (length argv + length envp) + 12 \<le> unat sp"
    and nul: "\<forall>str \<in> set argv \<union> set envp. CHR 0x00 \<notin> set str"
  shows "\<exists>p t. set_arg_env sp argv envp s = Inr (p, t) \<and> t = s\<lparr>ram := ram t\<rparr> \<and>
     unat p = unat sp - (size_of argv + size_of envp + 2 * (length argv + length envp) + 12) \<and>
     getui p t = of_nat (length argv) \<and>
     vector_at (getui (p + 2) t) argv t \<and> vector_at (getui (p + 4) t) envp t \<and>
     (\<forall>x. x < p \<or> sp \<le> x \<longrightarrow> ram t x = ram s x)"
proof -
  define p where "p = unat sp - (size_of argv + size_of envp + 2 * (length argv + length envp) + 12)"
  define p6 where "p6 = p + 6"
  define p5 where "p5 = p6 + 2 * length argv"
  define p4 where "p4 = p5 + 2"
  define p3 where "p3 = p4 + 2 * length envp"
  define p2 where "p2 = p3 + 2"
  define p1 where "p1 = p2 + size_of argv"
  define p0 where "p0 = p1 + size_of envp"
  note ps = p6_def p5_def p4_def p3_def p2_def p1_def p0_def
  have sp: "p0 + 2 = unat sp" using fits by (simp add: ps p_def)
  then have p0: "p0 < 0xFE00" "sp = of_nat (p0 + 2)" using assms(1) by simp_all
  obtain aps eps r2 r3 r5 r7 r where run: "set_arg_env sp argv envp s = Inr (of_nat p, s\<lparr>ram := r\<rparr>)"
    and v: "list_all2 (string_at r2 p1 p0) eps envp" "list_all2 (string_at r3 p2 p1) aps argv"
      "\<And>i. i < length eps \<Longrightarrow> word_at r5 (p4 + 2 * i) = eps ! i"
      "\<And>i. i < length aps \<Longrightarrow> word_at r7 (p6 + 2 * i) = aps ! i"
      "same_from p1 p0 r2 r" "same_from p2 p0 r3 r" "same_from p4 p0 r5 r" "same_from p6 p0 r7 r"
      "word_at r p3 = 0" "word_at r p5 = 0"
    and w: "word_at r (p + 4) = of_nat p4" "word_at r (p + 2) = of_nat p6" "word_at r p = of_nat (length argv)"
    and out: "\<And>lo hi. hi \<le> 65536 \<Longrightarrow> hi \<le> p \<or> p0 + 2 \<le> lo \<Longrightarrow> same_from lo hi (ram s) r"
    using set_arg_env_steps [OF assms(2,3) ps p0, of s] by blast
  have len: "length eps = length envp" "length aps = length argv"
    using v(1,2) by (auto dest: list_all2_lengthD)
  let ?t = "s\<lparr>ram := r\<rparr>"
  have small: "p < 0xFE00" "p6 < 0xFE00" "p5 < 0xFE00" "p4 < 0xFE00" "p3 < 0xFE00" "p1 \<le> p0"
    using p0(1) by (simp_all add: ps)
  have "vector_at (of_nat p6) argv ?t"
    by (rule vector_atI [OF v(2) _ _ _ v(4)])
       (use v(10) small len nul p0(1) same_from_mono [OF v(6)] same_from_mono [OF v(8)] in \<open>auto simp: ps\<close>)
  moreover have "vector_at (of_nat p4) envp ?t"
    by (rule vector_atI [OF v(1) _ _ _ v(3)])
       (use v(9) small len nul p0(1) same_from_mono [OF v(5)] same_from_mono [OF v(7)] in \<open>auto simp: ps\<close>)
  moreover have "getui (of_nat p) ?t = of_nat (length argv)" "getui (of_nat p + 2) ?t = of_nat p6"
      "getui (of_nat p + 4) ?t = of_nat p4"
    using getui_word_at [of p ?t] getui_word_at [of "p + 2" ?t] getui_word_at [of "p + 4" ?t] w small
    by (simp_all add: of_nat_add del: add_2_eq_Suc')
  moreover have "ram ?t x = ram s x" if x: "x < of_nat p \<or> sp \<le> x" for x
  proof -
    have "unat x < p \<or> p0 + 2 \<le> unat x"
      using x small sp by (auto simp: word_less_nat_alt word_le_nat_alt unat_small)
    then have "r (of_nat (unat x)) = ram s (of_nat (unat x))"
      using out [of p 0] out [of 65536 "p0 + 2"] small p0 unsigned_less [of x, where ?'a = nat]
      by (auto simp: same_from_def)
    then show ?thesis by simp
  qed
  ultimately show ?thesis
    using run small by (intro exI [of _ "of_nat p"] exI [of _ ?t]) (simp add: unat_small p_def)
qed

text \<open>
  C19. A new program finds its arguments: below a stack pointer that leaves the
  special locations free, and when everything fits, \<open>set_arg_env\<close> leaves the
  number of arguments, a pointer to the argument vector and a pointer to the
  environment vector on the stack, both vectors NULL-terminated arrays of
  pointers to the strings, and nothing outside the area changed.
\<close>

theorem arguments_on_the_stack:
  assumes "unat sp \<le> 0xFDFF" "length argv \<le> MAX_ARGS" "length envp \<le> MAX_ARGS"
    and fits: "size_of argv + size_of envp + 2 * (length argv + length envp) + 12 \<le> unat sp"
    and nul: "\<forall>str \<in> set argv \<union> set envp. CHR 0x00 \<notin> set str"
  shows "\<exists>p t. set_arg_env sp argv envp s = Inr (p, t) \<and> t = s\<lparr>ram := ram t\<rparr> \<and>
     unat p = unat sp - (size_of argv + size_of envp + 2 * (length argv + length envp) + 12) \<and>
     getui p t = of_nat (length argv) \<and>
     vector_at (getui (p + 2) t) argv t \<and> vector_at (getui (p + 4) t) envp t \<and>
     (\<forall>x. x < p \<or> sp \<le> x \<longrightarrow> ram t x = ram s x)"
  using set_arg_env_vectors [OF assms] .

lemma arguments_on_the_stack_witness:
  "\<exists>p t. set_arg_env 0xFDFF [''ls'', ''-l''] [''HOME=/''] (process_on [] ()) = Inr (p, t) \<and>
     getui p t = 2 \<and> vector_at (getui (p + 2) t) [''ls'', ''-l''] t"
  using arguments_on_the_stack [of "0xFDFF" "[''ls'', ''-l'']" "[''HOME=/'']" "process_on [] ()"]
  by (simp add: MAX_ARGS_def size_of_def of_nat_Suc) blast

text \<open>The loop of \<open>execve\<close> reads such a vector back, and overruns its array when it is too long.\<close>

lemma collect_vector:
  "vector_at a strs s \<Longrightarrow> i \<le> MAX_ARGS \<Longrightarrow>
   collect_args i a s = (if i + length strs < MAX_ARGS then Inr (strs, s) else Inl (Fault, s))"
proof (induction strs arbitrary: i a)
  case Nil
  then show ?case by (simp add: collect_args.simps vector_at_def)
next
  case (Cons str strs)
  have v: "getui a s \<noteq> 0" "cstr_at (getui a s) s = Some str"
    using Cons.prems(1) by (auto simp: vector_at_def)
  have "vector_at (a + 2) strs s"
    using Cons.prems(1) unfolding vector_at_def by (force simp: of_nat_Suc algebra_simps)
  from Cons.IH [OF this, of "Suc i"] v show ?case
    using Cons.prems(2) by (subst collect_args.simps) (auto simp: c_string_def)
qed

lemma vector_at_tl: "vector_at a strs s \<Longrightarrow> strs \<noteq> [] \<Longrightarrow> vector_at (a + 2) (tl strs) s"
  unfolding vector_at_def by (cases strs) (force simp: of_nat_Suc algebra_simps)+

text \<open>
  C29. A program that hands its own argument vector to \<open>execve\<close> passes on the
  strings it was started with, but for the first, as long as they are fewer than
  199; 199 or 200 arguments, which \<open>set_arg_env\<close> still accepts, overrun the
  array of the handler.
\<close>

theorem execve_reads_the_vector:
  assumes "unat sp \<le> 0xFDFF" "argv \<noteq> []" "length argv \<le> MAX_ARGS" "length envp \<le> MAX_ARGS"
    and "size_of argv + size_of envp + 2 * (length argv + length envp) + 12 \<le> unat sp"
    and "\<forall>str \<in> set argv \<union> set envp. CHR 0x00 \<notin> set str"
  shows "bindr (set_arg_env sp argv envp s) (\<lambda>p s. collect_args 2 (getui (p + 2) s + 2) s) =
     bindr (set_arg_env sp argv envp s) (\<lambda>p s.
       if length argv < 199 then Inr (tl argv, s) else Inl (Fault, s))"
proof -
  obtain p t where t: "set_arg_env sp argv envp s = Inr (p, t)" "vector_at (getui (p + 2) t) argv t"
    using set_arg_env_vectors [OF assms(1,3-6)] by blast
  have "length (tl argv) + 2 < MAX_ARGS \<longleftrightarrow> length argv < 199" using assms(2) by (cases argv) (auto simp: MAX_ARGS_def)
  then show ?thesis
    using collect_vector [OF vector_at_tl [OF t(2) assms(2)], of 2]
    by (simp add: t(1) MAX_ARGS_def add.commute)
qed

lemma execve_reads_the_vector_witness:
  "bindr (set_arg_env 0xFDFF [''sh'', ''x''] [] (process_on [] ())) (\<lambda>p s. collect_args 2 (getui (p + 2) s + 2) s) =
   bindr (set_arg_env 0xFDFF [''sh'', ''x''] [] (process_on [] ())) (\<lambda>p s. Inr ([''x''], s))"
  using execve_reads_the_vector [of "0xFDFF" "[''sh'', ''x'']" "[]" "process_on [] ()"]
  by (simp add: MAX_ARGS_def size_of_def)

declare of_nat_add [simp] of_nat_Suc [simp]

end
