(* ===== verification/EmuSpec.thy ===== *)
theory EmuSpec
  imports Emulator ArgSpec Stack
begin

text \<open>
  The program as a whole: the loader puts the image where its header says, the
  tables stay well-formed through a whole run, and \<open>execve\<close> after options reads
  the wrong arguments.
\<close>

subsection \<open>The tables through a whole run\<close>

text \<open>A result with well-formed tables, unless the run has ended in undefined behaviour.\<close>

definition good :: "('z machine_scheme, 'a) res \<Rightarrow> bool" where
  "good r \<longleftrightarrow> (case r of Inr (_, t) \<Rightarrow> table_wf t | Inl (h, t) \<Rightarrow> h = Fault \<or> table_wf t)"

lemma good_simps [simp]:
  "good (Inr (x, t)) = table_wf t" "good (Inl (h, t)) = (h = Fault \<or> table_wf t)"
  by (simp_all add: good_def)

lemma good_bind: "good m \<Longrightarrow> (\<And>x t. m = Inr (x, t) \<Longrightarrow> table_wf t \<Longrightarrow> good (g x t)) \<Longrightarrow> good (bindr m g)"
  by (cases m) auto

lemma good_final: "table_wf (final m) \<Longrightarrow> good m"
  by (cases m) auto

lemma wf_host [simp]: "table_wf (snd (host_call os c s)) = table_wf s"
  by (rule table_wf_cong) (simp_all add: host_call_def split_beta Let_def)

lemma wf_put [simp]: "table_wf (put_stderr x s) = table_wf s" "table_wf (put_stdout x s) = table_wf s"
  by (rule table_wf_cong; simp add: put_stderr_def put_stdout_def)+

lemma wf_upd [simp]:
  "table_wf (s\<lparr>ram := r\<rparr>) = table_wf s" "table_wf (s\<lparr>logfile := l\<rparr>) = table_wf s"
  "table_wf (p\<lparr>errno := e\<rparr>) = table_wf p" "table_wf (p\<lparr>emuname := n\<rparr>) = table_wf p"
  "table_wf (p\<lparr>realfilename := f, fuzix_root := d\<rparr>) = table_wf p"
  "table_wf (q\<lparr>optind := i\<rparr>) = table_wf q" "table_wf (q\<lparr>arglist := a\<rparr>) = table_wf q"
  "table_wf (set_initial_brk b p) = table_wf p" "table_wf (e6809_reset sp pc s) = table_wf s"
  "table_wf (perror os nm p) = table_wf p"
  by (rule table_wf_cong; simp add: set_initial_brk_def e6809_reset_def perror_def host_call_def put_stderr_def split_beta Let_def)+

definition map_wf :: "mapstate \<Rightarrow> bool" where
  "map_wf m \<longleftrightarrow> mapidx m \<le> mapcnt m \<and>
     (case maparray m of
        Arr es \<Rightarrow> \<exists>xs. es = xs @ [map_sentinel] \<and> length xs = mapcnt m
      | _ \<Rightarrow> mapcnt m = 0)"

lemma table_wf_map: "table_wf s \<longleftrightarrow> length (brkpointlist (bp s)) = NUM_BRKPOINTS \<and> map_wf (maps s)"
  by (simp add: table_wf_def map_wf_def)

lemma wf_set_breakpoints: "table_wf s \<Longrightarrow> table_wf (arm_breakpoints bs s)"
proof (induction bs arbitrary: s)
  case (Cons b bs)
  have "table_wf (set_breakpoint_msg a ty s)" for a ty
    using Cons.prems
    by (auto simp: set_breakpoint_msg_def table_wf_map length_set_breakpoint put_stdout_def split: option.splits)
  then show ?case using Cons by (simp add: Let_def)
qed simp

lemma map_store_length: "map_store i es cells = Some cells' \<Longrightarrow> length cells' = length cells"
  by (induction i es cells rule: map_store.induct) (auto split: if_splits)

lemma read_mapfile_wf:
  assumes "map_wf m"
  shows "(\<exists>m'. read_mapfile f m = Inl (Fault, m')) \<or> (\<exists>m'. read_mapfile f m = ok m' \<and> map_wf m')"
proof -
  define m1 where "m1 = (case maparray m of Arr _ \<Rightarrow> m\<lparr>maparray := Freed, mapidx := 0, mapcnt := 0\<rparr> | _ \<Rightarrow> m)"
  have m1: "mapcnt m1 = 0" "mapidx m1 = 0" "map_wf m1" "maparray m1 = Freed \<or> maparray m1 = Null"
    using assms by (auto simp: m1_def map_wf_def split: maparr.splits)
  show ?thesis
  proof (cases "maparray m = Freed")
    case False
    show ?thesis
    proof (cases f)
      case None
      then show ?thesis using False m1 by (simp add: read_mapfile_def m1_def)
    next
      case (Some str)
      let ?ls = "map_lines str"
      have "read_mapfile f m = Inl (Fault, m1\<lparr>mapcnt := length ?ls\<rparr>) \<or> (\<exists>cells. length cells = length ?ls + 1 \<and>
          read_mapfile f m = ok (m1\<lparr>mapcnt := length ?ls, maparray := Arr (map_qsort (map the (take (length ?ls) cells)) @ [map_sentinel]),
             mapfile_loaded := True\<rparr>))"
        unfolding read_mapfile_def m1_def [symmetric] Let_def using False Some m1(1)
        by (auto split: option.splits dest!: map_store_length)
      then show ?thesis
        using m1(2) by (force simp: map_wf_def)
    qed
  qed (simp add: read_mapfile_def)
qed

lemma wf_new_maps: "table_wf s \<Longrightarrow> map_wf m \<Longrightarrow> table_wf (s\<lparr>maps := m\<rparr>)"
  by (simp add: table_wf_map)

lemma good_load_mapfile: "table_wf s \<Longrightarrow> good (load_mapfile os path s)"
proof -
  assume wf: "table_wf s"
  obtain r s' where h: "host_call os (H_path ''fopen'' path [0]) s = (r, s')" by force
  have wf': "table_wf s'" using wf wf_host [of os "H_path ''fopen'' path [0]" s] h by simp
  define f where "f = (if rv r = -1 then None else Some (rname r))"
  have l: "load_mapfile os path s = (case read_mapfile f (maps s') of
        Inl (e, m) \<Rightarrow> Inl (e, s'\<lparr>maps := m\<rparr>)
      | Inr (_, m) \<Rightarrow> ok (if f = None then perror os (Some path) (s'\<lparr>maps := m\<rparr>) else s'\<lparr>maps := m\<rparr>))"
    unfolding load_mapfile_def h Let_def prod.case f_def [symmetric] ..
  have "map_wf (maps s')" using wf' by (simp add: table_wf_map)
  from read_mapfile_wf [OF this, of f] wf' show ?thesis
    by (auto simp: l wf_new_maps)
qed

lemma good_main_option: "table_wf s \<Longrightarrow> good (main_option os c a l s)"
  by (auto simp: main_option_def Let_def split_beta intro!: good_bind good_load_mapfile)

lemma good_usage: "table_wf s \<Longrightarrow> good (main_usage nm s)"
  by (simp add: main_usage_def)

lemma good_main_options: "table_wf s \<Longrightarrow> good (main_options os argc v nc l s)"
proof (induction os argc v nc l s rule: main_options.induct)
  case (1 os argc v nc l s)
  obtain o' ind nc' where g: "getopt argc v (optind s) nc = (o', ind, nc')" by (cases "getopt argc v (optind s) nc")
  show ?case
  proof (cases o')
    case (Opt c a)
    have "good (bindr (main_option os c a l (s\<lparr>optind := ind\<rparr>)) (main_options os argc v nc'))"
      by (rule good_bind) (use 1 g Opt in \<open>auto intro: good_main_option\<close>)
    then show ?thesis by (subst main_options.simps) (simp add: g Opt)
  qed (use 1(2) g in \<open>subst main_options.simps, simp add: good_usage\<close>)+
qed

lemma good_load_executable: "table_wf s \<Longrightarrow> good (load_executable os nm args s)"
  by (auto simp: load_executable_def Let_def split_beta store_bytes_def split: option.splits)

lemma good_default_map: "table_wf s \<Longrightarrow> good (default_map os usable nm s)"
  by (auto simp: default_map_def Let_def split_beta intro: good_load_mapfile)

lemma good_root: "table_wf s \<Longrightarrow> good (set_fuzix_root os d s)"
  by (auto simp: set_fuzix_root_def Let_def split_beta intro!: good_bind)

lemma good_write8: "table_wf s \<Longrightarrow> good (e6809_write8 a v s)"
  by (auto simp: e6809_write8_def table_wf_map put_stdout_def put_stderr_def)

lemma good_putui: "table_wf s \<Longrightarrow> good (putui a v s)"
  unfolding putui_def by (intro good_bind good_write8)

lemma good_push_strings: "table_wf s \<Longrightarrow> good (push_strings strs posn s)"
proof (induction strs arbitrary: posn s)
  case (Cons str strs)
  then show ?case
    by (auto simp: Let_def store_bytes_def intro!: good_bind split: option.splits)
qed simp

lemma good_push_pointers: "table_wf s \<Longrightarrow> good (push_pointers ps posn s)"
  by (induction ps arbitrary: posn s) (auto simp: Let_def intro!: good_bind good_putui)

lemma good_set_arg_env: "table_wf s \<Longrightarrow> good (set_arg_env sp argv envp s)"
  unfolding set_arg_env_def Let_def
  by (auto intro!: good_bind good_putui good_push_strings good_push_pointers)

lemma good_main_start:
  assumes "table_wf s" shows "good (main_start os usable root argc v s)"
proof -
  have mon: "table_wf t \<Longrightarrow> good (monitor (do_syscall os) pc t)" for pc and t :: "'a emulator"
    by (rule good_final) (use wf.keepsD [OF wf.keeps_monitor [where dosys = "do_syscall os", OF sys_clients(1)], of t pc] in
       \<open>simp add: keeps_wf_def\<close>)
  have init: "table_wf (s\<lparr>emuname := n, bp := monitor_init (bp s)\<rparr>)" for n
    using assms by (simp add: table_wf_map monitor_init_def)
  show ?thesis
    unfolding main_start_def Let_def
    by (auto simp: good_usage assms init wf_set_breakpoints split: option.splits
        intro!: good_bind good_main_options good_load_executable good_default_map good_set_arg_env good_root mon)
qed

lemma good_emulate: "table_wf s \<Longrightarrow> good (emulate os usable root n start s)"
proof (induction n arbitrary: start s)
  case (Suc n)
  define r where "r = (case start of
      Some (argc, v) \<Rightarrow> main_start os usable root argc v s
    | None \<Rightarrow> bindr (e6809_sstep (monitor (do_syscall os)) (do_syscall os) False False s) (\<lambda>_ s. ok s))"
  have "good (e6809_sstep (monitor (do_syscall os)) (do_syscall os) False False s)"
  proof (rule good_final)
    have "wf.keeps (e6809_sstep (monitor (do_syscall os)) (do_syscall os) False False :: 'a emulator \<Rightarrow> _)"
      by (intro wf.keeps_sstep wf.keeps_monitor sys_clients)
    from wf.keepsD [OF this, of s] Suc.prems
    show "table_wf (final (e6809_sstep (monitor (do_syscall os)) (do_syscall os) False False s))"
      by (simp only: keeps_wf_def)
  qed
  then have r: "good r"
    using Suc.prems by (auto simp: r_def good_main_start intro: good_bind split: option.splits)
  show ?case
    unfolding emulate.simps r_def [symmetric]
    using r Suc.IH by (auto simp: store_arglist_def Let_def split: sum.splits halt.splits)
qed simp

text \<open>
  C31. Whatever the host does, whatever the arguments, the input lines and the
  bounds: after any number of processor steps, system calls, monitor commands and
  restarts, a run that has not ended in undefined behaviour has well-formed
  breakpoint and symbol tables, and no address below 0xFFFF makes the symbol
  lookup read outside its array.
\<close>

theorem whole_run_keeps_tables:
  "case emu6809 os usable root n argv ls h of
     Inr (_, t) \<Rightarrow> table_wf t \<and> (\<forall>a < 0xFFFF. \<exists>r u. lookup_symbol a t = Inr (r, u))
   | Inl (hlt, t) \<Rightarrow> hlt = Fault \<or> table_wf t"
proof -
  have "table_wf (emulator_on ls h)"
    by (simp add: emulator_on_def process_on_def console_on_def power_on_def process.fields_def console.fields_def
        emulator.fields_def machine.extend_def console.extend_def process.extend_def table_wf_def
        brk_initial_def map_initial_def)
  then have "good (emu6809 os usable root n argv ls h)" unfolding emu6809_def by (rule good_emulate)
  then show ?thesis by (auto split: sum.splits dest: lookup_no_fault)
qed

text \<open>A host with one short binary.\<close>

definition demo_host :: "unit os" where
  "demo_host c h = (undefined\<lparr>rerr := None,
     rv := (case c of H_read fd n \<Rightarrow> if n = 16 then 16 else 2 | _ \<Rightarrow> 3),
     rbytes := (case c of H_read fd n \<Rightarrow>
       if n = 16 then [0x80, 0xA8, 4, 0, 1, 0, 0, 0, 0, 0, 0, 0, 16, 2, 0, 0] else [0x12, 0x3F] | _ \<Rightarrow> [])\<rparr>, h)"

lemma whole_run_keeps_tables_witness:
  "case emu6809 demo_host (\<lambda>n. n + 8) None 100 [''emu6809'', ''-M'', ''prog''] [''s 2'', ''x''] () of
     Inr (_, t) \<Rightarrow> table_wf t \<and> (\<exists>r u. lookup_symbol 0x110 t = Inr (r, u))
   | Inl (hlt, t) \<Rightarrow> hlt = Fault \<or> table_wf t"
  using whole_run_keeps_tables [of demo_host "\<lambda>n. n + 8" None 100 "[''emu6809'', ''-M'', ''prog'']" "[''s 2'', ''x'']" "()"]
  by (auto split: sum.splits)

subsection \<open>The loader\<close>

text \<open>
  C30. A file with the header of a 6809 binary is loaded: every byte of the rest
  of the file goes to the load address and upwards, nothing else in memory
  changes, the program counter is the load address and the break starts behind
  the BSS; a file that does not fit is written past the end of memory.
\<close>

theorem image_is_loaded:
  assumes "os (H_path ''open'' name [0]) h = (r0, h0)" "rv r0 \<noteq> -1" "rerr r0 = None"
    and "os (H_call ''fstat'' [word_of_int (rv r0)]) h0 = (r1, h1)" "rv r1 \<noteq> -1" "rerr r1 = None"
    and "os (H_read (word_of_int (rv r0)) 16) h1 = (r2, h2)" "rv r2 = 16" "rerr r2 = None"
    and "os (H_read (word_of_int (rv r0)) 0xFFF0) h2 = (r3, h3)" "rerr r3 = None"
    and "of_be16 (rbytes r2) = 0x80A8" "rbytes r2 ! 2 = 4"
    and "host s = h"
  defines "a \<equiv> unat (loadaddr (read_header (rbytes r2)))"
  shows "if a + length (rbytes r3) \<le> 65536
     then \<exists>t. load_executable os (Some name) args s = Inr (of_nat a, t) \<and>
       (\<forall>i < length (rbytes r3). ram t (of_nat (a + i)) = rbytes r3 ! i) \<and>
       (\<forall>x. unat x < a \<or> a + length (rbytes r3) \<le> unat x \<longrightarrow> ram t x = ram s x) \<and>
       initbrk t = bssend (read_header (rbytes r2)) \<and> curbrk t = initbrk t \<and>
       e6809_get_regs t = e6809_get_regs s \<and> maps t = maps s \<and> bp t = bp s
     else \<exists>t. load_executable os (Some name) args s = Inl (Fault, t)"
proof -
  define e where "e = read_header (rbytes r2)"
  have hdr: "a_magic e = EXEC_MAGIC" "a_cpu e = A_6809"
    using assms(12,13) by (simp_all add: e_def read_header_def EXEC_MAGIC_def A_6809_def)
  let ?u = "set_initial_brk (bssend e) (s\<lparr>host := h2\<rparr>)\<lparr>host := h3\<rparr>"
  have "load_executable os (Some name) args s = bindr (store_bytes a (rbytes r3) ?u) (\<lambda>_ s.
      Inr (loadaddr e, snd (host_call os (H_call ''close'' [word_of_int (rv r0)]) s)))"
    using assms(1-11,14) hdr
    by (simp add: load_executable_def host_call_def e_def [symmetric] a_def set_initial_brk_def Let_def)
  moreover have "of_nat a = loadaddr e" by (simp add: a_def e_def)
  moreover have "unat (of_nat (a + i) :: u16) = a + i" if "i < length (rbytes r3)" "a + length (rbytes r3) \<le> 65536" for i
    using that by (intro unat_small) simp
  ultimately show ?thesis
    unfolding e_def [symmetric]
    by (auto simp: store_bytes_def host_call_def set_initial_brk_def split_beta Let_def e6809_get_regs_def
        simp del: of_nat_add)
qed

lemma image_is_loaded_witness:
  "\<exists>t. load_executable demo_host (Some ''prog'') [''prog''] (process_on [] ()) = Inr (0x110, t) \<and> ram t 0x111 = 0x3F"
proof -
  let ?r = "\<lambda>c. fst (demo_host c ())"
  have h: "demo_host c () = (?r c, ())" for c by (simp add: demo_host_def)
  have a: "unat (loadaddr (read_header (rbytes (?r (H_read fd 16))))) = 0x110" for fd
    by (simp add: demo_host_def loadaddr_def read_header_def)
  let ?opened = "?r (H_path ''open'' ''prog'' [0])"
  let ?fd = "word_of_int (rv ?opened) :: u32"
  show ?thesis
    using image_is_loaded [of demo_host "''prog''" "()" ?opened "()" "?r (H_call ''fstat'' [?fd])" "()" "?r (H_read ?fd 16)" "()"
        "?r (H_read ?fd 0xFFF0)" "()" "process_on [] ()" "[''prog'']", OF h _ _ h _ _ h _ _ h, unfolded a]
    by (auto simp: demo_host_def of_be16_def process_on_def process.fields_def console.extend_def less_Suc_eq)
qed

subsection \<open>execve after options\<close>

text \<open>
  C34. \<open>execve\<close> calls \<open>main\<close> again, but nobody resets \<open>optind\<close>: after \<open>-M prog\<close> it is
  2, and a program that starts another one without arguments makes \<open>main\<close> look
  for the name behind the end of its arguments.
\<close>

theorem execve_after_options:
  assumes "optind s = length args" "2 \<le> length args" "length args < length (arglist s)"
  shows "\<exists>t. main_start os usable root (length args) (arglist (store_arglist args s)) (store_arglist args s) = Inl (Exit 1, t)"
proof -
  let ?v = "arglist (store_arglist args s)"
  have v: "?v ! length args = None" "None \<in> set (drop (length args) ?v)" "optind (store_arglist args s) = length args"
    using assms(1) by (simp_all add: store_arglist_def nth_append)
  have o: "main_options os (length args) ?v [] l u = Inr (l, u\<lparr>optind := length args\<rparr>)" if "optind u = length args"
    for l and u :: "'a emulator"
    using that by (subst main_options.simps) (simp add: getopt_def)
  show ?thesis
    unfolding main_start_def Let_def using assms(2) by (simp add: o v args_from_def load_executable_def)
qed

lemma execve_after_options_witness:
  "\<exists>t. main_start (\<lambda>c h. (undefined, h)) (\<lambda>n. n + 8) None 2 (arglist (store_arglist [''emu6809'', ''ls''] (emulator_on [] ()\<lparr>optind := 2\<rparr>)))
     (store_arglist [''emu6809'', ''ls''] (emulator_on [] ()\<lparr>optind := 2\<rparr>)) = Inl (Exit 1, t)"
  using execve_after_options [of "emulator_on [] ()\<lparr>optind := 2\<rparr>" "[''emu6809'', ''ls'']" "\<lambda>c h. (undefined, h)" "\<lambda>n. n + 8" None]
  by (simp add: emulator_on_def process.extend_def emulator.fields_def MAX_ARGS_def eval_nat_numeral)

subsection \<open>A countdown loop\<close>

text \<open>No breakpoint, log or pending stop: a step only executes.\<close>

definition quiet :: "'z machine_scheme \<Rightarrow> bool" where
  "quiet s \<longleftrightarrow> \<not> write_brkpt s \<and> irq_status s = IRQ_NORMAL \<and> logfile s = None \<and>
     (\<forall>p \<in> set (brkpointlist (bp s)). bp_type p = BRK_EMPTY)"

lemma quiet_step:
  assumes "quiet s"
  shows "\<exists>b. brkpointlist b = brkpointlist (bp s) \<and>
     e6809_sstep mon dosys False False s =
       bindr (exec_page0 dosys (s\<lparr>cycles := 0, bp := b\<rparr>)) (\<lambda>_ s. let s = log_after s in Inr (ucast (reg_pc s), s))"
proof -
  obtain hit b where h: "is_breakpoint (ucast (reg_pc s)) BRK_INST (bp s) = (hit, b)" by force
  have "\<not> hit" "brkpointlist b = brkpointlist (bp s)"
    using h assms by (auto simp: is_breakpoint_def quiet_def list_ex_iff split: if_splits)
  then show ?thesis
    using assms h by (intro exI [of _ b])
      (simp add: e6809_sstep_def enter_monitor_def check_brk_def quiet_def log_before_def)
qed

lemma cc_set [simp]:
  "get_cc FLAG_Z (set_cc FLAG_Z 0 s) = 0" "get_cc FLAG_Z (set_cc FLAG_Z 1 s) = 1"
  "get_cc FLAG_Z (set_cc FLAG_V 0 s) = get_cc FLAG_Z s" "get_cc FLAG_Z (set_cc FLAG_V 1 s) = get_cc FLAG_Z s"
  "get_cc f (s\<lparr>reg_b := v\<rparr>) = get_cc f s" "get_cc f (add_cycles n s) = get_cc f s"
  "get_cc f (s\<lparr>cycles := n, bp := b, reg_pc := pc\<rparr>) = get_cc f s"
  by (subst cc.get_put; simp add: cc_flags_def)+ (simp_all add: get_cc_def)

text \<open>
  What the loop leaves alone: the machine with everything else overwritten, that
  is B, the flags, the program counter, the cycle count and the address whose
  breakpoint is to be ignored.
\<close>

definition apart :: "'z machine_scheme \<Rightarrow> 'z machine_scheme" where
  "apart s = s\<lparr>reg_b := 0, reg_cc := 0, reg_pc := 0, cycles := 0, bp := (bp s)\<lparr>ignored_addr := 0\<rparr>\<rparr>"

lemma same_table:
  fixes b c :: brkstate
  shows "brkpointlist b = brkpointlist c \<Longrightarrow> b\<lparr>ignored_addr := 0\<rparr> = c\<lparr>ignored_addr := 0\<rparr>"
  by (cases b; cases c) simp

lemma apart_cc [simp]: "apart (set_cc f v s) = apart s"
  by (simp add: apart_def set_cc_def)

lemma apart_cycles [simp]: "apart (add_cycles n s) = apart s"
  by (simp add: apart_def add_cycles_def)

lemma apart_update [simp]:
  "apart (s\<lparr>reg_b := v\<rparr>) = apart s" "apart (s\<lparr>reg_pc := pc\<rparr>) = apart s" "apart (s\<lparr>cycles := n\<rparr>) = apart s"
  by (simp_all add: apart_def)

lemma apart_bp [simp]:
  assumes "brkpointlist b = brkpointlist (bp s)"
  shows "apart (s\<lparr>cycles := n, bp := b\<rparr>) = apart s"
    and "apart (s\<lparr>cycles := n, bp := b, reg_pc := pc\<rparr>) = apart s"
  using same_table [OF assms] by (simp_all add: apart_def)

lemma apart_eqD: "apart t = apart s \<Longrightarrow> ram t = ram s"
  by (drule arg_cong [where f = ram]) (simp add: apart_def)

lemma log_after_quiet [simp]: "logfile s = None \<Longrightarrow> log_after s = s"
  by (simp add: log_after_def put_log_def)

lemma decb:
  assumes "quiet s" "ram s (reg_pc s) = 0x5A"
  shows "\<exists>t. e6809_sstep mon dosys False False s = Inr (ucast (reg_pc t), t) \<and> quiet t \<and> apart t = apart s \<and>
     reg_pc t = reg_pc s + 1 \<and> (ucast (reg_b t) :: u8) = ucast (reg_b s) - 1 \<and>
     get_cc FLAG_Z t = of_bool ((ucast (reg_b s) - 1 :: u8) = 0)"
proof -
  obtain b where b: "brkpointlist b = brkpointlist (bp s)"
    "e6809_sstep mon dosys False False s =
       bindr (exec_page0 dosys (s\<lparr>cycles := 0, bp := b\<rparr>)) (\<lambda>_ s. let s = log_after s in Inr (ucast (reg_pc s), s))"
    using quiet_step [OF assms(1)] by blast
  let ?s = "s\<lparr>cycles := 0, bp := b, reg_pc := reg_pc s + 1\<rparr>"
  have e: "exec_page0 dosys (s\<lparr>cycles := 0, bp := b\<rparr>) = on_b inst_dec 2 ?s"
    using assms(2) by (simp add: exec_page0_def pc_read8_ram opcode_tables)
  have r: "(ucast (fst (inst_dec x u)) :: u8) = ucast x - 1" for x and u :: "'a machine_scheme"
    by (simp add: inst_dec_def Let_def ucast8_add)
  show ?thesis
    using assms(1) b e dec_flags [of "reg_b s" ?s] r [of "reg_b s" ?s]
    by (auto simp: on_b_def quiet_def split_beta Let_def set_flags_Cons set_flags_Nil)
qed

lemma bne:
  assumes "quiet s" "ram s (reg_pc s) = 0x26" "ram s (reg_pc s + 1) = 0xFD" "get_cc FLAG_Z s = of_bool z"
  shows "\<exists>t. e6809_sstep mon dosys False False s = Inr (ucast (reg_pc t), t) \<and> quiet t \<and> apart t = apart s \<and>
     reg_pc t = (if z then reg_pc s + 2 else reg_pc s - 1) \<and> reg_b t = reg_b s"
proof -
  obtain b where b: "brkpointlist b = brkpointlist (bp s)"
    "e6809_sstep mon dosys False False s =
       bindr (exec_page0 dosys (s\<lparr>cycles := 0, bp := b\<rparr>)) (\<lambda>_ s. let s = log_after s in Inr (ucast (reg_pc s), s))"
    using quiet_step [OF assms(1)] by blast
  let ?s = "s\<lparr>cycles := 0, bp := b, reg_pc := reg_pc s + 1\<rparr>"
  have e: "exec_page0 dosys (s\<lparr>cycles := 0, bp := b\<rparr>) = ok (inst_bra8 (get_cc FLAG_Z ?s) 0x26 ?s)"
    using assms(2) by (simp add: exec_page0_def pc_read8_ram opcode_tables del: cc_set)
  have z: "get_cc FLAG_Z ?s = of_bool z" using assms(4) by (simp only: cc_set)
  have off: "(ucast (sign_extend 0xFD AND ((of_bool z XOR (0x26 AND 1)) - 1)) :: u16) = (if z then 0 else 0xFFFD)"
    by (simp add: sign_extend_def)
  have pc: "reg_pc s + 1 + 1 + (if z then 0 else 0xFFFD) = (if z then reg_pc s + 2 else reg_pc s - 1)"
  proof -
    have "x + 1 + 1 + (0xFFFD :: u16) = x - 1" for x
    proof -
      have "x + 1 + 1 + 0xFFFD = x + (1 + 1 + 0xFFFD)" by (simp only: add.assoc)
      also have "(1 + 1 + 0xFFFD :: u16) = -1" by simp
      finally show ?thesis by (simp only: add_uminus_conv_diff)
    qed
    then show ?thesis by simp
  qed
  have "inst_bra8 (of_bool z) 0x26 ?s =
      add_cycles 3 (?s\<lparr>reg_pc := reg_pc s + 1 + 1 + ucast (sign_extend 0xFD AND ((of_bool z XOR (0x26 AND 1)) - 1))\<rparr>)"
    using assms(3) by (simp add: inst_bra8_def pc_read8_ram del: of_bool_eq)
  also have "\<dots> = add_cycles 3 (?s\<lparr>reg_pc := (if z then reg_pc s + 2 else reg_pc s - 1)\<rparr>)"
    unfolding off pc ..
  finally have "inst_bra8 (of_bool z) 0x26 ?s = add_cycles 3 (?s\<lparr>reg_pc := (if z then reg_pc s + 2 else reg_pc s - 1)\<rparr>)" .
  then show ?thesis
    using assms(1) b e unfolding z by (auto simp: quiet_def)
qed

text \<open>One round, and all of them.\<close>

definition loop_code :: "u16 \<Rightarrow> 'z machine_scheme \<Rightarrow> bool" where
  "loop_code a s \<longleftrightarrow> ram s a = 0x5A \<and> ram s (a + 1) = 0x26 \<and> ram s (a + 2) = 0xFD"

lemma one_round:
  assumes "quiet s" "loop_code (reg_pc s) s"
  shows "\<exists>t. emulate os usable root (Suc (Suc n)) None s = emulate os usable root n None t \<and>
     quiet t \<and> apart t = apart s \<and> (ucast (reg_b t) :: u8) = ucast (reg_b s) - 1 \<and>
     reg_pc t = (if (ucast (reg_b s) - 1 :: u8) = 0 then reg_pc s + 3 else reg_pc s)"
proof -
  let ?mon = "monitor (do_syscall os)"
  obtain u where u: "e6809_sstep ?mon (do_syscall os) False False s = Inr (ucast (reg_pc u), u)" "quiet u"
    "apart u = apart s" "reg_pc u = reg_pc s + 1" "(ucast (reg_b u) :: u8) = ucast (reg_b s) - 1"
    "get_cc FLAG_Z u = of_bool ((ucast (reg_b s) - 1 :: u8) = 0)"
    using decb [OF assms(1), of ?mon "do_syscall os"] assms(2) unfolding loop_code_def by blast
  have r: "ram u = ram s" by (rule apart_eqD [OF u(3)])
  obtain t where "e6809_sstep ?mon (do_syscall os) False False u = Inr (ucast (reg_pc t), t)" "quiet t" "apart t = apart u"
    "reg_pc t = (if (ucast (reg_b s) - 1 :: u8) = 0 then reg_pc u + 2 else reg_pc u - 1)" "reg_b t = reg_b u"
    using bne [OF u(2) _ _ u(6), of ?mon "do_syscall os"] assms(2) unfolding loop_code_def r u(4)
    by (auto simp: add.assoc)
  then show ?thesis using u by (intro exI [of _ t]) (simp add: add.assoc)
qed

lemma loop_ends:
  assumes "quiet s" "loop_code (reg_pc s) s" "unat (ucast (reg_b s) - 1 :: u8) = k"
  shows "\<exists>t. emulate os usable root (2 * (k + 1)) None s = ok t \<and> reg_pc t = reg_pc s + 3 \<and>
     (ucast (reg_b t) :: u8) = 0 \<and> apart t = apart s"
  using assms
proof (induction k arbitrary: s)
  case 0
  obtain t where t: "emulate os usable root (Suc (Suc 0)) None s = emulate os usable root 0 None t"
    "apart t = apart s" "(ucast (reg_b t) :: u8) = ucast (reg_b s) - 1"
    "reg_pc t = (if (ucast (reg_b s) - 1 :: u8) = 0 then reg_pc s + 3 else reg_pc s)"
    using one_round [OF 0(1,2)] by blast
  have "(ucast (reg_b s) - 1 :: u8) = 0" using 0(3) by (simp only: unat_eq_0)
  with t show ?case by (simp add: eval_nat_numeral)
next
  case (Suc k)
  obtain t where t: "emulate os usable root (Suc (Suc (2 * (k + 1)))) None s = emulate os usable root (2 * (k + 1)) None t"
    "quiet t" "apart t = apart s" "(ucast (reg_b t) :: u8) = ucast (reg_b s) - 1"
    "reg_pc t = (if (ucast (reg_b s) - 1 :: u8) = 0 then reg_pc s + 3 else reg_pc s)"
    using one_round [OF Suc(2,3)] by blast
  let ?c = "ucast (reg_b s) - 1 :: u8"
  have c: "unat ?c = Suc k" "?c \<noteq> 0" using Suc(4) by auto
  have ram: "ram t = ram s" by (rule apart_eqD [OF t(3)])
  have pc: "reg_pc t = reg_pc s" using t(5) c(2) by simp
  have "unat (?c - 1) = k"
    using c by (subst unat_minus_one) simp_all
  then have "unat (ucast (reg_b t) - 1 :: u8) = k" by (simp only: t(4))
  moreover have "loop_code (reg_pc t) t" using Suc(3) by (simp add: loop_code_def pc ram)
  ultimately obtain u where "emulate os usable root (2 * (k + 1)) None t = ok u" "reg_pc u = reg_pc t + 3"
      "(ucast (reg_b u) :: u8) = 0" "apart u = apart t"
    using Suc.IH [OF t(2)] by blast
  moreover have "2 * (Suc k + 1) = Suc (Suc (2 * (k + 1)))" by simp
  ultimately show ?case using t(1,3) pc by metis
qed

text \<open>
  C32. The loop \<open>DECB; BNE\<close> ends: whatever B holds, the emulator leaves it after
  two steps for each round, 256 rounds for B = 0, with B = 0 and the program
  counter behind the loop. Nothing else changes but the flags, the cycle count and
  the one address that the breakpoint table was told to ignore, which is forgotten
  if the loop passes it.
\<close>

theorem countdown_loop_ends:
  assumes "quiet s" "loop_code (reg_pc s) s"
  shows "\<exists>t. emulate os usable root (2 * (unat (ucast (reg_b s) - 1 :: u8) + 1)) None s = ok t \<and>
     reg_pc t = reg_pc s + 3 \<and> (ucast (reg_b t) :: u8) = 0 \<and> apart t = apart s"
  by (rule loop_ends [OF assms refl])

lemma countdown_loop_ends_witness:
  "\<exists>t. emulate (\<lambda>c h. (undefined, h)) (\<lambda>n. n) None 512 None
     (emulator_on [] ()\<lparr>ram := (\<lambda>_. 0)(0x100 := 0x5A, 0x101 := 0x26, 0x102 := 0xFD), reg_pc := 0x100\<rparr>) = ok t \<and>
     reg_pc t = 0x103"
proof -
  let ?s = "emulator_on [] ()\<lparr>ram := (\<lambda>_. 0)(0x100 := 0x5A, 0x101 := 0x26, 0x102 := 0xFD), reg_pc := 0x100\<rparr>"
  note d = emulator_on_def process_on_def console_on_def power_on_def process.fields_def console.fields_def
    emulator.fields_def machine.extend_def console.extend_def process.extend_def
  have "quiet ?s" "loop_code (reg_pc ?s) ?s" "reg_b ?s = 0"
    by (simp_all add: d quiet_def loop_code_def brk_initial_def)
  moreover from this have n: "2 * (unat (ucast (reg_b ?s) - 1 :: u8) + 1) = 512"
    by (simp add: unsigned_minus_1_eq_mask mask_eq_exp_minus_1)
  ultimately obtain t where "emulate (\<lambda>c h. (undefined, h)) (\<lambda>n. n) None 512 None ?s = ok t" "reg_pc t = reg_pc ?s + 3"
    using countdown_loop_ends [of ?s "\<lambda>c h. (undefined, h)" "\<lambda>n. n" None] unfolding n by blast
  then show ?thesis by auto
qed

end
