(* ===== verification/Z80dis.thy ===== *)
theory Z80dis
  imports Mapfile "HOL-Library.Monad_Syntax"
begin

text \<open>
  The Z80 disassembler (\<open>emulators/z80dis.c\<close>) and the code of the Z80 emulator
  around it (\<open>emulators/emuz80.c\<close>): the memory and port functions, the text of the
  CPU state and the trace of an instruction. The processor itself is generated
  code and not modelled; its registers are a record. Memory is a function from
  16-bit addresses to bytes. Every byte the disassembler reads goes through
  \<open>z80dis_byte\<close>, which counts and logs it; \<open>dumped\<close> holds these bytes.
\<close>

unbundle bit_operations_syntax

subsection \<open>Formats\<close>

text \<open>
  \<open>sprintf\<close> for the conversions that occur. Every call has the arguments its format asks for.
\<close>

datatype farg = Num nat | Dec int | Str string

fun sprintf :: "string \<Rightarrow> farg list \<Rightarrow> string" where
  "sprintf [] as = []"
| "sprintf (c # f) as =
     (if c \<noteq> CHR ''%'' then c # sprintf f as
      else case as of
             [] \<Rightarrow> []
           | Num n # as \<Rightarrow>
               (if take 3 f = ''04X'' then fmt_04X n @ sprintf (drop 3 f) as else fmt_02X n @ sprintf (drop 3 f) as)
           | Dec i # as \<Rightarrow> fmt_d i @ sprintf (drop 1 f) as
           | Str t # as \<Rightarrow> t @ sprintf (drop 1 f) as)"

subsection \<open>State and decoding helpers\<close>

record zdis =
  prefix :: u8
  hlname :: string
  zpc :: u16
  dumped :: "u8 list"

type_synonym zread = "u16 \<Rightarrow> u8"

definition z80dis_byte :: "zread \<Rightarrow> zdis \<Rightarrow> u8 \<times> zdis" where
  "z80dis_byte rd s = (let r = rd (zpc s) in (r, s\<lparr>zpc := zpc s + 1, dumped := dumped s @ [r]\<rparr>))"

definition offs8 :: "zread \<Rightarrow> zdis \<Rightarrow> int \<times> zdis" where
  "offs8 rd s = (let (b, s) = z80dis_byte rd s in (sint b, s))"

definition zimm8 :: "zread \<Rightarrow> zdis \<Rightarrow> u8 \<times> zdis" where
  "zimm8 = z80dis_byte"

definition zimm16 :: "zread \<Rightarrow> zdis \<Rightarrow> u16 \<times> zdis" where
  "zimm16 rd s =
     (let (b, s) = z80dis_byte rd s; r = (ucast b :: u16);
          (b, s) = z80dis_byte rd s
      in (r OR push_bit 8 (ucast b), s))"

definition rname :: "string list" where
  "rname = [''B'', ''C'', ''D'', ''E'', ''H'', ''L'', ''M'', ''A'']"

definition rname16 :: "string list" where
  "rname16 = [''BC'', ''DE'', ''HL'', ''SP'']"

definition rotshift :: "string list" where
  "rotshift = [''RLC'', ''RRC'', ''RL'', ''RR'', ''SLA'', ''SRA'', ''SLL'', ''SRL'']"

definition logic8 :: "string list" where
  "logic8 = [''ADD'', ''ADC'', ''SUB'', ''SBC'', ''AND'', ''XOR'', ''OR'', ''CP'']"

definition bitop :: "string list" where
  "bitop = ['''', ''BIT'', ''RES'', ''SET'']"

definition ccode :: "string list" where
  "ccode = [''NZ'', ''Z'', ''NC'', ''C'', ''PO'', ''PE'', ''P'', ''M'']"

definition opgroup00 :: "string list" where
  "opgroup00 = [''NOP'', ''EX AF,AF'' @ [CHR 0x27], ''DJNZ 0x%04X'', ''JR 0x%04X'',
     ''JR NZ, 0x%04X'', ''JR Z, 0x%04X'', ''JR NC, 0x%04X'', ''JR C, 0x%04X'']"

definition opgroup02 :: "string list" where
  "opgroup02 = [''LD (BC), A'', ''LD A, (BC)'', ''LD (DE), A'', ''LD A, (DE)'',
     ''LD (0x%04X), %s'', ''LD %s, (0x%04X)'', ''LD (0x%04X), A'', ''LD A, (0x%04X)'']"

definition opgroup07 :: "string list" where
  "opgroup07 = [''RLCA'', ''RRCA'', ''RLA'', ''RRA'', ''DAA'', ''CPL'', ''SCF'', ''CCF'']"

definition opgroup31 :: "string list" where
  "opgroup31 = [''RET'', ''EXX'', ''JP %s'', ''LD SP, %s'']"

definition opgroup33 :: "string list" where
  "opgroup33 = ['''', '''', ''OUT (0x%02X), A'', ''IN A, (0x%02X)'', ''EX (SP),%s'', ''EX DE, HL'', ''DI'', ''EI'']"

definition opgrouped17 :: "string list" where
  "opgrouped17 = [''LD I,A'', ''LD R,A'', ''LD A,I'', ''LD A,R'', ''RRD'', ''RLD'', ''NOP'', ''NOP'']"

definition opgrouped2 :: "string list" where
  "opgrouped2 = [''LD'', ''CP'', ''IN'', ''OUT'']"

definition reg8_str :: "nat \<Rightarrow> nat \<Rightarrow> int \<Rightarrow> zdis \<Rightarrow> string" where
  "reg8_str r ro offs s =
     (if r = 6 then
        (if prefix s \<noteq> 0 then
           (if offs < 0 then sprintf ''(%s%d)'' [Str (hlname s), Dec offs]
            else if 1 < offs then sprintf ''(%s+%d)'' [Str (hlname s), Dec offs]
            else sprintf ''(%s)'' [Str (hlname s)])
         else sprintf ''(%s)'' [Str (hlname s)])
      else if (r = 4 \<or> r = 5) \<and> ro \<noteq> 6 \<and> prefix s = 0xFD then (if r = 4 then ''IYh'' else ''IYl'')
      else if (r = 4 \<or> r = 5) \<and> ro \<noteq> 6 \<and> prefix s = 0xDD then (if r = 4 then ''IXh'' else ''IXl'')
      else rname ! r)"

definition reg8_offs :: "nat \<Rightarrow> int \<Rightarrow> zdis \<Rightarrow> string" where
  "reg8_offs r offs s = reg8_str r 0 offs s"

definition reg8pair :: "zread \<Rightarrow> nat \<Rightarrow> nat \<Rightarrow> zdis \<Rightarrow> string \<times> zdis" where
  "reg8pair rd r ro s =
     (if prefix s \<noteq> 0 \<and> r = 6 then (let (d, s') = offs8 rd s in (reg8_str r ro d s', s')) else (reg8_str r ro 0 s, s))"

definition reg8 :: "zread \<Rightarrow> nat \<Rightarrow> zdis \<Rightarrow> string \<times> zdis" where
  "reg8 rd r s =
     (if prefix s \<noteq> 0 \<and> r = 6 then (let (d, s') = offs8 rd s in (reg8_str r 0 d s', s')) else (reg8_str r 0 0 s, s))"

definition rpair :: "nat \<Rightarrow> zdis \<Rightarrow> string" where
  "rpair r s = (if prefix s \<noteq> 0 \<and> r = 2 then hlname s else rname16 ! r)"

definition rpairstack :: "nat \<Rightarrow> zdis \<Rightarrow> string" where
  "rpairstack r s = (if prefix s \<noteq> 0 \<and> r = 2 then hlname s else if r = 3 then ''AF'' else rname16 ! r)"

subsection \<open>Instructions\<close>

text \<open>The fields of an opcode: \<open>y\<close> is bits 5 to 3, \<open>z\<close> bits 2 to 0, \<open>p\<close> and \<open>q\<close> halve \<open>y\<close>.\<close>

definition op_y :: "u8 \<Rightarrow> nat" where
  "op_y opcode = unat (drop_bit 3 opcode AND 7)"

definition op_z :: "u8 \<Rightarrow> nat" where
  "op_z opcode = unat (opcode AND 7)"

text \<open>
  Behind 0xCB. \<open>y\<close> still is that of the opcode 0xCB; \<open>junk\<close> is what the variable
  \<open>offs\<close> holds when nothing is assigned to it.
\<close>

definition dis_cb :: "int \<Rightarrow> zread \<Rightarrow> u8 \<Rightarrow> zdis \<Rightarrow> string \<times> zdis" where
  "dis_cb junk rd opcode s =
     (let y = op_y opcode;
          (offs, s) = (if prefix s \<noteq> 0 \<and> y = 6 then offs8 rd s else (junk, s));
          (opcode, s) = zimm8 rd s;
          y = op_y opcode; z = op_z opcode
      in if opcode < 0x40 then (sprintf ''%s %s'' [Str (rotshift ! y), Str (reg8_offs z offs s)], s)
         else (sprintf ''%s %d, %s'' [Str (bitop ! unat (drop_bit 6 opcode)), Dec (int y), Str (reg8_offs z offs s)], s))"

definition dis_ed_mixed :: "zread \<Rightarrow> nat \<Rightarrow> nat \<Rightarrow> zdis \<Rightarrow> string \<times> zdis" where
  "dis_ed_mixed rd y z s =
     (let p = y div 2; q = y mod 2
      in if z = 0 then
           (if y = 6 then (''IN (C)'', s) else (let (r, s) = reg8 rd y s in (sprintf ''IN %s, (C)'' [Str r], s)))
         else if z = 1 then
           (if y = 6 then (''OUT (C),255/0'', s) else (let (r, s) = reg8 rd y s in (sprintf ''OUT (C), %s'' [Str r], s)))
         else if z = 2 then (sprintf ''%sC HL, %s'' [Str (if q \<noteq> 0 then ''AD'' else ''SB''), Str (rpair p s)], s)
         else if z = 3 then
           (let (i, s') = zimm16 rd s
            in if q = 0 then (sprintf ''LD (0x%04X), %s'' [Num (unat i), Str (rpair p s')], s')
               else (sprintf ''LD %s, (0x%04X)'' [Str (rpair p s'), Num (unat i)], s'))
         else if z = 4 then (''NEG'', s)
         else if z = 5 then (if y = 1 then ''RETI'' else ''RETN'', s)
         else if z = 6 then (let m = y mod 4; m = (if m \<noteq> 0 then m - 1 else m) in (sprintf ''IM %d'' [Dec (int m)], s))
         else (opgrouped17 ! y, s))"

definition dis_ed :: "zread \<Rightarrow> zdis \<Rightarrow> string \<times> zdis" where
  "dis_ed rd s =
     (let s = s\<lparr>prefix := 0\<rparr>;
          (opcode, s) = zimm8 rd s;
          y = op_y opcode; z = op_z opcode
      in if opcode AND 0xC0 = 0 \<or> opcode AND 0xC0 = 0xC0 then (''NONI NOP'', s)
         else if opcode AND 0xC0 = 0x40 then dis_ed_mixed rd y z s
         else if z < 4
              then (sprintf ''%s%s%s'' [Str (opgrouped2 ! z), Str [''ID'' ! (y mod 2)],
                      Str (if y div 2 mod 2 \<noteq> 0 then ''R'' else '''')], s)
              else (''NONI NOP'', s))"

text \<open>
  The four quarters of the unprefixed opcodes. The sum \<open>relbase + offs8()\<close> is an
  \<open>int\<close>, printed as an \<open>unsigned\<close>.
\<close>

definition dis_00 :: "zread \<Rightarrow> u16 \<Rightarrow> nat \<Rightarrow> nat \<Rightarrow> zdis \<Rightarrow> string \<times> zdis" where
  "dis_00 rd relbase y z s =
     (let p = y div 2; q = y mod 2
      in if z = 0 then
           (if 1 < y then (let (d, s) = offs8 rd s
                           in (sprintf (opgroup00 ! y) [Num (nat ((uint relbase + d) mod 2 ^ 32))], s))
            else (opgroup00 ! y, s))
         else if z = 1 then
           (if q = 0 then (let (i, s') = zimm16 rd s in (sprintf ''LD %s,0x%04X'' [Str (rpair p s'), Num (unat i)], s'))
            else (sprintf ''ADD %s,%s'' [Str (hlname s), Str (rpair p s)], s))
         else if z = 2 then
           (if 1 < p then
              (let (i, s') = zimm16 rd s
               in if q = 0 then (sprintf (opgroup02 ! y) [Num (unat i), Str (hlname s')], s')
                  else if p \<noteq> 3 then (sprintf (opgroup02 ! y) [Str (hlname s'), Num (unat i)], s')
                  else (sprintf (opgroup02 ! y) [Num (unat i)], s'))
            else (opgroup02 ! y, s))
         else if z = 3 then (sprintf (if q = 0 then ''INC %s'' else ''DEC %s'') [Str (rpair p s)], s)
         else if z = 4 then (let (r, s) = reg8 rd y s in (sprintf ''INC %s'' [Str r], s))
         else if z = 5 then (let (r, s) = reg8 rd y s in (sprintf ''DEC %s'' [Str r], s))
         else if z = 6 then
           (let (r, s) = reg8 rd y s; (i, s) = zimm8 rd s in (sprintf ''LD %s,0x%02X'' [Str r, Num (unat i)], s))
         else (opgroup07 ! y, s))"

definition dis_C0 :: "zread \<Rightarrow> nat \<Rightarrow> nat \<Rightarrow> zdis \<Rightarrow> string \<times> zdis" where
  "dis_C0 rd y z s =
     (let p = y div 2; q = y mod 2
      in if z = 0 then (sprintf ''RET %s'' [Str (ccode ! y)], s)
         else if z = 1 then
           (if q = 0 then (sprintf ''POP %s'' [Str (rpairstack p s)], s)
            else (sprintf (opgroup31 ! p) [Str (hlname s)], s))
         else if z = 2 then (let (i, s) = zimm16 rd s in (sprintf ''JP %s,0x%04X'' [Str (ccode ! y), Num (unat i)], s))
         else if z = 3 then
           (if y = 0 then (let (i, s) = zimm16 rd s in (sprintf ''JP 0x%04X'' [Num (unat i)], s))
            else if y < 4 then (let (i, s) = zimm8 rd s in (sprintf (opgroup33 ! y) [Num (unat i)], s))
            else (sprintf (opgroup33 ! y) [Str (hlname s)], s))
         else if z = 4 then (let (i, s) = zimm16 rd s in (sprintf ''CALL %s,%04X'' [Str (ccode ! y), Num (unat i)], s))
         else if z = 5 then
           (if q = 0 then (sprintf ''PUSH %s'' [Str (rpairstack p s)], s)
            else (let (i, s) = zimm16 rd s in (sprintf ''CALL 0x%04X'' [Num (unat i)], s)))
         else if z = 6 then (let (i, s) = zimm8 rd s in (sprintf ''%s A,0x%02X'' [Str (logic8 ! y), Num (unat i)], s))
         else (sprintf ''RST %02X'' [Num y], s))"

text \<open>
  In \<open>LD r,r'\<close> the operands are evaluated in an order the compiler chooses; at
  most one of them reads a byte, as both are (HL) in HALT only.
\<close>

definition dis_op :: "int \<Rightarrow> zread \<Rightarrow> u16 \<Rightarrow> u8 \<Rightarrow> zdis \<Rightarrow> string \<times> zdis" where
  "dis_op junk rd relbase opcode s =
     (let y = op_y opcode; z = op_z opcode
      in if opcode = 0xCB then dis_cb junk rd opcode s
         else if opcode = 0xED then dis_ed rd s
         else if opcode = 0x76 then (''HALT'', s)
         else if opcode AND 0xC0 = 0x00 then dis_00 rd relbase y z s
         else if opcode AND 0xC0 = 0x40 then
           (let (a, s) = reg8pair rd y z s; (b, s) = reg8pair rd z y s in (sprintf ''LD %s,%s'' [Str a, Str b], s))
         else if opcode AND 0xC0 = 0x80 then
           (let (r, s) = reg8 rd z s in (sprintf ''%s A,%s'' [Str (logic8 ! y), Str r], s))
         else dis_C0 rd y z s)"

text \<open>The label \<open>restart\<close>; \<open>None\<close> when the code never leaves the loop over prefixes.\<close>

partial_function (option) dis_restart :: "int \<Rightarrow> zread \<Rightarrow> u16 \<Rightarrow> zdis \<Rightarrow> (string \<times> zdis) option" where
  [code]: "dis_restart junk rd relbase s =
     (let (opcode, s) = zimm8 rd s
      in if opcode = 0xDD then dis_restart junk rd relbase (s\<lparr>prefix := opcode, hlname := ''IX''\<rparr>)
         else if opcode = 0xFD then dis_restart junk rd relbase (s\<lparr>prefix := opcode, hlname := ''IY''\<rparr>)
         else Some (dis_op junk rd relbase opcode s))"

definition z80_disasm :: "int \<Rightarrow> zread \<Rightarrow> u16 \<Rightarrow> (string \<times> zdis) option" where
  "z80_disasm junk rd addr =
     dis_restart junk rd (addr + 2) \<lparr>prefix = 0, hlname = ''HL'', zpc = addr, dumped = []\<rparr>"

subsection \<open>The emulator around it\<close>

record z80regs =
  reg_A :: u8
  reg_F :: u8
  reg_BC :: u16
  reg_DE :: u16
  reg_HL :: u16
  reg_IX :: u16
  reg_IY :: u16
  reg_SP :: u16
  M1PC :: u16

text \<open>\<open>lastpc\<close> is a 32-bit number and starts at -1, which is no address.\<close>

record z80emu =
  zram :: zread
  cpu_z80 :: z80regs
  zfcval :: u8
  lastpc :: u32
  zmaps :: mapstate
  zlog :: "string option"
  zout :: string
  zerr :: string

definition mem_read :: "z80emu \<Rightarrow> u16 \<Rightarrow> u8" where
  "mem_read s addr = zram s addr"

definition mem_write :: "u16 \<Rightarrow> u8 \<Rightarrow> z80emu \<Rightarrow> z80emu" where
  "mem_write addr val s = s\<lparr>zram := (zram s)(addr := val)\<rparr>"

definition io_read :: "u16 \<Rightarrow> u8" where
  "io_read port = 0xFF"

definition io_write :: "u16 \<Rightarrow> u8 \<Rightarrow> z80emu \<Rightarrow> (z80emu, unit) res" where
  "io_write port value s =
     (let p = port AND 0xFF
      in if p = 0xFD then
           (if value < 32 \<or> 127 < value then ok (s\<lparr>zout := zout s @ [CHR 0x5C] @ ''x'' @ fmt_02X (unat value)\<rparr>)
            else ok (s\<lparr>zout := zout s @ [char_of (unat value)]\<rparr>))
         else if p = 0xFF then
           Inl (Exit (uint value),
             if value \<noteq> 0 then s\<lparr>zerr := zerr s @ ''***FAIL '' @ fmt_d (uint value) @ newline\<rparr> else s)
         else if p = 0xFE then ok (s\<lparr>zout := zout s @ [char_of (unat value)]\<rparr>)
         else if p = 0xFC then
           (let x = uint (zfcval s) * 256 + uint value;
                x = (if 0x8000 < x then x - 0x10000 else x)
            in ok (s\<lparr>zout := zout s @ fmt_d x @ newline\<rparr>))
         else if p = 0xFB then ok (s\<lparr>zfcval := value\<rparr>)
         else Inl (Exit 1, s\<lparr>zerr := zerr s @ ''***BAD PORT '' @ fmt_d (uint port) @ newline\<rparr>))"

definition z80_state_tobuf :: "z80emu \<Rightarrow> string" where
  "z80_state_tobuf s =
     (let r = cpu_z80 s
      in ''[ '' @ fmt_02X (unat (reg_A r)) @ '':'' @ fmt_02X (unat (reg_F r)) @ '' '' @ fmt_04X (unat (reg_BC r)) @ '' '' @
         fmt_04X (unat (reg_DE r)) @ '' '' @ fmt_04X (unat (reg_HL r)) @ '' '' @ fmt_04X (unat (reg_IX r)) @ '' '' @
         fmt_04X (unat (reg_IY r)) @ '' '' @ fmt_04X (unat (reg_SP r)) @ '' ]'')"

text \<open>
  \<open>z80_trace\<close>: the symbol or address, the bytes, the text of the instruction and
  the registers. The outer option is \<open>None\<close> when the disassembler does not return.
\<close>

definition z80_trace :: "int \<Rightarrow> z80emu \<Rightarrow> (z80emu, unit) res option" where
  "z80_trace junk s =
     (if zlog s = None then Some (ok s)
      else let pc = M1PC (cpu_z80 s); lp = (ucast (lastpc s) :: u16)
      in if (ucast pc :: u32) = lastpc s \<and> mem_read s lp = 0xED \<and> mem_read s (lp + 1) AND 0xF4 = 0xB0
         then Some (ok s)
         else case (if mapfile_loaded (zmaps s) then get_symbol_and_offset (ucast pc) (zmaps s) else Inr (None, zmaps s)) of
                Inl (e, m) \<Rightarrow> Some (Inl (e, s\<lparr>lastpc := ucast pc, zmaps := m\<rparr>))
              | Inr (r, m) \<Rightarrow> do {
                  (buf, d) \<leftarrow> z80_disasm junk (mem_read s) pc;
                  let head = (case r of Some (Some nm, offset) \<Rightarrow> fmt_12s nm @ ''+'' @ fmt_04X (unat offset)
                              | _ \<Rightarrow> fmt_04X (unat pc));
                  let bytes = concat (map (\<lambda>b. fmt_02X (unat b) @ '' '') (dumped d));
                  let pad = concat (replicate (6 - length (dumped d)) ''   '');
                  Some (ok (s\<lparr>lastpc := ucast pc, zmaps := m,
                    zlog := map_option (\<lambda>l. l @ head @ '': '' @ bytes @ pad @ pad_right 16 (CHR '' '') buf @ '' '' @
                      z80_state_tobuf s @ newline) (zlog s)\<rparr>))
                })"

end
