(* ===== verification/Z80Spec.thy ===== *)
theory Z80Spec
  imports Z80dis
begin

text \<open>
  What the Z80 disassembler reads. \<open>zadv rd n\<close> is the state after \<open>n\<close> bytes: every
  operation moves the program counter over the bytes it logs and over nothing
  else. The number of bytes is compared with the instruction lengths of the
  processor manual (\<open>manual_length\<close>), and the loop over prefixes is shown to end
  unless memory holds nothing but prefixes.
\<close>

subsection \<open>Bytes read\<close>

definition bytes_at :: "zread \<Rightarrow> u16 \<Rightarrow> nat \<Rightarrow> u8 list" where
  "bytes_at rd a n = map (\<lambda>i. rd (a + of_nat i)) [0..<n]"

definition zadv :: "zread \<Rightarrow> nat \<Rightarrow> zdis \<Rightarrow> zdis" where
  "zadv rd n s = s\<lparr>zpc := zpc s + of_nat n, dumped := dumped s @ bytes_at rd (zpc s) n\<rparr>"

lemma bytes_at_add: "bytes_at rd a (m + n) = bytes_at rd a m @ bytes_at rd (a + of_nat m) n"
  by (induction n) (simp_all add: bytes_at_def add.assoc)

lemma zadv_fields [simp]:
  "prefix (zadv rd n s) = prefix s" "hlname (zadv rd n s) = hlname s" "zpc (zadv rd n s) = zpc s + of_nat n"
  "dumped (zadv rd n s) = dumped s @ bytes_at rd (zpc s) n"
  by (simp_all add: zadv_def)

lemma zadv_zadv [simp]: "zadv rd n (zadv rd m s) = zadv rd (m + n) s"
  by (simp add: zadv_def bytes_at_add add.assoc)

lemma bytes_at_0 [simp]: "bytes_at rd a 0 = []"
  by (simp add: bytes_at_def)

lemma zadv_0 [simp]: "zadv rd 0 s = s"
  by (simp add: zadv_def)

lemma zadv_upd: "zadv rd n (s\<lparr>prefix := p, hlname := h\<rparr>) = (zadv rd n s)\<lparr>prefix := p, hlname := h\<rparr>"
  by (simp add: zadv_def)

lemma z80dis_byte_zadv: "z80dis_byte rd s = (rd (zpc s), zadv rd 1 s)"
  by (simp add: z80dis_byte_def zadv_def bytes_at_def Let_def)

lemma reads_zadv:
  "offs8 rd s = (sint (rd (zpc s)), zadv rd 1 s)" "zimm8 rd s = (rd (zpc s), zadv rd 1 s)"
  "snd (zimm16 rd s) = zadv rd 2 s"
  by (simp_all add: offs8_def zimm8_def zimm16_def z80dis_byte_zadv Let_def numeral_2_eq_2)

definition disp :: "zdis \<Rightarrow> nat \<Rightarrow> nat" where
  "disp s r = (if prefix s \<noteq> 0 \<and> r = 6 then 1 else 0)"

lemma snd_reg8: "snd (reg8 rd r s) = zadv rd (disp s r) s" "snd (reg8pair rd r ro s) = zadv rd (disp s r) s"
  by (simp_all add: reg8_def reg8pair_def reads_zadv disp_def)

lemma disp_zadv [simp]: "disp (zadv rd n s) r = disp s r"
  by (simp add: disp_def)

lemmas snd_simps = Let_def split_beta reads_zadv snd_reg8

subsection \<open>The length of each group\<close>

definition len_00 :: "nat \<Rightarrow> nat \<Rightarrow> nat \<Rightarrow> nat" where
  "len_00 d y z =
     (if z = 0 then (if 1 < y then 1 else 0) else if z = 1 then (if y mod 2 = 0 then 2 else 0)
      else if z = 2 then (if 1 < y div 2 then 2 else 0) else if z = 4 \<or> z = 5 then d else if z = 6 then d + 1 else 0)"

definition len_C0 :: "nat \<Rightarrow> nat \<Rightarrow> nat" where
  "len_C0 y z =
     (if z = 2 \<or> z = 4 then 2 else if z = 3 then (if y = 0 then 2 else if y < 4 then 1 else 0)
      else if z = 5 then (if y mod 2 = 0 then 0 else 2) else if z = 6 then 1 else 0)"

definition len_ed :: "u8 \<Rightarrow> nat" where
  "len_ed op2 = (if op2 AND 0xC0 = 0x40 \<and> op_z op2 = 3 then 3 else 1)"

lemma snd_dis_00: "snd (dis_00 rd relbase y z s) = zadv rd (len_00 (disp s y) y z) s"
  by (simp add: dis_00_def len_00_def snd_simps)

lemma snd_dis_C0: "snd (dis_C0 rd y z s) = zadv rd (len_C0 y z) s"
  by (simp add: dis_C0_def len_C0_def snd_simps)

lemma snd_dis_ed: "snd (dis_ed rd s) = zadv rd (len_ed (rd (zpc s))) (s\<lparr>prefix := 0\<rparr>)"
  by (auto simp: dis_ed_def dis_ed_mixed_def len_ed_def snd_simps disp_def numeral_3_eq_3)

lemma snd_dis_cb: "snd (dis_cb junk rd 0xCB s) = zadv rd 1 s"
  by (simp add: dis_cb_def snd_simps op_y_def)

definition len_op :: "bool \<Rightarrow> u8 \<Rightarrow> u8 \<Rightarrow> nat" where
  "len_op pre opcode op2 =
     (let y = op_y opcode; z = op_z opcode; d = (\<lambda>r. if pre \<and> r = (6 :: nat) then 1 else 0)
      in if opcode = 0xCB then 1 else if opcode = 0xED then len_ed op2 else if opcode = 0x76 then 0
         else if opcode AND 0xC0 = 0 then len_00 (d y) y z
         else if opcode AND 0xC0 = 0x40 then d y + d z
         else if opcode AND 0xC0 = 0x80 then d z
         else len_C0 y z)"

lemma zpc_dis_op:
  "zpc (snd (dis_op junk rd relbase opcode s)) = zpc s + of_nat (len_op (prefix s \<noteq> 0) opcode (rd (zpc s)))"
  "dumped (snd (dis_op junk rd relbase opcode s)) = dumped s @ bytes_at rd (zpc s) (len_op (prefix s \<noteq> 0) opcode (rd (zpc s)))"
  by (simp_all add: dis_op_def len_op_def snd_dis_00 snd_dis_C0 snd_dis_ed snd_dis_cb snd_reg8 Let_def split_beta disp_def)

subsection \<open>The lengths of the manual\<close>

text \<open>The lengths by opcode, sixteen to a row; the entries of the three prefixes do not matter.\<close>

definition length_chart :: "nat list" where
  "length_chart =
    [1, 3, 1, 1, 1, 1, 2, 1, 1, 1, 1, 1, 1, 1, 2, 1,
     2, 3, 1, 1, 1, 1, 2, 1, 2, 1, 1, 1, 1, 1, 2, 1,
     2, 3, 3, 1, 1, 1, 2, 1, 2, 1, 3, 1, 1, 1, 2, 1,
     2, 3, 3, 1, 1, 1, 2, 1, 2, 1, 3, 1, 1, 1, 2, 1,
     1, 1, 1, 1, 1, 1, 1, 1, 1, 1, 1, 1, 1, 1, 1, 1,
     1, 1, 1, 1, 1, 1, 1, 1, 1, 1, 1, 1, 1, 1, 1, 1,
     1, 1, 1, 1, 1, 1, 1, 1, 1, 1, 1, 1, 1, 1, 1, 1,
     1, 1, 1, 1, 1, 1, 1, 1, 1, 1, 1, 1, 1, 1, 1, 1,
     1, 1, 1, 1, 1, 1, 1, 1, 1, 1, 1, 1, 1, 1, 1, 1,
     1, 1, 1, 1, 1, 1, 1, 1, 1, 1, 1, 1, 1, 1, 1, 1,
     1, 1, 1, 1, 1, 1, 1, 1, 1, 1, 1, 1, 1, 1, 1, 1,
     1, 1, 1, 1, 1, 1, 1, 1, 1, 1, 1, 1, 1, 1, 1, 1,
     1, 1, 3, 3, 3, 1, 2, 1, 1, 1, 3, 2, 3, 3, 2, 1,
     1, 1, 3, 2, 3, 1, 2, 1, 1, 1, 3, 2, 3, 1, 2, 1,
     1, 1, 3, 1, 3, 1, 2, 1, 1, 1, 3, 1, 3, 1, 2, 1,
     1, 1, 3, 1, 3, 1, 2, 1, 1, 1, 3, 1, 3, 1, 2, 1]"

text \<open>The opcodes with the operand (HL), which an index prefix turns into (IX+d); JP (HL) is none.\<close>

definition memory_operand :: "u8 \<Rightarrow> bool" where
  "memory_operand op \<longleftrightarrow>
     op = 0x34 \<or> op = 0x35 \<or> op = 0x36 \<or>
     0x40 \<le> op \<and> op < 0xC0 \<and> op \<noteq> 0x76 \<and> (op AND 7 = 6 \<or> 0x70 \<le> op \<and> op \<le> 0x77)"

definition ed_imm16_ops :: "u8 list" where
  "ed_imm16_ops = [0x43, 0x4B, 0x53, 0x5B, 0x63, 0x6B, 0x73, 0x7B]"

text \<open>The bytes of an instruction from its opcode on; \<open>indexed\<close> when DD or FD stands before it.\<close>

definition manual_length :: "bool \<Rightarrow> u8 \<Rightarrow> u8 \<Rightarrow> nat" where
  "manual_length indexed opcode op2 =
     (if opcode = 0xED then (if op2 \<in> set ed_imm16_ops then 4 else 2)
      else length_chart ! unat opcode + (if indexed \<and> (memory_operand opcode \<or> opcode = 0xCB) then 1 else 0))"

lemma len_ed_manual: "len_ed op2 = (if op2 \<in> set ed_imm16_ops then 3 else 1)"
  by (rule all_u8) code_simp

lemma len_op_plain:
  "opcode = 0xDD \<or> opcode = 0xFD \<or> opcode = 0xED \<or> 1 + len_op False opcode 0 = manual_length False opcode 0"
  by (rule all_u8) code_simp

lemma len_op_indexed:
  "opcode = 0xED \<or> len_op True opcode 0 = len_op False opcode 0 + (if memory_operand opcode then 1 else 0)"
  by (rule all_u8) code_simp

lemma len_op_length:
  assumes "opcode \<noteq> 0xDD" "opcode \<noteq> 0xFD"
  shows "1 + len_op pre opcode op2 + (if pre \<and> opcode = 0xCB then 1 else 0) = manual_length pre opcode op2"
proof (cases "opcode = 0xED")
  case True
  then show ?thesis by (simp add: len_op_def manual_length_def len_ed_manual)
next
  case False
  have "len_op pre opcode op2 = len_op pre opcode 0" "manual_length pre opcode op2 = manual_length pre opcode 0"
    using False by (simp_all add: len_op_def manual_length_def Let_def)
  moreover have "\<not> memory_operand 0xCB" by (simp add: memory_operand_def)
  ultimately show ?thesis
    using len_op_plain[of opcode] len_op_indexed[of opcode] assms False by (cases pre) (auto simp: manual_length_def)
qed

subsection \<open>Prefixes\<close>

abbreviation is_prefix :: "u8 \<Rightarrow> bool" where
  "is_prefix b \<equiv> b = 0xDD \<or> b = 0xFD"

lemma dis_restart_step:
  "dis_restart junk rd relbase s =
     (if is_prefix (rd (zpc s)) then dis_restart junk rd relbase
        ((zadv rd 1 s)\<lparr>prefix := rd (zpc s), hlname := if rd (zpc s) = 0xDD then ''IX'' else ''IY''\<rparr>)
      else Some (dis_op junk rd relbase (rd (zpc s)) (zadv rd 1 s)))"
  by (subst dis_restart.simps) (simp add: reads_zadv)

lemma dis_restart_runs:
  assumes "\<forall>i<n. is_prefix (rd (zpc s + of_nat i))" "\<not> is_prefix (rd (zpc s + of_nat n))"
  shows "\<exists>p h. dis_restart junk rd relbase s =
      Some (dis_op junk rd relbase (rd (zpc s + of_nat n)) ((zadv rd (Suc n) s)\<lparr>prefix := p, hlname := h\<rparr>)) \<and>
    (p = 0 \<longleftrightarrow> n = 0 \<and> prefix s = 0)"
  using assms
proof (induction n arbitrary: s)
  case 0
  then have "dis_restart junk rd relbase s = Some (dis_op junk rd relbase (rd (zpc s)) (zadv rd 1 s))"
    by (subst dis_restart_step) simp
  then show ?case by (intro exI[of _ "prefix s"] exI[of _ "hlname s"]) (simp add: zadv_def)
next
  case (Suc n)
  let ?b = "rd (zpc s)"
  let ?s = "(zadv rd 1 s)\<lparr>prefix := ?b, hlname := if ?b = 0xDD then ''IX'' else ''IY''\<rparr>"
  have b: "is_prefix ?b" using Suc.prems(1)[rule_format, of 0] by simp
  have shift: "zpc ?s + of_nat i = zpc s + of_nat (Suc i)" for i by (simp add: add.assoc)
  have "\<forall>i<n. is_prefix (rd (zpc ?s + of_nat i))" "\<not> is_prefix (rd (zpc ?s + of_nat n))"
    unfolding shift using Suc.prems by blast+
  from Suc.IH[OF this] obtain p h where
    "dis_restart junk rd relbase ?s = Some (dis_op junk rd relbase (rd (zpc ?s + of_nat n)) ((zadv rd (Suc n) ?s)\<lparr>prefix := p, hlname := h\<rparr>))"
    "p = 0 \<longleftrightarrow> n = 0 \<and> prefix ?s = 0" by blast
  moreover have "zadv rd (Suc n) ?s = (zadv rd (Suc (Suc n)) s)\<lparr>prefix := ?b, hlname := if ?b = 0xDD then ''IX'' else ''IY''\<rparr>"
    unfolding zadv_upd zadv_zadv by simp
  moreover have "prefix ?s \<noteq> 0" using b by auto
  ultimately show ?case
    using b unfolding shift by (subst dis_restart_step) auto
qed

lemma dis_restart_loops: "(\<forall>a. is_prefix (rd a)) \<Longrightarrow> dis_restart junk rd relbase s = None"
proof -
  have "\<exists>a. \<not> is_prefix (rd a)" if "dis_restart junk rd relbase s = Some r" for r
    using that
  proof (rule dis_restart.raw_induct[where P = "\<lambda>junk rd relbase s r. \<exists>a. \<not> is_prefix (rd a)", rotated])
    fix f junk relbase s r and rd :: zread
    assume ih: "\<And>junk rd relbase s r. f junk rd relbase s = Some r \<Longrightarrow> \<exists>a. \<not> is_prefix (rd a)"
      and "(let (opcode, s) = zimm8 rd s
            in if opcode = 0xDD then f junk rd relbase (s\<lparr>prefix := opcode, hlname := ''IX''\<rparr>)
               else if opcode = 0xFD then f junk rd relbase (s\<lparr>prefix := opcode, hlname := ''IY''\<rparr>)
               else Some (dis_op junk rd relbase opcode s)) = Some r"
    then show "\<exists>a. \<not> is_prefix (rd a)" by (auto simp: reads_zadv split: if_splits)
  qed
  then show "(\<forall>a. is_prefix (rd a)) \<Longrightarrow> dis_restart junk rd relbase s = None"
    by (cases "dis_restart junk rd relbase s") auto
qed

lemma first_non_prefix:
  fixes rd :: zread
  assumes "\<not> is_prefix (rd a)"
  obtains n where "\<forall>i<n. is_prefix (rd (addr + of_nat i))" "\<not> is_prefix (rd (addr + of_nat n))"
proof -
  have "addr + of_nat (unat (a - addr)) = a" by simp
  then have "\<exists>n. \<not> is_prefix (rd (addr + of_nat n))" using assms by metis
  then show thesis using that exists_least_iff[of "\<lambda>n. \<not> is_prefix (rd (addr + of_nat n))"] by blast
qed

subsection \<open>Properties\<close>

text \<open>
  C20. Behind any number of index prefixes the disassembler reads and logs
  exactly the bytes of one instruction as the processor manual counts them, and
  returns the address behind them, with one exception: for the bit instructions
  on an indexed address (DD CB and FD CB) it stops one byte early.
\<close>

theorem z80_disasm_length:
  assumes "\<forall>i<n. is_prefix (rd (addr + of_nat i))" "\<not> is_prefix (rd (addr + of_nat n))"
  defines "opcode \<equiv> rd (addr + of_nat n)" and "op2 \<equiv> rd (addr + of_nat (Suc n))"
  defines "len \<equiv> n + manual_length (0 < n) opcode op2 - (if 0 < n \<and> opcode = 0xCB then 1 else 0)"
  shows "\<exists>text s. z80_disasm junk rd addr = Some (text, s) \<and> zpc s = addr + of_nat len \<and> dumped s = bytes_at rd addr len"
proof -
  let ?s = "\<lparr>prefix = 0, hlname = ''HL'', zpc = addr, dumped = []\<rparr>"
  from dis_restart_runs[of n rd ?s junk "addr + 2"] assms(1,2) obtain p h where
    r: "z80_disasm junk rd addr = Some (dis_op junk rd (addr + 2) opcode ((zadv rd (Suc n) ?s)\<lparr>prefix := p, hlname := h\<rparr>))"
    and p: "p = 0 \<longleftrightarrow> n = 0" unfolding z80_disasm_def opcode_def by auto
  have e: "rd (addr + of_nat (Suc n)) = op2" by (simp add: op2_def)
  have "len = Suc n + len_op (p \<noteq> 0) opcode op2"
    using len_op_length[of opcode "p \<noteq> 0" op2] assms(2) p unfolding len_def opcode_def by auto
  then show ?thesis
    using r zpc_dis_op[of junk rd "addr + 2" opcode "(zadv rd (Suc n) ?s)\<lparr>prefix := p, hlname := h\<rparr>"] e
    by (cases "dis_op junk rd (addr + 2) opcode ((zadv rd (Suc n) ?s)\<lparr>prefix := p, hlname := h\<rparr>)")
      (simp add: bytes_at_add[of rd addr "Suc n", simplified, symmetric] add.assoc)
qed

lemma z80_disasm_length_witness:
  "\<exists>text s. z80_disasm 0 (\<lambda>a. if a = 0 then 0xDD else 0x7E) 0 = Some (text, s) \<and> zpc s = 3"
proof -
  have l: "manual_length True 0x7E 0x7E = 2" by code_simp
  show ?thesis
    using z80_disasm_length[of 1 "\<lambda>a. if a = 0 then 0xDD else 0x7E" 0 0] l by auto
qed

text \<open>
  C21. The disassembler returns if and only if some byte of memory is no index
  prefix: on memory filled with DD and FD, which the monitor can be told to
  disassemble, it never does.
\<close>

theorem z80_disasm_ends:
  "(\<exists>r. z80_disasm junk rd addr = Some r) = (\<exists>a. rd a \<noteq> 0xDD \<and> rd a \<noteq> 0xFD)"
proof
  assume "\<exists>r. z80_disasm junk rd addr = Some r"
  then show "\<exists>a. rd a \<noteq> 0xDD \<and> rd a \<noteq> 0xFD"
    using dis_restart_loops[of rd] by (fastforce simp: z80_disasm_def)
next
  assume "\<exists>a. rd a \<noteq> 0xDD \<and> rd a \<noteq> 0xFD"
  then obtain a where "\<not> is_prefix (rd a)" by auto
  then obtain n where "\<forall>i<n. is_prefix (rd (addr + of_nat i))" "\<not> is_prefix (rd (addr + of_nat n))"
    by (rule first_non_prefix)
  from dis_restart_runs[of n rd "\<lparr>prefix = 0, hlname = ''HL'', zpc = addr, dumped = []\<rparr>" junk "addr + 2"] this
  have "z80_disasm junk rd addr \<noteq> None" unfolding z80_disasm_def by auto
  then show "\<exists>r. z80_disasm junk rd addr = Some r" by simp
qed

subsection \<open>What the code gets wrong\<close>

text \<open>A displacement of 1 is not printed, and the displacement of DD CB is taken for the opcode.\<close>

lemma z80_disasm_anomalies:
  "reg8_str 6 0 1 s = reg8_str 6 0 0 s"
  "map_option fst (z80_disasm junk (\<lambda>a. if a = 0 then 0xDD else if a = 1 then 0xCB else if a = 2 then 0x05 else 0x46) 0) =
     Some ''RLC IXl''"
proof -
  show "reg8_str 6 0 1 s = reg8_str 6 0 0 s" by (simp add: reg8_str_def)
  show "map_option fst (z80_disasm junk (\<lambda>a. if a = 0 then 0xDD else if a = 1 then 0xCB else if a = 2 then 0x05 else 0x46) 0) =
     Some ''RLC IXl''"
    unfolding z80_disasm_def
    by (subst dis_restart_step, simp, subst dis_restart_step)
      (simp add: dis_op_def dis_cb_def reads_zadv op_y_def op_z_def reg8_offs_def reg8_str_def rotshift_def)
qed

end
