(* ===== verification/LibBase.thy ===== *)
theory LibBase
  imports Cstring "HOL-Library.Monad_Syntax" "HOL-Library.Multiset" "HOL-Library.Tree" "HOL-Library.Signed_Division"
begin

text \<open>
  What the components of the FUZIX C library share: the 16-bit \<open>int\<close> and the
  32-bit \<open>long\<close> of the 6809 as integers that wrap, the errors its functions
  leave in \<open>errno\<close>, and the contract between the functions that search and sort
  and the comparison function their caller passes. The contract is a locale;
  \<open>strcmp\<close> of the library provides it.
\<close>

subsection \<open>Machine integers\<close>

definition wrap16 :: "int \<Rightarrow> int" where
  "wrap16 n = (n + 32768) mod 65536 - 32768"

definition wrap32 :: "int \<Rightarrow> int" where
  "wrap32 n = (n + 2147483648) mod 4294967296 - 2147483648"

lemma wrap16_in: "- 32768 \<le> n \<Longrightarrow> n < 32768 \<Longrightarrow> wrap16 n = n"
  by (simp add: wrap16_def)

lemma wrap16_over: "32768 \<le> n \<Longrightarrow> n < 98304 \<Longrightarrow> wrap16 n = n - 65536"
  using mod_add_self2[of "n - 32768" 65536] by (simp add: wrap16_def add.commute)

lemma wrap32_in: "- 2147483648 \<le> n \<Longrightarrow> n < 2147483648 \<Longrightarrow> wrap32 n = n"
  by (simp add: wrap32_def)

subsection \<open>errno\<close>

definition err_EINVAL :: nat where
  "err_EINVAL = 22"

definition err_ERANGE :: nat where
  "err_ERANGE = 34"

subsection \<open>Comparison functions\<close>

text \<open>
  \<open>qsort\<close>, \<open>bsearch\<close> and \<open>tsearch\<close> are handed a function that returns a
  negative, zero or positive number. They rely on it being a total preorder.
\<close>

locale comparator =
  fixes cmp :: "'a \<Rightarrow> 'a \<Rightarrow> int"
  assumes flip: "0 < cmp x y \<longleftrightarrow> cmp y x < 0"
    and trans: "cmp x y \<le> 0 \<Longrightarrow> cmp y z \<le> 0 \<Longrightarrow> cmp x z \<le> 0"
begin

lemma same: "cmp x x = 0"
  using flip[of x x] by linarith

lemma zero_sym: "cmp x y = 0 \<longleftrightarrow> cmp y x = 0"
  using flip[of x y] flip[of y x] by linarith

lemma less_trans: "cmp x y < 0 \<Longrightarrow> cmp y z < 0 \<Longrightarrow> cmp x z < 0"
  using trans[of z x y] flip[of z y] flip[of z x] by linarith

lemma zero_not_less: "cmp key x = 0 \<Longrightarrow> cmp key y = 0 \<Longrightarrow> \<not> cmp x y < 0"
  using trans[of y key x] zero_sym[of y key] flip[of y x] by linarith

end

text \<open>
  \<open>strcmp\<close> compares the characters as plain \<open>char\<close>, signed or not as the
  compiler has it; the terminating NUL counts as 0.
\<close>

definition plain_char :: "bool \<Rightarrow> char \<Rightarrow> int" where
  "plain_char sg c = (if sg \<and> 128 \<le> (of_char c :: int) then of_char c - 256 else of_char c)"

fun strcmp :: "bool \<Rightarrow> string \<Rightarrow> string \<Rightarrow> int" where
  "strcmp sg [] [] = 0"
| "strcmp sg [] (d # ds) = 0 - plain_char sg d"
| "strcmp sg (c # cs) [] = plain_char sg c - 0"
| "strcmp sg (c # cs) (d # ds) =
     (if c = d then (if c = CHR 0x00 then 0 else strcmp sg cs ds)
      else plain_char sg c - plain_char sg d)"

lemma plain_char_inj: "plain_char sg c = plain_char sg d \<longleftrightarrow> c = d"
proof -
  have "(of_char c :: int) < 256" "(of_char d :: int) < 256" "0 \<le> (of_char c :: int)" "0 \<le> (of_char d :: int)"
    by (simp_all add: of_char_def)
  then show ?thesis
    by (auto simp: plain_char_def split: if_splits)
qed

lemma plain_char_NUL [simp]: "plain_char sg (CHR 0x00) = 0"
  by (simp add: plain_char_def)

lemma plain_char_zero [simp]: "plain_char sg c = 0 \<longleftrightarrow> c = CHR 0x00"
  using plain_char_inj[of sg c "CHR 0x00"] by simp

lemma strcmp_flip: "strcmp sg y x = - strcmp sg x y"
  by (induction sg x y rule: strcmp.induct) auto

lemma strcmp_trans: "strcmp sg x y \<le> 0 \<Longrightarrow> strcmp sg y z \<le> 0 \<Longrightarrow> strcmp sg x z \<le> 0"
proof (induction sg x y arbitrary: z rule: strcmp.induct)
  case (1 sg)
  then show ?case by simp
next
  case (2 sg d ds)
  then show ?case
    by (cases z) (auto split: if_splits)
next
  case (3 sg c cs)
  then show ?case
    by (cases z) (auto split: if_splits)
next
  case (4 sg c cs d ds)
  show ?case
  proof (cases z)
    case Nil
    then show ?thesis using "4.prems" by (simp split: if_splits)
  next
    case (Cons e es)
    consider "c = d" "d = e" | "c = d" "d \<noteq> e" | "c \<noteq> d" "d = e" | "c \<noteq> d" "d \<noteq> e" by blast
    then show ?thesis
    proof cases
      case 1
      then show ?thesis using "4.IH"[of es] "4.prems" Cons by (simp split: if_splits)
    next
      case 4
      then have "plain_char sg c < plain_char sg e"
        using "4.prems" Cons plain_char_inj[of sg c d] plain_char_inj[of sg d e] by simp
      then show ?thesis using Cons by auto
    qed (use "4.prems" Cons in \<open>simp_all split: if_splits\<close>)
  qed
qed

interpretation strcmp: comparator "strcmp sg" for sg
proof
  show "0 < strcmp sg x y \<longleftrightarrow> strcmp sg y x < 0" for x y
    using strcmp_flip[of sg y x] by simp
  show "strcmp sg x z \<le> 0" if "strcmp sg x y \<le> 0" "strcmp sg y z \<le> 0" for x y z
    using that by (rule strcmp_trans)
qed

end
