(* ===== verification/LibAlloc.thy ===== *)
theory LibAlloc
  imports LibBase
begin

text \<open>
  The memory allocator of the FUZIX C library: \<open>free\<close>, \<open>brkmore\<close> and \<open>malloc\<close>
  of \<open>src/libs/malloc.c\<close> and \<open>realloc\<close> of \<open>src/libs/realloc.c\<close>, over an explicit
  memory of block headers. The free blocks form a circular list in address
  order through a root header of size 0. No configuration of the repository
  defines \<open>USE_SYSMALLOC\<close>, so that part of \<open>brkmore\<close> is left out.
\<close>

subsection \<open>The arena\<close>

text \<open>
  Memory in units of a header: \<open>struct memh\<close> is four bytes, two for the link
  and two for the size, and every block starts on a unit. Addresses are unit
  numbers, so that the byte address of unit \<open>a\<close> is \<open>4 * a\<close>; 0 is NULL.
\<close>

record memh =
  m_next :: nat
  m_size :: nat

record arena =
  hdr :: "nat \<Rightarrow> memh"
  mroot :: nat
  mfreeptr :: nat
  brkval :: nat

text \<open>
  The kernel: what \<open>sbrk(0)\<close> returns when the break is at the given unit, and
  whether \<open>brk\<close> to the given unit succeeds.
\<close>

record kernel =
  sbrk0 :: "nat \<Rightarrow> nat option"
  brk_ok :: "nat \<Rightarrow> bool"

definition sizeof_memh :: nat where
  "sizeof_memh = 4"

definition size_t_mod :: nat where
  "size_t_mod = 65536"

definition BRKSIZE :: nat where
  "BRKSIZE = 512 div sizeof_memh"

definition nxt :: "arena \<Rightarrow> nat \<Rightarrow> nat" where
  "nxt s a = m_next (hdr s a)"

definition siz :: "arena \<Rightarrow> nat \<Rightarrow> nat" where
  "siz s a = m_size (hdr s a)"

definition set_nxt :: "nat \<Rightarrow> nat \<Rightarrow> arena \<Rightarrow> arena" where
  "set_nxt a v s = s\<lparr>hdr := (hdr s)(a := (hdr s a)\<lparr>m_next := v\<rparr>)\<rparr>"

definition set_siz :: "nat \<Rightarrow> nat \<Rightarrow> arena \<Rightarrow> arena" where
  "set_siz a v s = s\<lparr>hdr := (hdr s)(a := (hdr s a)\<lparr>m_size := v\<rparr>)\<rparr>"

definition initial_arena :: "nat \<Rightarrow> nat \<Rightarrow> arena" where
  "initial_arena root b =
     \<lparr>hdr = (\<lambda>_. \<lparr>m_next = 0, m_size = 0\<rparr>)(root := \<lparr>m_next = root, m_size = 0\<rparr>),
      mroot = root, mfreeptr = root, brkval = b\<rparr>"

subsection \<open>\<open>free\<close>\<close>

text \<open>The loops follow links in memory; \<open>None\<close> is a loop that never ends.\<close>

partial_function (option) free_seek :: "arena \<Rightarrow> nat \<Rightarrow> nat \<Rightarrow> nat option" where
  [code]: "free_seek s mh p =
     (if p < mh \<and> mh < nxt s p then Some p
      else if nxt s p \<le> p \<and> (p < mh \<or> mh < nxt s p) then Some p
      else free_seek s mh (nxt s p))"

definition merge_forward :: "nat \<Rightarrow> nat \<Rightarrow> arena \<Rightarrow> arena" where
  "merge_forward mh p s =
     (if mh + siz s mh = nxt s p
      then (let s1 = set_siz mh (siz s mh + siz s (nxt s p)) s
            in set_nxt mh (nxt s1 (nxt s1 p)) s1)
      else set_nxt mh (nxt s p) s)"

definition merge_backward :: "nat \<Rightarrow> nat \<Rightarrow> arena \<Rightarrow> arena" where
  "merge_backward mh p s =
     (if p + siz s p = mh
      then (let s1 = set_siz p (siz s p + siz s mh) s
            in set_nxt p (nxt s1 mh) s1)
      else set_nxt p mh s)"

definition free_block :: "nat \<Rightarrow> arena \<Rightarrow> arena option" where
  "free_block ptr s =
     (if ptr = 0 then Some s
      else do {
        let mh = ptr - 1;
        p \<leftarrow> free_seek s mh (mfreeptr s);
        Some ((merge_backward mh p (merge_forward mh p s))\<lparr>mfreeptr := p\<rparr>)
      })"

subsection \<open>\<open>brkmore\<close> and \<open>malloc\<close>\<close>

definition brkmore :: "kernel \<Rightarrow> nat \<Rightarrow> arena \<Rightarrow> (nat \<times> arena) option" where
  "brkmore k nb0 s =
     (let nb = (if nb0 < BRKSIZE then BRKSIZE else nb0)
      in case sbrk0 k (brkval s) of
           None \<Rightarrow> Some (0, s)
         | Some p \<Rightarrow>
             if (sizeof_memh * p + sizeof_memh * nb mod size_t_mod) mod size_t_mod < sizeof_memh * p
             then Some (0, s)
             else if \<not> brk_ok k (p + nb) then Some (0, s)
             else do {
               s' \<leftarrow> free_block (p + 1) (set_siz p nb (s\<lparr>brkval := p + nb\<rparr>));
               Some (mfreeptr s', s')
             })"

definition take_block :: "nat \<Rightarrow> nat \<Rightarrow> nat \<Rightarrow> arena \<Rightarrow> nat \<times> arena" where
  "take_block nblocks prev p s =
     (if siz s p = nblocks
      then (p + 1, (set_nxt prev (nxt s p) s)\<lparr>mfreeptr := prev\<rparr>)
      else (let s1 = set_siz p (siz s p - nblocks) s;
                q = p + siz s1 p
            in (q + 1, (set_siz q nblocks s1)\<lparr>mfreeptr := prev\<rparr>)))"

partial_function (option) malloc_walk ::
  "kernel \<Rightarrow> nat \<Rightarrow> nat \<Rightarrow> nat \<Rightarrow> arena \<Rightarrow> (nat \<times> arena) option" where
  [code]: "malloc_walk k nblocks prev p s =
     (if nblocks \<le> siz s p then Some (take_block nblocks prev p s)
      else if p = mfreeptr s then do {
        (q, s') \<leftarrow> brkmore k nblocks s;
        if q = 0 then Some (0, s') else malloc_walk k nblocks q (nxt s' q) s'
      }
      else malloc_walk k nblocks p (nxt s p) s)"

definition malloc :: "kernel \<Rightarrow> nat \<Rightarrow> arena \<Rightarrow> (nat \<times> arena) option" where
  "malloc k sz s =
     (let n = (sz + sizeof_memh + sizeof_memh - 1) mod size_t_mod
      in if n < sz then Some (0, s)
         else malloc_walk k (n div sizeof_memh) (mfreeptr s) (nxt s (mfreeptr s)) s)"

subsection \<open>\<open>realloc\<close>\<close>

text \<open>\<open>memcpy\<close> of whole units; the two areas never overlap.\<close>

definition copy_units :: "nat \<Rightarrow> nat \<Rightarrow> nat \<Rightarrow> arena \<Rightarrow> arena" where
  "copy_units np ptr n s =
     s\<lparr>hdr := \<lambda>a. if np \<le> a \<and> a < np + n then hdr s (ptr + (a - np)) else hdr s a\<rparr>"

definition realloc :: "kernel \<Rightarrow> nat \<Rightarrow> nat \<Rightarrow> arena \<Rightarrow> (nat \<times> arena) option" where
  "realloc k ptr sz s =
     (if sz = 0 then do { s' \<leftarrow> free_block ptr s; Some (0, s') }
      else if ptr = 0 then malloc k sz s
      else let mh = ptr - 1;
               nblocks = (sz + sizeof_memh + sizeof_memh - 1) mod size_t_mod div sizeof_memh
           in if nblocks = siz s mh then Some (ptr, s)
              else if nblocks < siz s mh then Some (ptr, s)
              else do {
                (np, s1) \<leftarrow> malloc k sz s;
                if np = 0 then Some (ptr, s1)
                else do {
                  s2 \<leftarrow> free_block ptr (copy_units np ptr (siz s1 mh) s1);
                  Some (np, s2)
                }
              })"

end
