(* ===== verification/AllocSpec.thy ===== *)
theory AllocSpec
  imports LibAlloc
begin

text \<open>
  What the allocator promises. \<open>arena_ok s fs\<close> says that the free list of \<open>s\<close>
  is the list \<open>fs\<close> of header addresses: circular, sorted, with no two blocks
  touching, below the break, entered anywhere by \<open>__mfreeptr\<close>. Every operation
  is described by the set of free units before and after (\<open>units\<close>) and by the
  memory it leaves alone; from this follow the safety of any sequence of calls
  and the behaviour of \<open>realloc\<close>.
\<close>

lemma nxt_siz_upd [simp]:
  "nxt (set_nxt a v s) = (nxt s)(a := v)" "siz (set_nxt a v s) = siz s"
  "nxt (set_siz a v s) = nxt s" "siz (set_siz a v s) = (siz s)(a := v)"
  by (auto simp: nxt_def siz_def set_nxt_def set_siz_def)

lemma other_fields [simp]:
  "mroot (set_nxt a v s) = mroot s" "mfreeptr (set_nxt a v s) = mfreeptr s" "brkval (set_nxt a v s) = brkval s"
  "mroot (set_siz a v s) = mroot s" "mfreeptr (set_siz a v s) = mfreeptr s" "brkval (set_siz a v s) = brkval s"
  by (simp_all add: set_nxt_def set_siz_def)

lemma headers_of_fields [simp]:
  "nxt (s\<lparr>mfreeptr := p\<rparr>) = nxt s" "siz (s\<lparr>mfreeptr := p\<rparr>) = siz s"
  "nxt (s\<lparr>brkval := b\<rparr>) = nxt s" "siz (s\<lparr>brkval := b\<rparr>) = siz s"
  by (auto simp: nxt_def siz_def)

primrec chain :: "(nat \<Rightarrow> nat) \<Rightarrow> nat list \<Rightarrow> nat \<Rightarrow> nat \<Rightarrow> bool" where
  "chain f [] s t = (s = t)"
| "chain f (a # as) s t = (s = a \<and> chain f as (f a) t)"

lemma chain_append [simp]:
  "chain f (as @ bs) s t = (\<exists>u. chain f as s u \<and> chain f bs u t)"
  by (induction as arbitrary: s) auto

lemma chain_upd [simp]:
  "a \<notin> set as \<Longrightarrow> chain (f(a := v)) as s t = chain f as s t"
  by (induction as arbitrary: s) auto

definition gaps :: "(nat \<Rightarrow> nat) \<Rightarrow> nat list \<Rightarrow> bool" where
  "gaps f as \<longleftrightarrow> sorted_wrt (\<lambda>a b. a + f a < b) as"

lemma gaps_simps [simp]:
  "gaps f []" "gaps f (a # as) \<longleftrightarrow> (\<forall>b\<in>set as. a + f a < b) \<and> gaps f as"
  "gaps f (as @ bs) \<longleftrightarrow> gaps f as \<and> gaps f bs \<and> (\<forall>a\<in>set as. \<forall>b\<in>set bs. a + f a < b)"
  by (auto simp: gaps_def sorted_wrt_append)

lemma gaps_upd [simp]: "a \<notin> set as \<Longrightarrow> gaps (f(a := v)) as = gaps f as"
  by (induction as) auto

lemma gaps_sorted: "gaps f as \<Longrightarrow> sorted_wrt (<) as"
  by (induction as) auto

definition arena_ok :: "arena \<Rightarrow> nat list \<Rightarrow> bool" where
  "arena_ok s fs \<longleftrightarrow>
     fs \<noteq> [] \<and> chain (nxt s) fs (mroot s) (mroot s) \<and>
     gaps (siz s) fs \<and>
     (\<forall>a\<in>set fs. a + siz s a \<le> brkval s) \<and>
     siz s (mroot s) = 0 \<and> (\<forall>a\<in>set fs. a = mroot s \<or> 0 < siz s a) \<and>
     mfreeptr s \<in> set fs \<and> 0 < mroot s \<and> mroot s < brkval s \<and>
     sizeof_memh * brkval s < size_t_mod"

definition units :: "arena \<Rightarrow> nat list \<Rightarrow> nat set" where
  "units s fs = (\<Union>a\<in>set fs. {a..<a + siz s a})"

definition used_block :: "arena \<Rightarrow> nat list \<Rightarrow> nat \<Rightarrow> bool" where
  "used_block s fs mh \<longleftrightarrow>
     mroot s < mh \<and> 0 < siz s mh \<and> mh + siz s mh \<le> brkval s \<and>
     (\<forall>a\<in>set fs. a + siz s a \<le> mh \<or> mh + siz s mh \<le> a)"

lemma arena_split:
  assumes "arena_ok s (xs @ q # ys)"
  shows "nxt s q = (case ys of [] \<Rightarrow> mroot s | b # _ \<Rightarrow> b)"
  using assms by (cases ys) (auto simp: arena_ok_def)

lemma arena_sorted: "arena_ok s fs \<Longrightarrow> sorted_wrt (<) fs"
  by (auto simp: arena_ok_def intro: gaps_sorted)

lemma arena_hd:
  assumes "arena_ok s fs" shows "\<exists>ys. fs = mroot s # ys"
  using assms by (cases fs) (auto simp: arena_ok_def)

lemma arena_root_le: "arena_ok s fs \<Longrightarrow> a \<in> set fs \<Longrightarrow> mroot s \<le> a"
  using arena_hd arena_sorted by fastforce

lemma seek_fwd:
  assumes "chain (nxt s) (p # ys) p r" "sorted_wrt (<) (p # ys)" "p < mh" "r \<le> p" "mh \<notin> set ys"
  shows "\<exists>us q vs. p # ys = us @ q # vs \<and> free_seek s mh p = Some q \<and> q < mh \<and> (vs = [] \<or> mh < hd vs)"
  using assms
proof (induction ys arbitrary: p)
  case Nil
  then show ?case
    by (intro exI[of _ "[]"] exI[of _ p]) (subst free_seek.simps, auto)
next
  case (Cons b bs)
  then have nx: "nxt s p = b" and pb: "p < b" by auto
  show ?case
  proof (cases "mh < b")
    case True
    then show ?thesis using Cons nx
      by (intro exI[of _ "[]"] exI[of _ p] exI[of _ "b # bs"]) (subst free_seek.simps, auto)
  next
    case False
    then have lt: "b < mh" using Cons.prems by auto
    then have step: "free_seek s mh p = free_seek s mh b"
      using nx pb by (subst free_seek.simps) auto
    obtain us q vs where "b # bs = us @ q # vs" "free_seek s mh b = Some q" "q < mh" "vs = [] \<or> mh < hd vs"
      using Cons.IH[of b] Cons.prems nx pb lt by auto
    then show ?thesis using step
      by (intro exI[of _ "p # us"] exI[of _ q] exI[of _ vs]) auto
  qed
qed

lemma seek_wrap:
  assumes "chain (nxt s) (p # ys) p r" "sorted_wrt (<) (p # ys)" "mh < p" "r < mh"
  shows "free_seek s mh p = free_seek s mh r"
  using assms
proof (induction ys arbitrary: p)
  case Nil
  then show ?case by (subst free_seek.simps) auto
next
  case (Cons b bs)
  then have "nxt s p = b" "p < b" by auto
  with Cons show ?case by (subst free_seek.simps) auto
qed

lemma free_seek_total:
  assumes ok: "arena_ok s fs" and mh: "mroot s < mh" "mh \<notin> set fs"
  obtains xs q ys where "fs = xs @ q # ys" "free_seek s mh (mfreeptr s) = Some q" "q < mh"
    "ys = [] \<or> mh < hd ys"
proof -
  have start: "\<exists>us q vs. fs = us @ q # vs \<and> free_seek s mh (mfreeptr s) = Some q \<and> q < mh \<and> (vs = [] \<or> mh < hd vs)"
  proof (cases "mfreeptr s < mh")
    case True
    from ok obtain us vs where fs: "fs = us @ mfreeptr s # vs"
      unfolding arena_ok_def by (metis split_list)
    then have "\<exists>us' q vs'. mfreeptr s # vs = us' @ q # vs' \<and> free_seek s mh (mfreeptr s) = Some q \<and> q < mh \<and> (vs' = [] \<or> mh < hd vs')"
      using ok True mh arena_sorted[OF ok] arena_root_le[OF ok]
      by (intro seek_fwd[where r = "mroot s"]) (auto simp: arena_ok_def sorted_wrt_append Cons_eq_append_conv)
    then obtain us' q vs' where "mfreeptr s # vs = us' @ q # vs'" "free_seek s mh (mfreeptr s) = Some q" "q < mh" "vs' = [] \<or> mh < hd vs'"
      by blast
    then show ?thesis using fs by (intro exI[of _ "us @ us'"] exI[of _ q] exI[of _ vs']) auto
  next
    case False
    from ok obtain us vs where fs: "fs = us @ mfreeptr s # vs"
      unfolding arena_ok_def by (metis split_list)
    from False mh ok have "mh < mfreeptr s" by (metis arena_ok_def linorder_neqE_nat)
    then have wrap: "free_seek s mh (mfreeptr s) = free_seek s mh (mroot s)"
      using fs ok arena_sorted[OF ok] mh
      by (intro seek_wrap[where ys = vs]) (auto simp: arena_ok_def sorted_wrt_append)
    obtain ys where "fs = mroot s # ys" using arena_hd[OF ok] by blast
    then show ?thesis
      using ok arena_sorted[OF ok] mh wrap seek_fwd[of s "mroot s" ys "mroot s" mh]
      by (auto simp: arena_ok_def)
  qed
  then show thesis using that by blast
qed

definition after_free :: "nat \<Rightarrow> nat \<Rightarrow> arena \<Rightarrow> arena" where
  "after_free mh q s = (merge_backward mh q (merge_forward mh q s))\<lparr>mfreeptr := q\<rparr>"

lemma after_free_fields:
  "mroot (after_free mh q s) = mroot s" "brkval (after_free mh q s) = brkval s"
  "mfreeptr (after_free mh q s) = q"
  by (simp_all add: after_free_def merge_backward_def merge_forward_def Let_def)

lemma after_free_nxt_siz:
  assumes "q \<noteq> mh" "nxt s q \<noteq> mh" 
  defines "fwd \<equiv> mh + siz s mh = nxt s q" and "back \<equiv> q + siz s q = mh"
  defines "sz \<equiv> (if fwd then siz s mh + siz s (nxt s q) else siz s mh)"
    and "tgt \<equiv> (if fwd then nxt s (nxt s q) else nxt s q)"
  shows "nxt (after_free mh q s) = (if back then (nxt s)(mh := tgt, q := tgt) else (nxt s)(mh := tgt, q := mh))"
    "siz (after_free mh q s) = (if back then (siz s)(mh := sz, q := siz s q + sz) else (siz s)(mh := sz))"
  using assms(1,2) unfolding assms(3-6) after_free_def merge_backward_def merge_forward_def Let_def
  by (auto simp: fun_eq_iff)

text \<open>
  \<open>splice s xs q ys mh T sz tgt\<close>: the block at \<open>mh\<close> goes behind \<open>q\<close> in the free list
  \<open>xs @ q # ys\<close>; after the merge with what follows it has size \<open>sz\<close>, links to \<open>tgt\<close>
  and the blocks \<open>T\<close> come behind it.
\<close>

definition splice :: "arena \<Rightarrow> nat list \<Rightarrow> nat \<Rightarrow> nat list \<Rightarrow> nat \<Rightarrow> nat list \<Rightarrow> nat \<Rightarrow> nat \<Rightarrow> bool" where
  "splice s xs q ys mh T sz tgt \<longleftrightarrow>
     arena_ok s (xs @ q # ys) \<and> mroot s < mh \<and> q < mh \<and> q + siz s q \<le> mh \<and> (q = mroot s \<longrightarrow> mh \<noteq> q + siz s q) \<and>
     mh \<notin> set xs \<and> mh \<notin> set T \<and> q \<notin> set xs \<and> q \<notin> set T \<and> set T \<subseteq> set ys \<and>
     chain (nxt s) T tgt (mroot s) \<and> gaps (siz s) T \<and> (\<forall>b\<in>set T. mh + sz < b) \<and> 0 < sz \<and> mh + sz \<le> brkval s \<and>
     {mh..<mh + sz} \<union> (\<Union>a\<in>set T. {a..<a + siz s a}) = {mh..<mh + siz s mh} \<union> (\<Union>a\<in>set ys. {a..<a + siz s a})"

lemma splice_arena:
  assumes "splice s xs q ys mh T sz tgt"
  shows "chain (nxt s) xs (mroot s) q" "gaps (siz s) xs" "siz s (mroot s) = 0" "\<forall>a\<in>set xs. a + siz s a < q"
    "\<forall>b\<in>set T. q + siz s q < b" "\<forall>a\<in>set xs. \<forall>b\<in>set T. a + siz s a < b"
    "\<forall>a\<in>set xs. a + siz s a \<le> brkval s" "q + siz s q \<le> brkval s" "\<forall>a\<in>set T. a + siz s a \<le> brkval s"
    "\<forall>a\<in>set xs. a = mroot s \<or> 0 < siz s a" "q = mroot s \<or> 0 < siz s q" "\<forall>a\<in>set T. a = mroot s \<or> 0 < siz s a"
    "0 < mroot s" "mroot s < brkval s" "sizeof_memh * brkval s < size_t_mod"
proof -
  have ok: "arena_ok s (xs @ q # ys)" and T: "\<And>a. a \<in> set T \<Longrightarrow> a \<in> set ys"
    using assms by (auto simp: splice_def)
  show "chain (nxt s) xs (mroot s) q" "gaps (siz s) xs" "siz s (mroot s) = 0" "\<forall>a\<in>set xs. a + siz s a < q"
    "\<forall>b\<in>set T. q + siz s q < b" "\<forall>a\<in>set xs. \<forall>b\<in>set T. a + siz s a < b"
    "\<forall>a\<in>set xs. a + siz s a \<le> brkval s" "q + siz s q \<le> brkval s" "\<forall>a\<in>set T. a + siz s a \<le> brkval s"
    "\<forall>a\<in>set xs. a = mroot s \<or> 0 < siz s a" "q = mroot s \<or> 0 < siz s q" "\<forall>a\<in>set T. a = mroot s \<or> 0 < siz s a"
    "0 < mroot s" "mroot s < brkval s" "sizeof_memh * brkval s < size_t_mod"
    using ok T by (simp_all add: arena_ok_def)
qed

lemma splice_units:
  assumes "splice s xs q ys mh T sz tgt"
  shows "(\<Union>a\<in>set xs. {a..<a + siz s a}) \<union> ({q..<q + siz s q} \<union> ({mh..<mh + sz} \<union> (\<Union>a\<in>set T. {a..<a + siz s a}))) =
    units s (xs @ q # ys) \<union> {mh..<mh + siz s mh}"
proof -
  have u: "{mh..<mh + sz} \<union> (\<Union>a\<in>set T. {a..<a + siz s a}) = {mh..<mh + siz s mh} \<union> (\<Union>a\<in>set ys. {a..<a + siz s a})"
    using assms by (simp add: splice_def)
  show ?thesis unfolding u by (simp add: units_def Un_ac)
qed

lemma link_back:
  assumes sp: "splice s xs q ys mh T sz tgt" and joins: "q + siz s q = mh"
    and s': "nxt s' = (nxt s)(mh := tgt, q := tgt)" "siz s' = (siz s)(mh := sz, q := siz s q + sz)"
    "mroot s' = mroot s" "brkval s' = brkval s" "mfreeptr s' = q"
  shows "arena_ok s' (xs @ q # T)" "units s' (xs @ q # T) = units s (xs @ q # ys) \<union> {mh..<mh + siz s mh}"
proof -
  note p = sp[unfolded splice_def] and o = splice_arena[OF sp]
  have sq: "siz s' q = siz s q + sz" using s'(2) by simp
  have keep: "\<forall>a\<in>set xs. siz s' a = siz s a" "\<forall>a\<in>set T. siz s' a = siz s a"
    using p unfolding s'(2) by auto
  have "chain (nxt s') (xs @ q # T) (mroot s) (mroot s)" unfolding s'(1) using p o(1) by simp
  moreover have "gaps (siz s') xs" "gaps (siz s') T" using p o(2) by (simp_all add: s'(2))
  then have "gaps (siz s') (xs @ q # T)" using p o(4,6) keep sq joins by auto
  moreover have "\<forall>a\<in>set (xs @ q # T). a + siz s' a \<le> brkval s" using keep sq o p joins by auto
  moreover have "\<forall>a\<in>set (xs @ q # T). a = mroot s \<or> 0 < siz s' a" using keep sq o p by auto
  moreover have "siz s' (mroot s) = 0" using p o joins unfolding s'(2) by auto
  ultimately show "arena_ok s' (xs @ q # T)" unfolding arena_ok_def s'(3-5) using o by simp
  have "{q..<q + siz s' q} = {q..<q + siz s q} \<union> {mh..<mh + sz}" using sq joins by auto
  then have "units s' (xs @ q # T) = (\<Union>a\<in>set xs. {a..<a + siz s a}) \<union> ({q..<q + siz s q} \<union> ({mh..<mh + sz} \<union> (\<Union>a\<in>set T. {a..<a + siz s a})))"
    using keep unfolding units_def by (simp add: Un_ac)
  then show "units s' (xs @ q # T) = units s (xs @ q # ys) \<union> {mh..<mh + siz s mh}"
    unfolding splice_units[OF sp] .
qed

lemma link_new:
  assumes sp: "splice s xs q ys mh T sz tgt" and apart: "q + siz s q \<noteq> mh"
    and s': "nxt s' = (nxt s)(mh := tgt, q := mh)" "siz s' = (siz s)(mh := sz)"
    "mroot s' = mroot s" "brkval s' = brkval s" "mfreeptr s' = q"
  shows "arena_ok s' (xs @ q # mh # T)" "units s' (xs @ q # mh # T) = units s (xs @ q # ys) \<union> {mh..<mh + siz s mh}"
proof -
  note p = sp[unfolded splice_def] and o = splice_arena[OF sp]
  have sq: "siz s' q = siz s q" "siz s' mh = sz" using s'(2) p by auto
  have keep: "\<forall>a\<in>set xs. siz s' a = siz s a" "\<forall>a\<in>set T. siz s' a = siz s a"
    using p unfolding s'(2) by auto
  have "chain (nxt s') (xs @ q # mh # T) (mroot s) (mroot s)" unfolding s'(1) using p o(1) by auto
  moreover have "gaps (siz s') xs" "gaps (siz s') T" using p o(2) by (simp_all add: s'(2))
  moreover have "\<forall>a\<in>set xs. a + siz s a < mh" using o(4) p by auto
  ultimately have "chain (nxt s') (xs @ q # mh # T) (mroot s) (mroot s)" "gaps (siz s') (xs @ q # mh # T)"
    using p o(4,5,6) keep sq apart by auto
  moreover have "\<forall>a\<in>set (xs @ q # mh # T). a + siz s' a \<le> brkval s" using keep sq o p by auto
  moreover have "\<forall>a\<in>set (xs @ q # mh # T). a = mroot s \<or> 0 < siz s' a" using keep sq o p by auto
  moreover have "siz s' (mroot s) = 0" using p o unfolding s'(2) by auto
  ultimately show "arena_ok s' (xs @ q # mh # T)" unfolding arena_ok_def s'(3-5) using o by simp
  have "units s' (xs @ q # mh # T) = (\<Union>a\<in>set xs. {a..<a + siz s a}) \<union> ({q..<q + siz s q} \<union> ({mh..<mh + sz} \<union> (\<Union>a\<in>set T. {a..<a + siz s a})))"
    using keep sq unfolding units_def by (simp add: Un_ac)
  then show "units s' (xs @ q # mh # T) = units s (xs @ q # ys) \<union> {mh..<mh + siz s mh}"
    unfolding splice_units[OF sp] .
qed

lemma free_splice:
  assumes ok: "arena_ok s (xs @ q # ys)" and used: "used_block s (xs @ q # ys) mh"
    and q: "q < mh" and ys: "ys = [] \<or> mh < hd ys"
  defines "fwd \<equiv> ys \<noteq> [] \<and> mh + siz s mh = hd ys"
  shows "splice s xs q ys mh (if fwd then tl ys else ys)
    (if fwd then siz s mh + siz s (hd ys) else siz s mh) (if fwd then nxt s (hd ys) else nxt s q)"
proof -
  have srt: "sorted_wrt (<) (xs @ q # ys)" using ok by (rule arena_sorted)
  have less: "\<forall>a\<in>set xs. a < q" "\<forall>b\<in>set ys. mh < b"
    using srt q ys by (cases ys; force simp: sorted_wrt_append)+
  have away: "a + siz s a \<le> mh \<or> mh + siz s mh \<le> a" if "a \<in> set (xs @ q # ys)" for a
    using used that unfolding used_block_def by blast
  have "\<forall>b\<in>set ys. mh + siz s mh \<le> b" using away less(2) by force
  moreover have "0 < siz s mh" "mh + siz s mh \<le> brkval s" "mroot s < mh" "q + siz s q \<le> mh"
    using used q away[of q] by (auto simp: used_block_def)
  moreover have "mh \<notin> set xs" "mh \<notin> set ys" "q \<notin> set xs" "q \<notin> set ys" using less q by force+
  moreover have "q = mroot s \<longrightarrow> mh \<noteq> q + siz s q" using ok q by (auto simp: arena_ok_def)
  moreover have "chain (nxt s) ys (nxt s q) (mroot s)" "gaps (siz s) ys" "\<forall>a\<in>set ys. a + siz s a \<le> brkval s"
    using ok by (simp_all add: arena_ok_def)
  ultimately show ?thesis
    unfolding splice_def fwd_def using ok q by (cases ys) auto
qed

lemma free_inserts:
  assumes ok: "arena_ok s (xs @ q # ys)" and used: "used_block s (xs @ q # ys) mh"
    and q: "q < mh" and ys: "ys = [] \<or> mh < hd ys"
  defines "s' \<equiv> after_free mh q s"
  defines "fs' \<equiv> xs @ (if q + siz s q = mh then [q] else [q, mh])
                @ (if ys \<noteq> [] \<and> mh + siz s mh = hd ys then tl ys else ys)"
  shows "arena_ok s' fs'"
    and "units s' fs' = units s (xs @ q # ys) \<union> {mh..<mh + siz s mh}"
proof -
  have nq: "nxt s q = (case ys of [] \<Rightarrow> mroot s | b # _ \<Rightarrow> b)" using ok by (rule arena_split)
  have root: "mroot s < mh" using used by (simp add: used_block_def)
  have ne: "q \<noteq> mh" "nxt s q \<noteq> mh" using q ys nq root by (auto split: list.splits)
  have "(mh + siz s mh = nxt s q) = (ys \<noteq> [] \<and> mh + siz s mh = hd ys)"
    "ys \<noteq> [] \<Longrightarrow> nxt s q = hd ys" using nq root by (auto split: list.splits)
  then have f: "nxt s' = (let tgt = if ys \<noteq> [] \<and> mh + siz s mh = hd ys then nxt s (hd ys) else nxt s q
        in if q + siz s q = mh then (nxt s)(mh := tgt, q := tgt) else (nxt s)(mh := tgt, q := mh))"
    "siz s' = (let sz = if ys \<noteq> [] \<and> mh + siz s mh = hd ys then siz s mh + siz s (hd ys) else siz s mh
        in if q + siz s q = mh then (siz s)(mh := sz, q := siz s q + sz) else (siz s)(mh := sz))"
    unfolding s'_def after_free_nxt_siz[OF ne] Let_def by auto
  note sp = free_splice[OF ok used q ys]
  note s' = after_free_fields[of mh q s, folded s'_def]
  show "arena_ok s' fs'" "units s' fs' = units s (xs @ q # ys) \<union> {mh..<mh + siz s mh}"
    using link_back[OF sp, of s'] link_new[OF sp, of s'] f s' unfolding fs'_def Let_def
    by (cases "q + siz s q = mh"; simp)+
qed

lemma after_free_hdr: "a \<noteq> mh \<Longrightarrow> a \<noteq> q \<Longrightarrow> hdr (after_free mh q s) a = hdr s a"
  by (simp add: after_free_def merge_backward_def merge_forward_def Let_def set_nxt_def set_siz_def)

lemma used_not_free: "used_block s fs mh \<Longrightarrow> mh \<notin> set fs"
  by (auto simp: used_block_def)

lemma free_block_ok:
  assumes ok: "arena_ok s fs" and used: "used_block s fs mh"
  obtains s' fs' where "free_block (mh + 1) s = Some s'" "arena_ok s' fs'"
    "units s' fs' = units s fs \<union> {mh..<mh + siz s mh}"
    "brkval s' = brkval s" "mroot s' = mroot s"
    "\<And>a. a \<notin> set fs \<Longrightarrow> a \<noteq> mh \<Longrightarrow> hdr s' a = hdr s a"
proof -
  from used have mh: "mroot s < mh" "mh \<notin> set fs"
    by (auto simp: used_not_free) (simp add: used_block_def)
  from free_seek_total[OF ok this] obtain xs q ys where
    fs: "fs = xs @ q # ys" and seek: "free_seek s mh (mfreeptr s) = Some q"
    and q: "q < mh" "ys = [] \<or> mh < hd ys" by blast
  let ?fs = "xs @ (if q + siz s q = mh then [q] else [q, mh])
                @ (if ys \<noteq> [] \<and> mh + siz s mh = hd ys then tl ys else ys)"
  have "free_block (mh + 1) s = Some (after_free mh q s)"
    using seek by (simp add: free_block_def after_free_def Let_def)
  moreover note free_inserts[OF ok[unfolded fs] used[unfolded fs] q]
  ultimately show thesis
    using that[of "after_free mh q s" ?fs] after_free_hdr fs
    by (auto simp: after_free_fields)
qed

lemma run_in_one_block:
  assumes ok: "arena_ok s fs" and sub: "{x..<y} \<subseteq> units s fs" and ne: "x < y"
  obtains a where "a \<in> set fs" "a \<le> x" "y \<le> a + siz s a"
proof -
  from sub ne have "x \<in> units s fs" by auto
  then obtain a where a: "a \<in> set fs" "a \<le> x" "x < a + siz s a" by (auto simp: units_def)
  moreover have "y \<le> a + siz s a"
  proof (rule ccontr)
    assume "\<not> y \<le> a + siz s a"
    then have "a + siz s a \<in> {x..<y}" using a by auto
    then have "a + siz s a \<in> units s fs" using sub by blast
    then obtain b where b: "b \<in> set fs" "b \<le> a + siz s a" "a + siz s a < b + siz s b"
      by (auto simp: units_def)
    from a(1) obtain us vs where fs: "fs = us @ a # vs" by (metis split_list)
    have "gaps (siz s) (us @ a # vs)" using ok fs by (simp add: arena_ok_def)
    then show False using b fs a by fastforce
  qed
  ultimately show thesis using that by blast
qed

lemma units_away:
  assumes "\<forall>a\<in>set fs. a + siz s a \<le> m \<or> m + n \<le> a"
  shows "units s fs \<inter> {m..<m + n} = {}"
proof -
  have "u \<notin> units s fs" if "u \<in> {m..<m + n}" for u
    using assms that by (auto simp: units_def)
  then show ?thesis by blast
qed

lemma take_block_exact:
  assumes ok: "arena_ok s (xs @ prev # p # ys)" and nb: "siz s p = nblocks" "0 < nblocks"
    and t: "take_block nblocks prev p s = (r, s')"
  shows "r = p + 1" "arena_ok s' (xs @ prev # ys)" "used_block s' (xs @ prev # ys) p"
    "units s' (xs @ prev # ys) = units s (xs @ prev # p # ys) - {p..<p + nblocks}"
    "siz s' = siz s" "brkval s' = brkval s" "mroot s' = mroot s"
    "\<And>a. a \<noteq> prev \<Longrightarrow> hdr s' a = hdr s a"
proof -
  have s': "s' = (set_nxt prev (nxt s p) s)\<lparr>mfreeptr := prev\<rparr>" and r: "r = p + 1"
    using t nb by (auto simp: take_block_def)
  have srt: "sorted_wrt (<) (xs @ prev # p # ys)" using ok by (rule arena_sorted)
  have mem: "prev \<notin> set xs" "prev \<notin> set ys" "prev \<noteq> p" "p \<notin> set xs" "p \<notin> set ys" "prev < p"
    using srt by (auto simp: sorted_wrt_append)
  have root: "mroot s \<le> prev" using arena_root_le[OF ok] by simp
  have ch: "chain (nxt s) xs (mroot s) prev" "chain (nxt s) ys (nxt s p) (mroot s)"
    using ok by (simp_all add: arena_ok_def)
  have gp: "gaps (siz s) (xs @ prev # p # ys)" using ok by (simp add: arena_ok_def)
  then have low: "\<forall>a\<in>set xs. a + siz s a < p" "prev + siz s prev < p" "\<forall>b\<in>set ys. p + siz s p < b"
    by auto
  have end_le: "p + siz s p \<le> brkval s" using ok by (simp add: arena_ok_def)
  show "r = p + 1" by (rule r)
  show "siz s' = siz s" "brkval s' = brkval s" "mroot s' = mroot s" 
    by (simp_all add: s')
  have nx: "nxt s' = (nxt s)(prev := nxt s p)" by (simp add: s')
  have "chain (nxt s') (xs @ prev # ys) (mroot s') (mroot s')"
    unfolding nx using ch mem by (simp add: s')
  moreover have "mfreeptr s' = prev" by (simp add: s')
  ultimately show "arena_ok s' (xs @ prev # ys)"
    using ok gp unfolding arena_ok_def by (simp add: s')
  show "used_block s' (xs @ prev # ys) p"
    using low nb mem root end_le unfolding used_block_def by (simp add: s' less_imp_le ball_Un)
  have "units s (xs @ prev # p # ys) = units s (xs @ prev # ys) \<union> {p..<p + siz s p}"
    by (auto simp: units_def)
  moreover have "units s (xs @ prev # ys) \<inter> {p..<p + siz s p} = {}"
    using low by (intro units_away) (auto intro: less_imp_le)
  moreover have "units s' (xs @ prev # ys) = units s (xs @ prev # ys)" by (simp add: units_def s')
  ultimately show "units s' (xs @ prev # ys) = units s (xs @ prev # p # ys) - {p..<p + nblocks}"
    using nb by auto
  show "\<And>a. a \<noteq> prev \<Longrightarrow> hdr s' a = hdr s a"
    by (simp add: s' set_nxt_def)
qed

lemma units_append: "units s (as @ b # bs) = units s as \<union> {b..<b + siz s b} \<union> units s bs"
  by (auto simp: units_def)

lemma units_cong: "(\<And>a. a \<in> set as \<Longrightarrow> siz s' a = siz s a) \<Longrightarrow> units s' as = units s as"
  by (simp add: units_def)

lemma take_block_split:
  assumes ok: "arena_ok s (xs @ p # ys)" and nb: "nblocks < siz s p" "0 < nblocks"
    and prev: "prev \<in> set (xs @ p # ys)"
    and t: "take_block nblocks prev p s = (r, s')"
  defines "q \<equiv> p + (siz s p - nblocks)"
  shows "r = q + 1" "arena_ok s' (xs @ p # ys)" "used_block s' (xs @ p # ys) q"
    "units s' (xs @ p # ys) = units s (xs @ p # ys) - {q..<q + nblocks}"
    "siz s' q = nblocks" "brkval s' = brkval s" "mroot s' = mroot s"
    "\<And>a. a \<noteq> p \<Longrightarrow> a \<noteq> q \<Longrightarrow> hdr s' a = hdr s a" "p < q" "q + nblocks = p + siz s p"
proof -
  have s': "s' = (set_siz q nblocks (set_siz p (siz s p - nblocks) s))\<lparr>mfreeptr := prev\<rparr>" and r: "r = q + 1"
    using t nb by (auto simp: take_block_def q_def Let_def)
  have q: "p < q" "q + nblocks = p + siz s p" using nb by (auto simp: q_def)
  then show "p < q" "q + nblocks = p + siz s p" by auto
  have gp: "gaps (siz s) (xs @ p # ys)" using ok by (simp add: arena_ok_def)
  then have low: "\<forall>a\<in>set xs. a + siz s a < p" "\<forall>b\<in>set ys. q + nblocks < b"
    unfolding q(2) by auto
  have mem: "q \<notin> set xs" "q \<notin> set ys" "p \<notin> set xs" "p \<notin> set ys"
    using low q by fastforce+
  have root: "mroot s \<le> p" "siz s (mroot s) = 0" using arena_root_le[OF ok] ok by (simp_all add: arena_ok_def)
  then have pr: "mroot s \<noteq> p" "mroot s \<noteq> q" using nb q by auto
  show "r = q + 1" by (rule r)
  show "brkval s' = brkval s" "mroot s' = mroot s"
    by (simp_all add: s')
  have sz: "siz s' = (siz s)(p := siz s p - nblocks, q := nblocks)" and nx: "nxt s' = nxt s"
    by (simp_all add: s')
  show sq: "siz s' q = nblocks" by (simp add: sz)
  have sp: "siz s' p = siz s p - nblocks" using q by (simp add: sz)
  have other: "\<And>a. a \<in> set xs \<union> set ys \<Longrightarrow> siz s' a = siz s a"
    using mem by (auto simp: sz)
  have "gaps (siz s') xs" "gaps (siz s') ys"
    using gp mem by (simp_all add: sz)
  then have g: "gaps (siz s') (xs @ p # ys)"
    using gp other sp by (auto simp: less_diff_conv2)
  have "\<forall>a\<in>set (xs @ p # ys). a + siz s' a \<le> brkval s"
    using ok other sp by (auto simp: arena_ok_def)
  moreover have "\<forall>a\<in>set (xs @ p # ys). a = mroot s \<or> 0 < siz s' a"
    using ok other sp nb by (auto simp: arena_ok_def)
  moreover have "siz s' (mroot s) = 0" using pr root by (simp add: sz)
  ultimately show "arena_ok s' (xs @ p # ys)"
    using ok g prev unfolding arena_ok_def by (simp add: s')
  have away: "\<forall>a\<in>set (xs @ p # ys). a + siz s' a \<le> q \<or> q + nblocks \<le> a"
    using low other sp q by (auto simp: q_def less_imp_le)
  have "q + nblocks \<le> brkval s" using ok unfolding q(2) by (simp add: arena_ok_def)
  then show "used_block s' (xs @ p # ys) q"
    using away sq nb root q by (simp add: used_block_def s')
  have "units s (xs @ p # ys) = units s' (xs @ p # ys) \<union> {q..<q + nblocks}"
    using q sp units_cong[of xs s' s] units_cong[of ys s' s] other unfolding units_append by auto
  moreover have "units s' (xs @ p # ys) \<inter> {q..<q + nblocks} = {}"
    using away by (rule units_away)
  ultimately show "units s' (xs @ p # ys) = units s (xs @ p # ys) - {q..<q + nblocks}"
    by auto
  show "\<And>a. a \<noteq> p \<Longrightarrow> a \<noteq> q \<Longrightarrow> hdr s' a = hdr s a"
    by (simp add: s' set_siz_def)
qed

lemma chain_succ:
  assumes "chain f fs s t" "prev \<in> set fs" "distinct fs" "f prev \<noteq> t"
  obtains xs ys where "fs = xs @ prev # f prev # ys"
proof -
  from assms(2) obtain xs zs where "fs = xs @ prev # zs" by (metis split_list)
  moreover with assms obtain ys where "zs = f prev # ys" by (cases zs) auto
  ultimately show thesis using that by blast
qed

definition grants :: "nat \<Rightarrow> arena \<Rightarrow> nat list \<Rightarrow> nat \<Rightarrow> arena \<Rightarrow> nat list \<Rightarrow> bool" where
  "grants n s fs r s' fs' \<longleftrightarrow>
     1 < r \<and> arena_ok s' fs' \<and> used_block s' fs' (r - 1) \<and> siz s' (r - 1) = n \<and>
     {r - 1..<r - 1 + n} \<subseteq> units s fs \<and>
     units s' fs' = units s fs - {r - 1..<r - 1 + n} \<and>
     brkval s' = brkval s \<and> mroot s' = mroot s \<and>
     (\<forall>a. a \<notin> set fs \<and> a \<noteq> r - 1 \<longrightarrow> hdr s' a = hdr s a)"

lemma take_block_ok:
  assumes ok: "arena_ok s fs" and nb: "nblocks \<le> siz s p" "0 < nblocks"
    and prev: "prev \<in> set fs" "nxt s prev = p"
    and t: "take_block nblocks prev p s = (r, s')"
  shows "\<exists>fs'. grants nblocks s fs r s' fs'"
proof -
  have "p \<noteq> mroot s" using ok nb by (auto simp: arena_ok_def)
  moreover have "distinct fs" using arena_sorted[OF ok] by (simp add: strict_sorted_iff)
  ultimately obtain xs ys where fs: "fs = xs @ prev # p # ys"
    using chain_succ[of "nxt s" fs "mroot s" "mroot s" prev] ok prev by (auto simp: arena_ok_def)
  have p0: "0 < p" using ok fs arena_root_le[OF ok] by (fastforce simp: arena_ok_def)
  show ?thesis
  proof (cases "siz s p = nblocks")
    case True
    note ex = take_block_exact[OF ok[unfolded fs] True nb(2) t]
    have "{p..<p + nblocks} \<subseteq> units s fs" using True by (auto simp: fs units_def)
    then show ?thesis
      using ex p0 True fs by (intro exI[of _ "xs @ prev # ys"]) (auto simp: grants_def)
  next
    case False
    with nb have lt: "nblocks < siz s p" by simp
    have ok': "arena_ok s ((xs @ [prev]) @ p # ys)" using ok fs by simp
    have pv: "prev \<in> set ((xs @ [prev]) @ p # ys)" by simp
    note sp = take_block_split[OF ok' lt nb(2) pv t]
    have "{p + (siz s p - nblocks)..<p + (siz s p - nblocks) + nblocks} \<subseteq> units s fs"
      using sp(9,10) by (auto simp: fs units_def)
    then show ?thesis
      using sp p0 fs by (intro exI[of _ fs]) (auto simp: grants_def)
  qed
qed

lemma walk_scan:
  assumes "chain (nxt s) rs p t" "mfreeptr s \<notin> set rs" "nxt s prev = p"
  shows "(\<exists>a\<in>insert prev (set rs). nxt s a \<in> set rs \<and> nb \<le> siz s (nxt s a) \<and>
            malloc_walk k nb prev p s = Some (take_block nb a (nxt s a) s)) \<or>
         ((\<forall>b\<in>set rs. siz s b < nb) \<and>
          (\<exists>a\<in>insert prev (set rs). nxt s a = t \<and> malloc_walk k nb prev p s = malloc_walk k nb a t s))"
  using assms
proof (induction rs arbitrary: prev p)
  case Nil
  then show ?case by auto
next
  case (Cons b bs)
  then have pb: "p = b" by simp
  show ?case
  proof (cases "nb \<le> siz s b")
    case True
    then have "malloc_walk k nb prev p s = Some (take_block nb prev p s)"
      using pb by (subst malloc_walk.simps) simp
    then show ?thesis using True pb Cons.prems by auto
  next
    case False
    then have "malloc_walk k nb prev p s = malloc_walk k nb b (nxt s b) s"
      using pb Cons.prems by (subst malloc_walk.simps) auto
    with Cons.IH[of "nxt s b" b] Cons.prems pb False show ?thesis by auto
  qed
qed

lemma walk_round:
  assumes ok: "arena_ok s fs"
  shows "(\<exists>a\<in>set fs. nb \<le> siz s (nxt s a) \<and>
            malloc_walk k nb (mfreeptr s) (nxt s (mfreeptr s)) s = Some (take_block nb a (nxt s a) s)) \<or>
         ((\<forall>b\<in>set fs. siz s b < nb) \<and>
          malloc_walk k nb (mfreeptr s) (nxt s (mfreeptr s)) s =
          Option.bind (brkmore k nb s)
            (\<lambda>(q, s'). if q = 0 then Some (0, s') else malloc_walk k nb q (nxt s' q) s'))"
proof -
  let ?f = "mfreeptr s"
  obtain us vs where fs: "fs = us @ ?f # vs"
    using ok unfolding arena_ok_def by (metis split_list)
  have "distinct fs" using arena_sorted[OF ok] by (simp add: strict_sorted_iff)
  then have nf: "?f \<notin> set (vs @ us)" using fs by (metis distinct_append distinct.simps(2) not_distinct_conv_prefix
        Un_iff disjoint_iff list.set_intros(1) set_append)
  have "chain (nxt s) (vs @ us) (nxt s ?f) ?f"
    using ok fs by (auto simp: arena_ok_def)
  from walk_scan[OF this nf refl, of nb k]
  consider (fit) a where "a \<in> set fs" "nb \<le> siz s (nxt s a)"
      "malloc_walk k nb ?f (nxt s ?f) s = Some (take_block nb a (nxt s a) s)"
    | (none) a where "\<forall>b\<in>set (vs @ us). siz s b < nb" "a \<in> set fs" "nxt s a = ?f"
      "malloc_walk k nb ?f (nxt s ?f) s = malloc_walk k nb a ?f s"
    using fs by auto
  then show ?thesis
  proof cases
    case fit
    then show ?thesis by blast
  next
    case none
    show ?thesis
    proof (cases "nb \<le> siz s ?f")
      case True
      then have "malloc_walk k nb a ?f s = Some (take_block nb a ?f s)"
        by (subst malloc_walk.simps) simp
      then show ?thesis using none True by (intro disjI1 bexI[of _ a]) simp_all
    next
      case False
      then have "malloc_walk k nb a ?f s = Option.bind (brkmore k nb s)
            (\<lambda>(q, s'). if q = 0 then Some (0, s') else malloc_walk k nb q (nxt s' q) s')"
        by (subst malloc_walk.simps) simp
      then show ?thesis using none False fs by auto
    qed
  qed
qed

definition honest :: "kernel \<Rightarrow> bool" where
  "honest k \<longleftrightarrow> (\<forall>b. sbrk0 k b = None \<or> sbrk0 k b = Some b)"

definition grow_units :: "nat \<Rightarrow> nat" where
  "grow_units n = (if n < BRKSIZE then BRKSIZE else n)"

definition refuses :: "kernel \<Rightarrow> nat \<Rightarrow> arena \<Rightarrow> bool" where
  "refuses k n s \<longleftrightarrow>
     sbrk0 k (brkval s) = None \<or>
     size_t_mod \<le> sizeof_memh * (brkval s + grow_units n) \<or>
     \<not> brk_ok k (brkval s + grow_units n)"

lemma brk_overflow_check:
  assumes "sizeof_memh * b < size_t_mod" "sizeof_memh * n < size_t_mod"
  shows "(sizeof_memh * b + sizeof_memh * n mod size_t_mod) mod size_t_mod < sizeof_memh * b \<longleftrightarrow>
         size_t_mod \<le> sizeof_memh * (b + n)"
proof (cases "size_t_mod \<le> sizeof_memh * (b + n)")
  case True
  then have "(sizeof_memh * b + sizeof_memh * n) mod size_t_mod = sizeof_memh * b + sizeof_memh * n - size_t_mod"
    using assms by (simp add: mod_if algebra_simps)
  then show ?thesis using assms True by (simp add: algebra_simps)
next
  case False
  then show ?thesis using assms by (simp add: algebra_simps)
qed

lemma siz_pos_in_units: "arena_ok s fs \<Longrightarrow> a \<in> set fs \<Longrightarrow> a = mroot s \<or> a \<in> units s fs"
  unfolding arena_ok_def units_def by fastforce

lemma arena_below_brk:
  assumes ok: "arena_ok s fs" and a: "a \<in> set fs"
  shows "a < brkval s"
proof -
  have "a + siz s a \<le> brkval s" "a = mroot s \<or> 0 < siz s a" "mroot s < brkval s"
    using ok a by (auto simp: arena_ok_def)
  then show ?thesis by auto
qed

lemma hdr_set_siz: "a \<noteq> b \<Longrightarrow> hdr (set_siz b v s) a = hdr s a"
  by (simp add: set_siz_def)

lemma brkmore_ok:
  assumes ok: "arena_ok s fs" and k: "honest k" and n: "sizeof_memh * n < size_t_mod"
  shows "refuses k n s \<Longrightarrow> brkmore k n s = Some (0, s)"
    and "\<not> refuses k n s \<Longrightarrow> \<exists>s' fs'. brkmore k n s = Some (mfreeptr s', s') \<and> arena_ok s' fs' \<and>
      brkval s' = brkval s + grow_units n \<and> mroot s' = mroot s \<and>
      units s' fs' = units s fs \<union> {brkval s..<brkval s'} \<and>
      (\<forall>a. a \<notin> set fs \<and> a \<noteq> brkval s \<longrightarrow> hdr s' a = hdr s a)"
proof -
  let ?n = "grow_units n"
  have lim: "sizeof_memh * brkval s < size_t_mod" using ok by (simp add: arena_ok_def)
  have gn: "sizeof_memh * ?n < size_t_mod" "0 < ?n"
    using n by (auto simp: grow_units_def BRKSIZE_def sizeof_memh_def size_t_mod_def)
  note chk = brk_overflow_check[OF lim gn(1)]
  have k': "sbrk0 k (brkval s) = None \<or> sbrk0 k (brkval s) = Some (brkval s)"
    using k by (simp add: honest_def)
  show "refuses k n s \<Longrightarrow> brkmore k n s = Some (0, s)"
    using k' chk unfolding brkmore_def[folded grow_units_def] refuses_def Let_def by (auto split: option.splits)
  assume go: "\<not> refuses k n s"
  let ?s = "set_siz (brkval s) ?n (s\<lparr>brkval := brkval s + ?n\<rparr>)"
  have new: "brkval s \<notin> set fs" using arena_below_brk[OF ok] by blast
  have sz: "siz ?s = (siz s)(brkval s := ?n)" and nx: "nxt ?s = nxt s" by simp_all
  have root: "mroot s \<noteq> brkval s" "mroot s < brkval s" using ok by (auto simp: arena_ok_def)
  have ends: "\<forall>a\<in>set fs. a + siz s a \<le> brkval s" using ok by (auto simp: arena_ok_def)
  have same: "\<forall>a\<in>set fs. siz ?s a = siz s a" using new by (auto simp: sz)
  have ok': "arena_ok ?s fs"
    using ok new root go same unfolding arena_ok_def nx
    by (auto simp: refuses_def trans_le_add1 simp del: fun_upd_apply simp add: sz) (simp add: root)
  have "used_block ?s fs (brkval s)"
    using ends same root gn unfolding used_block_def by (simp add: sz)
  from free_block_ok[OF ok' this] obtain s' fs' where s':
    "free_block (brkval s + 1) ?s = Some s'" "arena_ok s' fs'"
    "units s' fs' = units ?s fs \<union> {brkval s..<brkval s + siz ?s (brkval s)}"
    "brkval s' = brkval ?s" "mroot s' = mroot ?s"
    "\<And>a. a \<notin> set fs \<Longrightarrow> a \<noteq> brkval s \<Longrightarrow> hdr s' a = hdr ?s a" by blast
  have "brkmore k n s = Some (mfreeptr s', s')"
    using go k' chk s'(1) unfolding brkmore_def[folded grow_units_def] refuses_def Let_def
    by (auto split: option.splits)
  moreover have "units ?s fs = units s fs" using same by (intro units_cong) auto
  ultimately show "\<exists>s' fs'. brkmore k n s = Some (mfreeptr s', s') \<and> arena_ok s' fs' \<and>
      brkval s' = brkval s + grow_units n \<and> mroot s' = mroot s \<and>
      units s' fs' = units s fs \<union> {brkval s..<brkval s'} \<and>
      (\<forall>a. a \<notin> set fs \<and> a \<noteq> brkval s \<longrightarrow> hdr s' a = hdr s a)"
    using s' by (intro exI[of _ s'] exI[of _ fs']) (simp add: hdr_set_siz)
qed

definition units_for :: "nat \<Rightarrow> nat" where
  "units_for sz = (sz + sizeof_memh + sizeof_memh - 1) div sizeof_memh"

definition pool :: "arena \<Rightarrow> nat list \<Rightarrow> arena \<Rightarrow> nat set" where
  "pool s fs s' = units s fs \<union> {brkval s..<brkval s'}"

definition allocated :: "nat \<Rightarrow> arena \<Rightarrow> nat list \<Rightarrow> nat \<Rightarrow> arena \<Rightarrow> nat list \<Rightarrow> bool" where
  "allocated n s fs r s' fs' \<longleftrightarrow>
     1 < r \<and> arena_ok s' fs' \<and> used_block s' fs' (r - 1) \<and> siz s' (r - 1) = n \<and>
     {r - 1..<r - 1 + n} \<subseteq> pool s fs s' \<and>
     units s' fs' = pool s fs s' - {r - 1..<r - 1 + n} \<and>
     brkval s \<le> brkval s' \<and> mroot s' = mroot s \<and>
     (\<forall>a. a \<notin> pool s fs s' \<and> a \<noteq> mroot s \<longrightarrow> hdr s' a = hdr s a)"

lemma grants_allocated:
  assumes g: "grants n s1 fs1 r s' fs'" and ok: "arena_ok s fs" "arena_ok s1 fs1" and n: "0 < n"
    and grown: "units s1 fs1 = units s fs \<union> {brkval s..<brkval s1}" "brkval s \<le> brkval s1" "mroot s1 = mroot s"
    and same: "\<And>a. a \<notin> pool s fs s1 \<Longrightarrow> a \<noteq> mroot s \<Longrightarrow> hdr s1 a = hdr s a"
  shows "allocated n s fs r s' fs'"
proof -
  have b: "brkval s' = brkval s1" using g by (simp add: grants_def)
  have p: "pool s fs s' = units s1 fs1" "pool s fs s1 = units s1 fs1"
    using b grown by (simp_all add: pool_def)
  have "hdr s' a = hdr s a" if "a \<notin> units s1 fs1" "a \<noteq> mroot s" for a
  proof -
    have "a \<notin> set fs1" using siz_pos_in_units[OF ok(2), of a] that grown by auto
    moreover have "a \<noteq> r - 1"
    proof -
      have "r - 1 \<in> {r - 1..<r - 1 + n}" using n by simp
      then have "r - 1 \<in> units s1 fs1" using g unfolding grants_def by blast
      then show ?thesis using that by blast
    qed
    ultimately have "hdr s' a = hdr s1 a" using g by (simp add: grants_def)
    then show ?thesis using same[of a] that p by simp
  qed
  then show ?thesis using g b p grown unfolding allocated_def grants_def by (simp del: add_diff_assoc2 add_diff_assoc)
qed

lemma walk_ok:
  assumes ok: "arena_ok s fs" and fit: "b \<in> set fs" "nb \<le> siz s b" and nb: "0 < nb"
  obtains r s' fs' where "malloc_walk k nb (mfreeptr s) (nxt s (mfreeptr s)) s = Some (r, s')"
    "grants nb s fs r s' fs'"
proof -
  from walk_round[OF ok, of nb k] fit obtain a where
    a: "a \<in> set fs" "nb \<le> siz s (nxt s a)"
      "malloc_walk k nb (mfreeptr s) (nxt s (mfreeptr s)) s = Some (take_block nb a (nxt s a) s)"
    by (metis not_le)
  obtain r s' where t: "take_block nb a (nxt s a) s = (r, s')" by fastforce
  from take_block_ok[OF ok a(2) nb a(1) refl t] show thesis using that a(3) t by auto
qed

lemma nxt_in:
  assumes ok: "arena_ok s fs" and a: "a \<in> set fs"
  shows "nxt s a \<in> set fs"
proof -
  obtain xs ys where fs: "fs = xs @ a # ys" using a by (metis split_list)
  have "nxt s a = (case ys of [] \<Rightarrow> mroot s | b # _ \<Rightarrow> b)" using arena_split ok fs by blast
  moreover have "mroot s \<in> set fs" using arena_hd[OF ok] by auto
  ultimately show ?thesis using fs by (auto split: list.splits)
qed

lemma walk_grow:
  assumes ok: "arena_ok s fs" and none: "\<forall>b\<in>set fs. siz s b < nb"
  shows "malloc_walk k nb (mfreeptr s) (nxt s (mfreeptr s)) s =
    Option.bind (brkmore k nb s) (\<lambda>(q, s'). if q = 0 then Some (0, s') else malloc_walk k nb q (nxt s' q) s')"
  using walk_round[OF ok, of nb k] none nxt_in[OF ok] by (meson not_le)

lemma units_for_bounds:
  "sz + sizeof_memh \<le> sizeof_memh * units_for sz" "sizeof_memh * units_for sz < sz + 2 * sizeof_memh"
  "0 < units_for sz"
  by (simp_all add: units_for_def sizeof_memh_def)

lemma malloc_unfold:
  assumes "sz + 2 * sizeof_memh \<le> size_t_mod"
  shows "malloc k sz s = malloc_walk k (units_for sz) (mfreeptr s) (nxt s (mfreeptr s)) s"
  using assms by (simp add: malloc_def units_for_def sizeof_memh_def size_t_mod_def)

lemma malloc_too_big:
  assumes "sz < size_t_mod" "size_t_mod < sz + 2 * sizeof_memh"
  shows "malloc k sz s = Some (0, s)"
  using assms by (simp add: malloc_def sizeof_memh_def size_t_mod_def mod_if)

definition out_of_memory :: "kernel \<Rightarrow> nat \<Rightarrow> arena \<Rightarrow> nat list \<Rightarrow> bool" where
  "out_of_memory k sz s fs \<longleftrightarrow>
     size_t_mod < sz + 2 * sizeof_memh \<or>
     (\<forall>b\<in>set fs. siz s b < units_for sz) \<and> refuses k (units_for sz) s"

lemma units_limit: "sz + 2 * sizeof_memh \<le> size_t_mod \<Longrightarrow> sizeof_memh * units_for sz < size_t_mod"
  using units_for_bounds(2)[of sz] by linarith

lemma malloc_refused:
  assumes ok: "arena_ok s fs" and k: "honest k" and sz: "sz < size_t_mod" and out: "out_of_memory k sz s fs"
  shows "malloc k sz s = Some (0, s)"
proof (cases "size_t_mod < sz + 2 * sizeof_memh")
  case True
  then show ?thesis using malloc_too_big sz by blast
next
  case False
  then have small: "sz + 2 * sizeof_memh \<le> size_t_mod" by simp
  have none: "\<forall>b\<in>set fs. siz s b < units_for sz" and ref: "refuses k (units_for sz) s"
    using out False by (auto simp: out_of_memory_def)
  show ?thesis
    using brkmore_ok(1)[OF ok k units_limit[OF small] ref] by (simp add: malloc_unfold[OF small] walk_grow[OF ok none])
qed

text \<open>A hole is large enough: the first one behind \<open>__mfreeptr\<close> is taken.\<close>

lemma walk_fits:
  assumes ok: "arena_ok s fs" and n: "0 < n" and fit: "\<not> (\<forall>b\<in>set fs. siz s b < n)"
  shows "\<exists>r s' fs'. malloc_walk k n (mfreeptr s) (nxt s (mfreeptr s)) s = Some (r, s') \<and> allocated n s fs r s' fs'"
proof -
  from fit obtain b where "b \<in> set fs" "n \<le> siz s b" by (auto simp: not_less)
  from walk_ok[OF ok this n, of k] obtain r s' fs' where
    w: "malloc_walk k n (mfreeptr s) (nxt s (mfreeptr s)) s = Some (r, s')" "grants n s fs r s' fs'" by blast
  from w(2) have "allocated n s fs r s' fs'" by (rule grants_allocated) (use ok n in auto)
  then show ?thesis using w(1) by blast
qed

text \<open>No hole is large enough, but the kernel gives memory.\<close>

lemma walk_grows:
  assumes ok: "arena_ok s fs" and k: "honest k" and n: "0 < n" "sizeof_memh * n < size_t_mod"
    and none: "\<forall>b\<in>set fs. siz s b < n" and go: "\<not> refuses k n s"
  shows "\<exists>r s' fs'. malloc_walk k n (mfreeptr s) (nxt s (mfreeptr s)) s = Some (r, s') \<and> allocated n s fs r s' fs'"
proof -
  from brkmore_ok(2)[OF ok k n(2) go] obtain s1 fs1 where
    b: "brkmore k n s = Some (mfreeptr s1, s1)" "arena_ok s1 fs1"
      "brkval s1 = brkval s + grow_units n" "mroot s1 = mroot s"
      "units s1 fs1 = units s fs \<union> {brkval s..<brkval s1}"
      "\<forall>a. a \<notin> set fs \<and> a \<noteq> brkval s \<longrightarrow> hdr s1 a = hdr s a" by blast
  have big: "n \<le> grow_units n" "0 < grow_units n"
    using n by (auto simp: grow_units_def)
  have "{brkval s..<brkval s1} \<subseteq> units s1 fs1" "brkval s < brkval s1" using b big by auto
  from run_in_one_block[OF b(2) this] obtain a where "a \<in> set fs1" "a \<le> brkval s" "brkval s1 \<le> a + siz s1 a"
    by blast
  then have "a \<in> set fs1" "n \<le> siz s1 a" using b(3) big by auto
  from walk_ok[OF b(2) this n(1), of k] obtain r s' fs' where
    w: "malloc_walk k n (mfreeptr s1) (nxt s1 (mfreeptr s1)) s1 = Some (r, s')" "grants n s1 fs1 r s' fs'" by blast
  have "mfreeptr s1 \<noteq> 0" using arena_root_le[OF b(2), of "mfreeptr s1"] b(2) by (auto simp: arena_ok_def)
  then have "malloc_walk k n (mfreeptr s) (nxt s (mfreeptr s)) s = Some (r, s')"
    using b(1) w(1) by (simp add: walk_grow[OF ok none])
  moreover have "allocated n s fs r s' fs'"
    using w(2) ok b(2) n(1) b(5) _ b(4)
  proof (rule grants_allocated)
    show "brkval s \<le> brkval s1" using b(3) by simp
    fix a assume a: "a \<notin> pool s fs s1" "a \<noteq> mroot s"
    then have "a \<notin> set fs" "a \<noteq> brkval s"
      using siz_pos_in_units[OF ok, of a] b(3) big by (auto simp: pool_def)
    then show "hdr s1 a = hdr s a" using b(6) by blast
  qed
  ultimately show ?thesis by blast
qed

lemma malloc_ok:
  assumes ok: "arena_ok s fs" and k: "honest k" and sz: "sz < size_t_mod"
  shows "out_of_memory k sz s fs \<Longrightarrow> malloc k sz s = Some (0, s)"
    and "\<not> out_of_memory k sz s fs \<Longrightarrow>
      \<exists>r s' fs'. malloc k sz s = Some (r, s') \<and> allocated (units_for sz) s fs r s' fs'"
proof -
  show "out_of_memory k sz s fs \<Longrightarrow> malloc k sz s = Some (0, s)" by (rule malloc_refused[OF assms])
  assume mem: "\<not> out_of_memory k sz s fs"
  then have small: "sz + 2 * sizeof_memh \<le> size_t_mod" by (simp add: out_of_memory_def)
  show "\<exists>r s' fs'. malloc k sz s = Some (r, s') \<and> allocated (units_for sz) s fs r s' fs'"
    unfolding malloc_unfold[OF small]
    using walk_fits[OF ok units_for_bounds(3)] walk_grows[OF ok k units_for_bounds(3) units_limit[OF small]] mem
    unfolding out_of_memory_def by blast
qed

lemma used_disjoint: "used_block s fs mh \<Longrightarrow> units s fs \<inter> {mh..<mh + siz s mh} = {}"
  by (rule units_away) (simp add: used_block_def)

lemma used_hdr_kept:
  assumes used: "used_block s fs mh" and al: "allocated n s fs r s' fs'" and u: "u \<in> {mh..<mh + siz s mh}"
  shows "hdr s' u = hdr s u"
proof -
  have "u \<notin> units s fs" using used_disjoint[OF used] u by blast
  moreover have "u < brkval s" "mroot s < u" using used u by (auto simp: used_block_def)
  ultimately show ?thesis using al by (auto simp: allocated_def pool_def)
qed

text \<open>A block outlives an operation that neither frees it nor hands it out again.\<close>

lemma used_kept:
  assumes ok: "arena_ok s' fs'" and used: "used_block s fs mh" and brk: "brkval s \<le> brkval s'"
    and root: "mroot s' = mroot s" and same: "siz s' mh = siz s mh"
    and dis: "units s' fs' \<inter> {mh..<mh + siz s mh} = {}"
  shows "used_block s' fs' mh"
proof -
  have pos: "0 < siz s mh" "mroot s < mh" "mh + siz s mh \<le> brkval s"
    using used by (auto simp: used_block_def)
  have "a + siz s' a \<le> mh \<or> mh + siz s mh \<le> a" if a: "a \<in> set fs'" for a
  proof (rule ccontr)
    assume no: "\<not> (a + siz s' a \<le> mh \<or> mh + siz s mh \<le> a)"
    show False
    proof (cases "a = mroot s'")
      case True
      then show ?thesis using no pos root ok by (simp add: arena_ok_def)
    next
      case False
      have "{a..<a + siz s' a} \<subseteq> units s' fs'" using a by (auto simp: units_def)
      moreover have "max a mh \<in> {a..<a + siz s' a}" "max a mh \<in> {mh..<mh + siz s mh}"
        using no pos ok a False by (auto simp: arena_ok_def max_def)
      ultimately show False using dis by blast
    qed
  qed
  then show ?thesis using pos brk root same by (simp add: used_block_def)
qed

definition block :: "arena \<Rightarrow> nat \<Rightarrow> nat set" where
  "block s r = {r - 1..<r - 1 + siz s (r - 1)}"

inductive client :: "kernel \<Rightarrow> arena \<times> nat set \<Rightarrow> arena \<times> nat set \<Rightarrow> bool" for k where
  allocate: "sz < size_t_mod \<Longrightarrow> malloc k sz s = Some (r, s') \<Longrightarrow> r \<noteq> 0 \<Longrightarrow> client k (s, L) (s', insert r L)"
| refused: "sz < size_t_mod \<Longrightarrow> malloc k sz s = Some (0, s') \<Longrightarrow> client k (s, L) (s', L)"
| release: "r \<in> L \<Longrightarrow> free_block r s = Some s' \<Longrightarrow> client k (s, L) (s', L - {r})"

inductive reachable :: "kernel \<Rightarrow> nat \<Rightarrow> nat \<Rightarrow> arena \<times> nat set \<Rightarrow> bool" for k root b where
  start: "reachable k root b (initial_arena root b, {})"
| step: "reachable k root b c \<Longrightarrow> client k c c' \<Longrightarrow> reachable k root b c'"

definition tiled :: "nat \<Rightarrow> arena \<Rightarrow> nat list \<Rightarrow> nat set \<Rightarrow> bool" where
  "tiled b s fs L \<longleftrightarrow>
     arena_ok s fs \<and> b \<le> brkval s \<and> mroot s < b \<and>
     (\<forall>r\<in>L. 1 < r \<and> used_block s fs (r - 1)) \<and>
     (\<forall>r\<in>L. \<forall>t\<in>L. r \<noteq> t \<longrightarrow> block s r \<inter> block s t = {}) \<and>
     units s fs \<union> (\<Union>r\<in>L. block s r) = {b..<brkval s}"

lemma tiled_initial:
  assumes "0 < root" "root < b" "sizeof_memh * b < size_t_mod"
  shows "tiled b (initial_arena root b) [root] {}"
  using assms by (simp add: tiled_def arena_ok_def initial_arena_def nxt_def siz_def units_def)

lemma tiled_malloc:
  assumes t: "tiled b s fs L" and al: "allocated n s fs r s' fs'" and n: "0 < n"
  shows "tiled b s' fs' (insert r L)"
proof -
  note t' = t[unfolded tiled_def]
  have ok': "arena_ok s' fs'" "mroot s' = mroot s" "brkval s \<le> brkval s'" "1 < r" "used_block s' fs' (r - 1)"
    using al by (simp_all add: allocated_def)
  have blk_r: "block s' r = {r - 1..<r - 1 + n}" using al by (simp add: allocated_def block_def)
  have sub: "block s' r \<subseteq> pool s fs s'" and un: "units s' fs' = pool s fs s' - block s' r"
    unfolding blk_r using al unfolding allocated_def by blast+
  have same: "block s' u = block s u" "siz s' (u - 1) = siz s (u - 1)" if "u \<in> L" for u
  proof -
    have used: "used_block s fs (u - 1)" using t' that by blast
    then have "u - 1 \<in> {u - 1..<u - 1 + siz s (u - 1)}" by (simp add: used_block_def)
    from used_hdr_kept[OF used al this] show "siz s' (u - 1) = siz s (u - 1)" by (simp add: siz_def)
    then show "block s' u = block s u" by (simp add: block_def)
  qed
  have out: "pool s fs s' \<inter> block s u = {}" if "u \<in> L" for u
  proof -
    have used: "used_block s fs (u - 1)" using t' that by blast
    then show ?thesis
      using used_disjoint[OF used] by (auto simp: pool_def block_def used_block_def)
  qed
  have keep: "used_block s' fs' (u - 1)" if "u \<in> L" for u
  proof (rule used_kept[OF ok'(1) _ ok'(3,2) same(2)[OF that]])
    show "used_block s fs (u - 1)" using t' that by blast
    show "units s' fs' \<inter> {u - 1..<u - 1 + siz s (u - 1)} = {}"
      using un out[OF that] by (auto simp: block_def)
  qed
  have dis: "block s' r \<inter> block s' u = {}" if "u \<in> L" for u
    using out[OF that] sub same(1)[OF that] by blast
  have "units s' fs' \<union> (\<Union>u\<in>insert r L. block s' u) = pool s fs s' \<union> (\<Union>u\<in>L. block s u)"
    using un sub same(1) by auto
  also have "\<dots> = {b..<brkval s} \<union> {brkval s..<brkval s'}"
    using t' unfolding pool_def by blast
  also have "\<dots> = {b..<brkval s'}" using t' ok'(3) by auto
  finally have tile: "units s' fs' \<union> (\<Union>u\<in>insert r L. block s' u) = {b..<brkval s'}" .
  have "\<forall>u\<in>insert r L. \<forall>v\<in>insert r L. u \<noteq> v \<longrightarrow> block s' u \<inter> block s' v = {}"
    using dis same(1) t' by (auto simp: Int_commute)
  then show ?thesis
    unfolding tiled_def using tile ok' keep t' by auto
qed

lemma tiled_free:
  assumes t: "tiled b s fs L" and r: "r \<in> L" and f: "free_block r s = Some s'"
  shows "\<exists>fs'. tiled b s' fs' (L - {r})"
proof -
  note t' = t[unfolded tiled_def]
  have ok: "arena_ok s fs" and used: "used_block s fs (r - 1)" "1 < r" using t' r by auto
  have r1: "r - 1 + 1 = r" using used(2) by simp
  from free_block_ok[OF ok used(1), unfolded r1] f obtain fs' where
    s': "arena_ok s' fs'" "units s' fs' = units s fs \<union> block s r" "brkval s' = brkval s" "mroot s' = mroot s"
      "\<And>a. a \<notin> set fs \<Longrightarrow> a \<noteq> r - 1 \<Longrightarrow> hdr s' a = hdr s a"
    unfolding block_def by (metis option.inject)
  have same: "siz s' (u - 1) = siz s (u - 1)" "block s' u = block s u" if u: "u \<in> L - {r}" for u
  proof -
    have uu: "used_block s fs (u - 1)" "1 < u" using t' u by auto
    then have "u - 1 \<notin> set fs" using used_not_free by blast
    moreover have "u - 1 \<noteq> r - 1" using u uu(2) used(2) by auto
    ultimately show "siz s' (u - 1) = siz s (u - 1)" using s'(5) by (simp add: siz_def)
    then show "block s' u = block s u" by (simp add: block_def)
  qed
  have keep: "used_block s' fs' (u - 1)" if u: "u \<in> L - {r}" for u
  proof (rule used_kept[OF s'(1) _ _ s'(4) same(1)[OF u]])
    show uu: "used_block s fs (u - 1)" using t' u by blast
    show "brkval s \<le> brkval s'" using s'(3) by simp
    have "block s u \<inter> block s r = {}" using t' u r by blast
    then show "units s' fs' \<inter> {u - 1..<u - 1 + siz s (u - 1)} = {}"
      using used_disjoint[OF uu] s'(2) by (auto simp: block_def)
  qed
  have "units s' fs' \<union> (\<Union>u\<in>L - {r}. block s' u) = units s fs \<union> (\<Union>u\<in>L. block s u)"
    using s'(2) same(2) r by auto
  then have "units s' fs' \<union> (\<Union>u\<in>L - {r}. block s' u) = {b..<brkval s'}" using t' s'(3) by simp
  moreover have "\<forall>u\<in>L - {r}. \<forall>v\<in>L - {r}. u \<noteq> v \<longrightarrow> block s' u \<inter> block s' v = {}"
    using same(2) t' by simp
  ultimately show ?thesis
    unfolding tiled_def using s' keep t' by (intro exI[of _ fs']) auto
qed

lemma reachable_tiled:
  assumes k: "honest k" and init: "0 < root" "root < b" "sizeof_memh * b < size_t_mod"
    and r: "reachable k root b c"
  shows "\<exists>fs. tiled b (fst c) fs (snd c)"
  using r
proof induction
  case start
  then show ?case using tiled_initial[OF init] by auto
next
  case (step c c')
  then obtain fs where t: "tiled b (fst c) fs (snd c)" by blast
  then have ok: "arena_ok (fst c) fs" by (simp add: tiled_def)
  from step.hyps(2) show ?case
  proof cases
    case (allocate sz s r s' L)
    with ok t have ok': "arena_ok s fs" and t': "tiled b s fs L" by simp_all
    from malloc_ok[OF ok' k allocate(3)] allocate(4,5) obtain fs' where "allocated (units_for sz) s fs r s' fs'"
      by fastforce
    from tiled_malloc[OF t' this units_for_bounds(3)] show ?thesis using allocate(2) by auto
  next
    case (refused sz s s' L)
    with ok have ok': "arena_ok s fs" by simp
    from malloc_ok[OF ok' k refused(3)] refused(4) have "s' = s" by (fastforce simp: allocated_def)
    then show ?thesis using t refused by auto
  next
    case (release r L s s')
    then show ?thesis using tiled_free[of b s fs L r s'] t by auto
  qed
qed

lemma chain_cong: "(\<And>a. a \<in> set fs \<Longrightarrow> f a = g a) \<Longrightarrow> chain f fs s t = chain g fs s t"
  by (induction fs arbitrary: s) auto

lemma gaps_cong: "(\<And>a. a \<in> set fs \<Longrightarrow> f a = g a) \<Longrightarrow> gaps f fs = gaps g fs"
  by (induction fs) auto

lemma arena_frame:
  assumes ok: "arena_ok s fs" and same: "\<And>a. a \<in> set fs \<Longrightarrow> hdr s' a = hdr s a"
    and rest: "mroot s' = mroot s" "brkval s' = brkval s" "mfreeptr s' = mfreeptr s"
  shows "arena_ok s' fs" "units s' fs = units s fs"
proof -
  have e: "nxt s' a = nxt s a" "siz s' a = siz s a" if "a \<in> set fs" for a
    using same[OF that] by (simp_all add: nxt_def siz_def)
  have "mroot s \<in> set fs" using arena_hd[OF ok] by auto
  then show "arena_ok s' fs"
    using ok e rest chain_cong[of fs "nxt s'" "nxt s"] gaps_cong[of fs "siz s'" "siz s"]
    by (simp add: arena_ok_def)
  show "units s' fs = units s fs" using e by (intro units_cong)
qed

lemma free_not_in_used:
  assumes "arena_ok s fs" "used_block s fs mh" "a \<in> set fs"
  shows "a \<notin> {mh..<mh + siz s mh}"
  using siz_pos_in_units[OF assms(1,3)] used_disjoint[OF assms(2)] assms(2)
  by (auto simp: used_block_def)

text \<open>The copy of a block into the interior of a larger one changes nothing else.\<close>

lemma copy_units_ok:
  assumes ok: "arena_ok s fs" and new: "used_block s fs rb" and old: "used_block s fs mh" and n: "siz s mh < siz s rb"
    and apart: "{rb..<rb + siz s rb} \<inter> {mh..<mh + siz s mh} = {}"
  defines "s' \<equiv> copy_units (rb + 1) (mh + 1) (siz s mh) s"
  shows "arena_ok s' fs" "units s' fs = units s fs" "used_block s' fs rb" "used_block s' fs mh"
    "siz s' rb = siz s rb" "siz s' mh = siz s mh" "mroot s' = mroot s" "brkval s' = brkval s"
    "\<And>i. i < siz s mh \<Longrightarrow> hdr s' (rb + 1 + i) = hdr s (mh + 1 + i)"
proof -
  show f: "mroot s' = mroot s" "brkval s' = brkval s" by (simp_all add: s'_def copy_units_def)
  have else: "hdr s' a = hdr s a" if "a \<notin> {rb..<rb + siz s rb} \<or> a = rb" for a
    using that n by (auto simp: s'_def copy_units_def)
  have same: "hdr s' a = hdr s a" if "a \<in> set fs" for a
    using else free_not_in_used[OF ok new that] by blast
  show "arena_ok s' fs" "units s' fs = units s fs"
    using arena_frame[OF ok same f] by (simp_all add: s'_def copy_units_def)
  have "0 < siz s mh" using old by (simp add: used_block_def)
  then have "mh \<notin> {rb..<rb + siz s rb}" using apart by force
  then show s: "siz s' rb = siz s rb" "siz s' mh = siz s mh" using else by (simp_all add: siz_def)
  have keep: "siz s' a = siz s a" if "a \<in> set fs" for a using same[OF that] by (simp add: siz_def)
  show "used_block s' fs rb" "used_block s' fs mh"
    using new old keep s f by (simp_all add: used_block_def)
  show "hdr s' (rb + 1 + i) = hdr s (mh + 1 + i)" if "i < siz s mh" for i
    using that by (simp add: s'_def copy_units_def)
qed

text \<open>Freeing one block leaves another one and its contents alone.\<close>

lemma free_beside:
  assumes ok: "arena_ok s fs" and new: "used_block s fs rb" and old: "used_block s fs mh"
    and apart: "{rb..<rb + siz s rb} \<inter> {mh..<mh + siz s mh} = {}"
  obtains s' fs' where "free_block (mh + 1) s = Some s'" "arena_ok s' fs'" "used_block s' fs' rb"
    "units s' fs' = units s fs \<union> {mh..<mh + siz s mh}" "brkval s' = brkval s" "mroot s' = mroot s"
    "\<And>a. a \<in> {rb..<rb + siz s rb} \<Longrightarrow> hdr s' a = hdr s a"
proof -
  from free_block_ok[OF ok old] obtain s' fs' where
    f: "free_block (mh + 1) s = Some s'" "arena_ok s' fs'" "units s' fs' = units s fs \<union> {mh..<mh + siz s mh}"
      "brkval s' = brkval s" "mroot s' = mroot s" "\<And>a. a \<notin> set fs \<Longrightarrow> a \<noteq> mh \<Longrightarrow> hdr s' a = hdr s a" by blast
  have pos: "0 < siz s mh" "0 < siz s rb" using new old by (auto simp: used_block_def)
  have kept: "hdr s' a = hdr s a" if "a \<in> {rb..<rb + siz s rb}" for a
  proof (rule f(6))
    show "a \<notin> set fs" using free_not_in_used[OF ok new] that by blast
    show "a \<noteq> mh" using apart that pos by force
  qed
  have sz: "siz s' rb = siz s rb" using kept[of rb] pos by (simp add: siz_def)
  have "units s' fs' \<inter> {rb..<rb + siz s rb} = {}"
    unfolding f(3) using used_disjoint[OF new] apart by blast
  then have "used_block s' fs' rb" using used_kept[OF f(2) new _ f(5) sz] f(4) by simp
  then show thesis using that f kept by blast
qed

lemma realloc_ok:
  assumes ok: "arena_ok s fs" and k: "honest k" and sz: "0 < sz" "sz + 2 * sizeof_memh \<le> size_t_mod"
    and used: "used_block s fs mh" and grow: "siz s mh < units_for sz"
    and mem: "\<not> out_of_memory k sz s fs"
  obtains r s' fs' where "realloc k (mh + 1) sz s = Some (r, s')" "arena_ok s' fs'"
    "used_block s' fs' (r - 1)" "siz s' (r - 1) = units_for sz" "1 < r"
    "units s' fs' = (pool s fs s' \<union> {mh..<mh + siz s mh}) - block s' r"
    "\<And>i. i < siz s mh - 1 \<Longrightarrow> hdr s' (r + i) = hdr s (mh + 1 + i)"
proof -
  let ?n = "siz s mh" and ?m = "units_for sz"
  from sz have "sz < size_t_mod" by (simp add: sizeof_memh_def)
  from malloc_ok(2)[OF ok k this mem] obtain r s1 fs1 where
    m: "malloc k sz s = Some (r, s1)" and al: "allocated ?m s fs r s1 fs1" by blast
  define rb where "rb = r - 1"
  note al' = al[unfolded allocated_def, folded rb_def]
  have ok1: "arena_ok s1 fs1" and new1: "used_block s1 fs1 rb" and szr: "siz s1 rb = ?m"
    and un1: "units s1 fs1 = pool s fs s1 - {rb..<rb + ?m}" and sub: "{rb..<rb + ?m} \<subseteq> pool s fs s1"
    using al' by blast+
  have r: "1 < r" "r = rb + 1" using al unfolding rb_def allocated_def by linarith+
  have old: "hdr s1 u = hdr s u" if "u \<in> {mh..<mh + ?n}" for u
    using used_hdr_kept[OF used al that] .
  have pos: "0 < ?n" "mh + ?n \<le> brkval s" using used by (auto simp: used_block_def)
  then have n1: "siz s1 mh = ?n" using old[of mh] by (simp add: siz_def)
  have apart: "pool s fs s1 \<inter> {mh..<mh + ?n} = {}"
    using used_disjoint[OF used] pos by (auto simp: pool_def)
  then have apart1: "{rb..<rb + siz s1 rb} \<inter> {mh..<mh + siz s1 mh} = {}" unfolding n1 szr using sub by blast
  have used1: "used_block s1 fs1 mh"
    by (rule used_kept[OF ok1 used]) (use al' n1 un1 apart in auto)
  have less: "siz s1 mh < siz s1 rb" using grow n1 szr by simp
  note cp = copy_units_ok[OF ok1 new1 used1 less apart1, folded r(2), unfolded n1 szr]
  define s2 where "s2 = copy_units r (mh + 1) ?n s1"
  note c = cp[folded s2_def]
  have apart2: "{rb..<rb + siz s2 rb} \<inter> {mh..<mh + siz s2 mh} = {}" unfolding c(5,6) using apart1 n1 szr by simp
  from free_beside[OF c(1,3,4) apart2] obtain s' fs' where
    f: "free_block (mh + 1) s2 = Some s'" "arena_ok s' fs'" "used_block s' fs' rb"
      "units s' fs' = units s2 fs1 \<union> {mh..<mh + ?n}" "brkval s' = brkval s2" "mroot s' = mroot s2"
      "\<And>a. a \<in> {rb..<rb + ?m} \<Longrightarrow> hdr s' a = hdr s2 a" unfolding c(5,6) by blast
  have res: "realloc k (mh + 1) sz s = Some (r, s')"
    using m f(1)[unfolded s2_def] sz grow r n1 by (simp add: realloc_def units_for_def Let_def size_t_mod_def sizeof_memh_def)
  have sr: "siz s' rb = ?m" using f(7)[of rb] c(5) units_for_bounds(3)[of sz] by (simp add: siz_def)
  have blk: "block s' r = {rb..<rb + ?m}" by (simp only: block_def rb_def[symmetric] sr)
  have p: "pool s fs s' = pool s fs s1" by (simp only: pool_def f(5) c(8))
  have un: "units s' fs' = (pool s fs s' \<union> {mh..<mh + ?n}) - block s' r"
    unfolding f(4) c(2) un1 p blk using apart sub by blast
  have "hdr s' (r + i) = hdr s (mh + 1 + i)" if i: "i < ?n - 1" for i
  proof -
    have "hdr s' (r + i) = hdr s2 (r + i)" using i grow r(2) by (intro f(7)) auto
    also have "\<dots> = hdr s1 (mh + 1 + i)" using i by (intro c(9)) auto
    also have "\<dots> = hdr s (mh + 1 + i)" using i by (intro old) auto
    finally show ?thesis .
  qed
  then show thesis using that[OF res f(2) _ _ r(1) un] f(3) sr unfolding rb_def by blast
qed

subsection \<open>Properties\<close>

definition demo_kernel :: kernel where
  "demo_kernel = \<lparr>sbrk0 = Some, brk_ok = (\<lambda>b. b < 1000)\<rparr>"

definition demo_arena :: arena where
  "demo_arena = set_siz 6 2 (initial_arena 5 8)"

lemma demo_ok: "honest demo_kernel" "arena_ok demo_arena [5]" "used_block demo_arena [5] 6"
  "arena_ok (initial_arena 5 100) [5]"
  by (simp_all add: honest_def demo_kernel_def demo_arena_def arena_ok_def used_block_def initial_arena_def
      nxt_def siz_def set_siz_def sizeof_memh_def size_t_mod_def)

lemma demo_memory: "\<not> out_of_memory demo_kernel 10 (initial_arena 5 100) [5]"
  "\<not> out_of_memory demo_kernel 20 demo_arena [5]" "siz demo_arena 6 < units_for 20"
  "out_of_memory demo_kernel 65530 demo_arena [5]" "siz demo_arena 6 < units_for 65530"
  by (simp_all add: out_of_memory_def refuses_def demo_kernel_def demo_arena_def initial_arena_def grow_units_def
      BRKSIZE_def units_for_def siz_def set_siz_def sizeof_memh_def size_t_mod_def)

text \<open>
  C5. \<open>malloc\<close> always returns. It returns NULL and changes nothing exactly when
  the size does not fit a \<open>size_t\<close> computation, or no free block is large
  enough and the kernel or the address space refuses more memory. Otherwise it
  hands out a block with room for the header and the requested bytes, cut from
  the free blocks and the memory it got from the kernel; what stays free is
  again a sorted, coalesced circular list, and no byte outside the free blocks,
  the new memory and the root header is written.
\<close>

theorem malloc_correct:
  assumes "arena_ok s fs" "honest k" "sz < size_t_mod"
  shows "if out_of_memory k sz s fs then malloc k sz s = Some (0, s)
    else sz + sizeof_memh \<le> sizeof_memh * units_for sz \<and>
      (\<exists>r s' fs'. malloc k sz s = Some (r, s') \<and> allocated (units_for sz) s fs r s' fs')"
  using malloc_ok[OF assms] units_for_bounds(1)[of sz] by simp

lemma malloc_correct_witness:
  "\<exists>r s' fs'. malloc demo_kernel 10 (initial_arena 5 100) = Some (r, s') \<and>
    allocated (units_for 10) (initial_arena 5 100) [5] r s' fs'"
  using malloc_correct[OF demo_ok(4,1), of 10] demo_memory(1) by (simp add: size_t_mod_def)

text \<open>
  C9. A program that calls \<open>malloc\<close> and \<open>free\<close> in any order, and frees only
  what it was given and has not freed, keeps the heap tiled: at every moment
  the blocks it holds and the free blocks are disjoint and together are all
  the memory between the initial and the current break. Nothing is handed out
  twice and nothing is lost.
\<close>

theorem heap_stays_tiled:
  assumes "honest k" "0 < root" "root < b" "sizeof_memh * b < size_t_mod" "reachable k root b (s, L)"
  shows "\<exists>fs. tiled b s fs L"
  using reachable_tiled[OF assms] by simp

lemma heap_stays_tiled_witness:
  "\<exists>r s fs. reachable demo_kernel 5 100 (s, {r}) \<and> tiled 100 s fs {r}"
proof -
  have "(10 :: nat) < size_t_mod" by (simp add: size_t_mod_def)
  from malloc_ok(2)[OF demo_ok(4,1) this demo_memory(1)] obtain r s fs where
    m: "malloc demo_kernel 10 (initial_arena 5 100) = Some (r, s)" "allocated (units_for 10) (initial_arena 5 100) [5] r s fs"
    by blast
  then have "r \<noteq> 0" by (auto simp: allocated_def)
  then have "client demo_kernel (initial_arena 5 100, {}) (s, insert r {})"
    using m(1) \<open>10 < size_t_mod\<close> by (rule_tac client.allocate)
  then have c: "reachable demo_kernel 5 100 (s, {r})" using reachable.step[OF reachable.start] by blast
  moreover obtain fs where "tiled 100 s fs {r}"
    using heap_stays_tiled[OF demo_ok(1) _ _ _ c] by (auto simp: sizeof_memh_def size_t_mod_def)
  ultimately show ?thesis by blast
qed

text \<open>
  C24. \<open>realloc\<close> to a larger size moves the block: unless memory runs out it
  returns a block of the new size that holds the old contents, and the old
  block is free afterwards.
\<close>

theorem realloc_moves_contents:
  assumes "arena_ok s fs" "honest k" "0 < sz" "sz + 2 * sizeof_memh \<le> size_t_mod"
    and "used_block s fs mh" "siz s mh < units_for sz" "\<not> out_of_memory k sz s fs"
  shows "\<exists>r s' fs'. realloc k (mh + 1) sz s = Some (r, s') \<and> arena_ok s' fs' \<and>
    used_block s' fs' (r - 1) \<and> siz s' (r - 1) = units_for sz \<and>
    units s' fs' = (pool s fs s' \<union> {mh..<mh + siz s mh}) - block s' r \<and>
    (\<forall>i < siz s mh - 1. hdr s' (r + i) = hdr s (mh + 1 + i))"
  by (rule realloc_ok[OF assms]) blast

lemma realloc_moves_contents_witness:
  "\<exists>r s' fs'. realloc demo_kernel 7 20 demo_arena = Some (r, s') \<and> used_block s' fs' (r - 1) \<and>
    siz s' (r - 1) = units_for 20 \<and> hdr s' r = hdr demo_arena 7"
proof -
  have sz: "(0 :: nat) < 20" "20 + 2 * sizeof_memh \<le> size_t_mod" by (simp_all add: sizeof_memh_def size_t_mod_def)
  from realloc_moves_contents[OF demo_ok(2,1) sz demo_ok(3) demo_memory(3,2)] obtain r s' fs' where
    "realloc demo_kernel 7 20 demo_arena = Some (r, s')" "used_block s' fs' (r - 1)"
    "siz s' (r - 1) = units_for 20" "\<forall>i < siz demo_arena 6 - 1. hdr s' (r + i) = hdr demo_arena (7 + i)"
    by (auto simp: eval_nat_numeral)
  moreover have "0 < siz demo_arena 6 - 1" by (simp add: demo_arena_def siz_def set_siz_def)
  ultimately show ?thesis by fastforce
qed

text \<open>
  C28. When memory runs out, or the size is so large that the block count wraps,
  \<open>realloc\<close> returns the old pointer as if the block had been enlarged in place,
  with nothing changed: the caller cannot tell the failure from success.
\<close>

theorem realloc_hides_failure:
  assumes "arena_ok s fs" "honest k" "used_block s fs mh" "sz < size_t_mod" "siz s mh < units_for sz"
    and "out_of_memory k sz s fs"
  shows "realloc k (mh + 1) sz s = Some (mh + 1, s)"
proof (cases "size_t_mod < sz + 2 * sizeof_memh")
  case True
  then have "(sz + 2 * sizeof_memh - 1) mod size_t_mod = sz + 2 * sizeof_memh - 1 - size_t_mod"
    using assms(4) by (simp add: mod_if sizeof_memh_def size_t_mod_def)
  then have "(sz + 2 * sizeof_memh - 1) mod size_t_mod div sizeof_memh \<le> 1"
    using assms(4) by (simp add: sizeof_memh_def size_t_mod_def)
  moreover have "0 < siz s mh" using assms(3) by (simp add: used_block_def)
  ultimately show ?thesis
    using True by (simp add: realloc_def Let_def sizeof_memh_def size_t_mod_def)
next
  case False
  have "malloc k sz s = Some (0, s)" using malloc_ok(1)[OF assms(1,2,4,6)] .
  moreover have "0 < sz" using assms(3,5) by (cases sz) (auto simp: used_block_def units_for_def sizeof_memh_def)
  ultimately show ?thesis
    using False assms(5) by (simp add: realloc_def Let_def units_for_def sizeof_memh_def size_t_mod_def)
qed

lemma realloc_hides_failure_witness: "realloc demo_kernel 7 65530 demo_arena = Some (7, demo_arena)"
  using realloc_hides_failure[OF demo_ok(2,1,3) _ demo_memory(5,4)] by (simp add: size_t_mod_def)

end
