(* ===== verification/LibSort.thy ===== *)
theory LibSort
  imports LibBase
begin

text \<open>
  Sorting and searching arrays in the FUZIX C library: \<open>src/libs/qsort.c\<close> and
  \<open>src/libs/bsearch.c\<close>, with the scans, the partition and the order of the two
  recursions as the code has them and indices in 16-bit arithmetic.
\<close>

subsection \<open>Arrays\<close>

text \<open>
  An array of records is a list of their values and an index an \<open>int\<close>; an access
  outside the array is \<open>None\<close>.
\<close>

definition rd :: "'a list \<Rightarrow> int \<Rightarrow> 'a option" where
  "rd xs i = (if 0 \<le> i \<and> i < int (length xs) then Some (xs ! nat i) else None)"

definition wr :: "'a list \<Rightarrow> int \<Rightarrow> 'a \<Rightarrow> 'a list option" where
  "wr xs i v = (if 0 \<le> i \<and> i < int (length xs) then Some (xs[nat i := v]) else None)"

subsection \<open>\<open>qsort\<close>\<close>

text \<open>
  The three variants \<open>_wqsort\<close>, \<open>_lqsort\<close> and \<open>_nqsort\<close> are the same code for
  records of 2, 4 and any number of bytes. The pivot is moved to the left end;
  the hole it leaves travels to its final place.
\<close>

function scan_down :: "('a \<Rightarrow> 'a \<Rightarrow> int) \<Rightarrow> 'a \<Rightarrow> 'a list \<Rightarrow> int \<Rightarrow> int option" where
  "scan_down cmp p xs j =
     do { x \<leftarrow> rd xs j; if 0 < cmp x p then scan_down cmp p xs (j - 1) else Some j }"
  by pat_completeness auto
termination
  by (relation "measure (\<lambda>(cmp, p, xs, j). nat (j + 1))") (auto simp: rd_def split: if_splits)

function scan_up :: "('a \<Rightarrow> 'a \<Rightarrow> int) \<Rightarrow> 'a \<Rightarrow> 'a list \<Rightarrow> int \<Rightarrow> int \<Rightarrow> int option" where
  "scan_up cmp p xs i j =
     (if i < j then do { x \<leftarrow> rd xs i; if cmp x p \<le> 0 then scan_up cmp p xs (i + 1) j else Some i }
      else Some i)"
  by pat_completeness auto
termination
  by (relation "measure (\<lambda>(cmp, p, xs, i, j). nat (j - i))") auto

declare scan_down.simps [simp del] scan_up.simps [simp del]

lemma scan_down_le:
  "scan_down cmp p xs j = Some j' \<Longrightarrow> j' \<le> j \<and> 0 \<le> j' \<and> j' < int (length xs) \<and> cmp (xs ! nat j') p \<le> 0"
proof (induction cmp p xs j rule: scan_down.induct)
  case (1 cmp p xs j)
  from "1.prems" show ?case
    by (subst (asm) scan_down.simps) (auto simp: rd_def bind_eq_Some_conv split: if_splits dest: "1.IH"[rotated 2])
qed

lemma scan_up_ge:
  "scan_up cmp p xs i j = Some i' \<Longrightarrow> i \<le> i' \<and> i' \<le> max i j"
proof (induction cmp p xs i j rule: scan_up.induct)
  case (1 cmp p xs i j)
  from "1.prems" show ?case
    by (subst (asm) scan_up.simps) (auto simp: bind_eq_Some_conv split: if_splits dest!: "1.IH"[rotated 3])
qed

lemma scan_up_step:
  assumes "scan_up cmp p xs i j = Some i'" "i < j" "rd xs i = Some x" "cmp x p \<le> 0"
  shows "i < i'"
  using assms by (subst (asm) scan_up.simps) (auto dest: scan_up_ge)

function part_loop :: "('a \<Rightarrow> 'a \<Rightarrow> int) \<Rightarrow> 'a \<Rightarrow> 'a list \<Rightarrow> int \<Rightarrow> int \<Rightarrow> ('a list \<times> int) option" where
  "part_loop cmp p xs i j =
     (if i < j then do {
        j' \<leftarrow> scan_down cmp p xs j;
        x \<leftarrow> rd xs j';
        xs1 \<leftarrow> wr xs i x;
        i' \<leftarrow> scan_up cmp p xs1 i j';
        y \<leftarrow> rd xs1 i';
        xs2 \<leftarrow> wr xs1 j' y;
        part_loop cmp p xs2 i' j'
      }
      else Some (xs, i))"
  by pat_completeness auto
termination
proof (relation "measure (\<lambda>(cmp, p, xs, i, j). nat (j - i))", simp, goal_cases)
  case (1 cmp p xs i j j' x xs1 i' y xs2)
  then have j': "j' \<le> j" "x = xs ! nat j'" "cmp x p \<le> 0" "xs1 = xs[nat i := x]" "0 \<le> i" "i < int (length xs)"
    by (auto dest: scan_down_le simp: rd_def wr_def split: if_splits)
  then have "rd xs1 i = Some x" by (simp add: rd_def)
  then have "i < j' \<Longrightarrow> i < i'" using scan_up_step[OF 1(5)] j'(3) by blast
  moreover have "i \<le> i'" using scan_up_ge[OF 1(5)] by simp
  ultimately show ?case using 1(1) j'(1) by (cases "i < j'") auto
qed

declare part_loop.simps [simp del]

lemma part_loop_range:
  "part_loop cmp p xs i j = Some (ys, k) \<Longrightarrow> i \<le> k \<and> k \<le> max i j \<and> length ys = length xs"
proof (induction cmp p xs i j rule: part_loop.induct)
  case (1 cmp p xs i j)
  show ?case
  proof (cases "i < j")
    case False
    then show ?thesis using "1.prems" by (subst (asm) part_loop.simps) auto
  next
    case True
    with "1.prems" obtain j' x xs1 i' y xs2 where
      s: "scan_down cmp p xs j = Some j'" "rd xs j' = Some x" "wr xs i x = Some xs1"
        "scan_up cmp p xs1 i j' = Some i'" "rd xs1 i' = Some y" "wr xs1 j' y = Some xs2"
        "part_loop cmp p xs2 i' j' = Some (ys, k)"
      by (subst (asm) part_loop.simps) (auto simp: bind_eq_Some_conv)
    from "1.IH"[OF True s] have "i' \<le> k \<and> k \<le> max i' j' \<and> length ys = length xs2" .
    moreover have "length xs2 = length xs" using s(3,6) by (auto simp: wr_def split: if_splits)
    ultimately show ?thesis using scan_up_ge[OF s(4)] scan_down_le[OF s(1)] True by auto
  qed
qed

function quicksort :: "('a \<Rightarrow> 'a \<Rightarrow> int) \<Rightarrow> 'a list \<Rightarrow> int \<Rightarrow> int \<Rightarrow> 'a list option" where
  "quicksort cmp xs lo hi =
     (if lo < hi then do {
        let t = wrap16 (lo + hi) div 2;
        k \<leftarrow> rd xs t;
        x \<leftarrow> rd xs lo;
        xs1 \<leftarrow> wr xs t x;
        xs2 \<leftarrow> wr xs1 lo k;
        (xs3, i) \<leftarrow> part_loop cmp k xs2 lo hi;
        xs4 \<leftarrow> wr xs3 i k;
        if i - lo < hi - i
        then do { xs5 \<leftarrow> quicksort cmp xs4 lo (i - 1); quicksort cmp xs5 (i + 1) hi }
        else do { xs5 \<leftarrow> quicksort cmp xs4 (i + 1) hi; quicksort cmp xs5 lo (i - 1) }
      }
      else Some xs)"
  by pat_completeness auto
termination
  by (relation "measure (\<lambda>(cmp, xs, lo, hi). nat (hi - lo))") (auto dest!: part_loop_range)

declare quicksort.simps [simp del]

text \<open>
  \<open>qbuf\<close> says whether the program has given \<open>qsort\<close> a buffer of its own in
  \<open>_qbuf\<close>. The number of elements is a 16-bit \<open>size_t\<close> and becomes an \<open>int\<close>.
\<close>

definition qsort :: "bool \<Rightarrow> nat \<Rightarrow> ('a \<Rightarrow> 'a \<Rightarrow> int) \<Rightarrow> 'a list \<Rightarrow> 'a list option" where
  "qsort qbuf sz cmp xs =
     (if \<not> qbuf \<and> 128 < sz then Some xs
      else quicksort cmp xs 0 (wrap16 (int (length xs) - 1)))"

subsection \<open>\<open>bsearch\<close>\<close>

text \<open>The result is the index of the element found and the value left in \<open>_bsearch\<close>.\<close>

partial_function (option) bsearch_loop ::
  "('a \<Rightarrow> 'k \<Rightarrow> int) \<Rightarrow> 'k \<Rightarrow> 'a list \<Rightarrow> int \<Rightarrow> int \<Rightarrow> (int option \<times> int) option" where
  [code]: "bsearch_loop cmp key xs a b =
     (if a \<le> b
      then do {
        let c = wrap16 (a + b) div 2;
        x \<leftarrow> rd xs c;
        if cmp x key \<noteq> 0
        then (if 0 < cmp x key then bsearch_loop cmp key xs a (c - 1) else bsearch_loop cmp key xs (c + 1) b)
        else Some (Some c, c)
      }
      else Some (None, b))"

definition bsearch :: "('a \<Rightarrow> 'k \<Rightarrow> int) \<Rightarrow> 'k \<Rightarrow> 'a list \<Rightarrow> (int option \<times> int) option" where
  "bsearch cmp key xs = bsearch_loop cmp key xs 0 (wrap16 (int (length xs) - 1))"

end
