(* ===== verification/SortSpec.thy ===== *)
theory SortSpec
  imports LibSort
begin

text \<open>
  \<open>qsort\<close> sorts and \<open>bsearch\<close> finds, for comparison functions that satisfy the
  contract of \<open>LibBase\<close>. The central invariant, \<open>hole_inv\<close>, describes the array
  during a partition: the elements left of the hole are at most the pivot, those
  right of the second index are greater, and filling the hole with the pivot
  gives a permutation of the array.
\<close>

abbreviation at :: "'a list \<Rightarrow> int \<Rightarrow> 'a" where
  "at xs i \<equiv> xs ! nat i"

lemma rd_in: "0 \<le> i \<Longrightarrow> i < int (length xs) \<Longrightarrow> rd xs i = Some (at xs i)"
  by (simp add: rd_def)

lemma wr_in: "0 \<le> i \<Longrightarrow> i < int (length xs) \<Longrightarrow> wr xs i v = Some (xs[nat i := v])"
  by (simp add: wr_def)

lemma at_upd: "0 \<le> i \<Longrightarrow> i < int (length xs) \<Longrightarrow> 0 \<le> k \<Longrightarrow> at (xs[nat i := v]) k = (if k = i then v else at xs k)"
  by (auto simp: nth_list_update nat_eq_iff)

lemma scan_down_finds:
  assumes "0 \<le> m" "m \<le> j" "j < int (length xs)" "cmp (at xs m) p \<le> 0"
  obtains j' where "scan_down cmp p xs j = Some j'" "m \<le> j'" "j' \<le> j" "cmp (at xs j') p \<le> 0"
    "\<forall>k. j' < k \<and> k \<le> j \<longrightarrow> 0 < cmp (at xs k) p"
proof -
  have "\<exists>j'. scan_down cmp p xs j = Some j' \<and> m \<le> j' \<and> j' \<le> j \<and> cmp (at xs j') p \<le> 0 \<and>
     (\<forall>k. j' < k \<and> k \<le> j \<longrightarrow> 0 < cmp (at xs k) p)"
    using assms
  proof (induction cmp p xs j rule: scan_down.induct)
    case (1 cmp p xs j)
    have r: "rd xs j = Some (at xs j)" using "1.prems" by (simp add: rd_in)
    show ?case
    proof (cases "0 < cmp (at xs j) p")
      case True
      with "1.prems" have "m \<le> j - 1" by (cases "m = j") auto
      from "1.IH"[OF r True "1.prems"(1) this] "1.prems" obtain j' where
        "scan_down cmp p xs (j - 1) = Some j'" "m \<le> j'" "j' \<le> j - 1" "cmp (at xs j') p \<le> 0"
        "\<forall>k. j' < k \<and> k \<le> j - 1 \<longrightarrow> 0 < cmp (at xs k) p" by auto
      then show ?thesis using r True
        by (intro exI[of _ j']) (auto simp: scan_down.simps[of cmp p xs j] order_le_less)
    next
      case False
      then show ?thesis using r "1.prems"
        by (intro exI[of _ j]) (auto simp: scan_down.simps[of cmp p xs j])
    qed
  qed
  then show thesis using that by blast
qed

lemma scan_up_finds:
  assumes "0 \<le> i" "j < int (length xs)" 
  obtains i' where "scan_up cmp p xs i j = Some i'" "i \<le> i'" "i' \<le> max i j"
    "\<forall>k. i \<le> k \<and> k < i' \<longrightarrow> cmp (at xs k) p \<le> 0" "i' < j \<Longrightarrow> 0 < cmp (at xs i') p"
proof -
  have "\<exists>i'. scan_up cmp p xs i j = Some i' \<and> i \<le> i' \<and> i' \<le> max i j \<and>
    (\<forall>k. i \<le> k \<and> k < i' \<longrightarrow> cmp (at xs k) p \<le> 0) \<and> (i' < j \<longrightarrow> 0 < cmp (at xs i') p)"
    using assms
  proof (induction cmp p xs i j rule: scan_up.induct)
    case (1 cmp p xs i j)
    show ?case
    proof (cases "i < j \<and> cmp (at xs i) p \<le> 0")
      case True
      then have r: "rd xs i = Some (at xs i)" using "1.prems" by (simp add: rd_in)
      from True "1.IH"[OF _ r] "1.prems" obtain i' where
        "scan_up cmp p xs (i + 1) j = Some i'" "i + 1 \<le> i'" "i' \<le> max (i + 1) j"
        "\<forall>k. i + 1 \<le> k \<and> k < i' \<longrightarrow> cmp (at xs k) p \<le> 0" "i' < j \<longrightarrow> 0 < cmp (at xs i') p"
        by auto
      moreover have "scan_up cmp p xs i j = scan_up cmp p xs (i + 1) j"
        using True r by (subst scan_up.simps) simp
      moreover have "cmp (at xs k) p \<le> 0" if "i \<le> k" "k < i'" for k
        using that True calculation(4) by (cases "k = i") auto
      ultimately show ?thesis using True by (intro exI[of _ i']) auto
    next
      case False
      then show ?thesis using "1.prems"
        by (intro exI[of _ i]) (auto simp: scan_up.simps[of cmp p xs i j] rd_in)
    qed
  qed
  then show thesis using that by blast
qed

lemma mset_move_hole:
  assumes "i < length xs" "j < length xs"
  shows "mset (xs[i := xs ! j, j := p]) = mset (xs[i := p])"
proof (cases "i = j")
  case True
  then show ?thesis by simp
next
  case False
  let ?l = "xs[i := p]"
  have "mset (?l[j := ?l ! i, i := ?l ! j]) = mset ?l"
    using assms by (intro mset_swap) auto
  moreover have "?l[j := ?l ! i, i := ?l ! j] = xs[i := xs ! j, j := p]"
    using assms False by (simp add: list_update_swap[of i j])
  ultimately show ?thesis by simp
qed

definition hole_inv :: "('a \<Rightarrow> 'a \<Rightarrow> int) \<Rightarrow> 'a \<Rightarrow> 'a list \<Rightarrow> int \<Rightarrow> int \<Rightarrow> 'a list \<Rightarrow> int \<Rightarrow> int \<Rightarrow> bool" where
  "hole_inv cmp p ys lo hi xs i j \<longleftrightarrow>
     0 \<le> lo \<and> lo \<le> i \<and> i \<le> hi \<and> j \<le> hi \<and> hi < int (length xs) \<and>
     length xs = length ys \<and> mset (xs[nat i := p]) = mset ys \<and>
     (\<forall>k. lo \<le> k \<and> k < i \<longrightarrow> cmp (at xs k) p \<le> 0) \<and>
     (\<forall>k. j < k \<and> k \<le> hi \<and> k \<noteq> i \<longrightarrow> 0 < cmp (at xs k) p) \<and>
     (\<forall>k. 0 \<le> k \<and> (k < lo \<or> hi < k) \<longrightarrow> at xs k = at ys k) \<and>
     (lo < i \<or> cmp (at xs i) p \<le> 0)"

text \<open>
  One round of the partition: the scan from above stops at \<open>j'\<close> and fills the hole at
  \<open>i\<close>, the scan from below stops at \<open>i'\<close> and fills the hole at \<open>j'\<close>. The first scan
  may pass the hole by one.
\<close>

definition moved :: "('a \<Rightarrow> 'a \<Rightarrow> int) \<Rightarrow> 'a \<Rightarrow> 'a list \<Rightarrow> int \<Rightarrow> int \<Rightarrow> 'a list \<Rightarrow> int \<Rightarrow> 'a list \<Rightarrow> 'a list \<Rightarrow> int \<Rightarrow> int \<Rightarrow> bool" where
  "moved cmp p ys lo hi xs i xs1 xs2 i' j' \<longleftrightarrow>
     0 \<le> lo \<and> lo \<le> i \<and> i \<le> hi \<and> j' \<le> hi \<and> hi < int (length xs) \<and> length xs = length ys \<and> mset (xs[nat i := p]) = mset ys \<and>
     (\<forall>k. lo \<le> k \<and> k < i \<longrightarrow> cmp (at xs k) p \<le> 0) \<and> (\<forall>k. j' < k \<and> k \<le> hi \<and> k \<noteq> i \<longrightarrow> 0 < cmp (at xs k) p) \<and>
     (\<forall>k. 0 \<le> k \<and> (k < lo \<or> hi < k) \<longrightarrow> at xs k = at ys k) \<and>
     xs1 = xs[nat i := at xs j'] \<and> xs2 = xs1[nat j' := at xs1 i'] \<and>
     i - 1 \<le> j' \<and> lo \<le> j' \<and> cmp (at xs j') p \<le> 0 \<and> i \<le> i' \<and> i' \<le> max i j' \<and>
     (\<forall>k. i \<le> k \<and> k < i' \<longrightarrow> cmp (at xs1 k) p \<le> 0) \<and> (i' < j' \<longrightarrow> 0 < cmp (at xs1 i') p)"

lemma moved_at:
  assumes "moved cmp p ys lo hi xs i xs1 xs2 i' j'"
  shows "0 \<le> k \<Longrightarrow> at xs1 k = (if k = i then at xs j' else at xs k)"
    "0 \<le> k \<Longrightarrow> at xs2 k = (if k = j' then at xs1 i' else at xs1 k)"
    "length xs1 = length xs" "length xs2 = length xs" "0 \<le> i'" "i' \<le> hi" "lo \<le> i'"
  using assms by (auto simp: moved_def at_upd)

lemma moved_mset:
  assumes "moved cmp p ys lo hi xs i xs1 xs2 i' j'"
  shows "mset (xs2[nat i' := p]) = mset ys"
proof -
  note m = assms[unfolded moved_def]
  have b: "nat i < length xs" "nat j' < length xs" using m by linarith+
  have xs1: "xs1 = xs[nat i := at xs j']" using m by blast
  have "mset (xs1[nat j' := p]) = mset (xs[nat i := p])"
    unfolding xs1 using mset_move_hole[OF b] .
  moreover have "mset (xs1[nat j' := at xs1 i', nat i' := p]) = mset (xs1[nat j' := p])"
    using m moved_at[OF assms] by (intro mset_move_hole) auto
  ultimately show ?thesis using m by simp
qed

lemma moved_crossed:
  assumes mv: "moved cmp p ys lo hi xs i xs1 xs2 i' j'" and crossed: "j' < i"
  shows "hole_inv cmp p ys lo hi xs2 i' j'"
proof -
  note m = mv[unfolded moved_def] and a = moved_at[OF mv]
  have e: "j' = i - 1" "i' = i" "lo < i" using m crossed by auto
  have s: "at xs2 k = (if k = i then at xs j' else at xs k)" if "0 \<le> k" for k
    using that e a(1,2) m by auto
  have "cmp (at xs2 k) p \<le> 0" if "lo \<le> k" "k < i'" for k
    using that s[of k] m e by auto
  moreover have "0 < cmp (at xs2 k) p" if "j' < k" "k \<le> hi" "k \<noteq> i'" for k
    using that s[of k] e m by auto
  moreover have "at xs2 k = at ys k" if "0 \<le> k" "k < lo \<or> hi < k" for k
    using that s[of k] m by auto
  moreover have "0 \<le> lo" "j' \<le> hi" "hi < int (length xs)" "length xs = length ys" using m by blast+
  ultimately show ?thesis
    unfolding hole_inv_def using a moved_mset[OF mv] e by simp
qed

lemma moved_on:
  assumes mv: "moved cmp p ys lo hi xs i xs1 xs2 i' j'" and ahead: "i \<le> j'"
  shows "hole_inv cmp p ys lo hi xs2 i' j'"
proof -
  note m = mv[unfolded moved_def] and a = moved_at[OF mv]
  have below: "\<forall>k. lo \<le> k \<and> k < i \<longrightarrow> cmp (at xs k) p \<le> 0" "cmp (at xs j') p \<le> 0"
    and above: "\<forall>k. j' < k \<and> k \<le> hi \<and> k \<noteq> i \<longrightarrow> 0 < cmp (at xs k) p"
    and out: "\<forall>k. 0 \<le> k \<and> (k < lo \<or> hi < k) \<longrightarrow> at xs k = at ys k"
    and scan: "\<forall>k. i \<le> k \<and> k < i' \<longrightarrow> cmp (at xs1 k) p \<le> 0" "i' < j' \<longrightarrow> 0 < cmp (at xs1 i') p"
    using m by blast+
  have g: "0 \<le> lo" "lo \<le> i" "j' \<le> hi" "hi < int (length xs)" "length xs = length ys" "i' \<le> j'" "i \<le> i'"
    using m ahead by auto
  have first: "cmp (at xs1 i) p \<le> 0" using a(1)[of i] below(2) g by simp
  then have far: "i < i'" if "i < j'" using that scan(2) g(7) by (cases "i = i'") auto
  have one: "cmp (at xs1 k) p \<le> 0" if "lo \<le> k" "k < i'" for k
  proof (cases "k < i")
    case True
    then show ?thesis using that a(1)[of k] below(1) g by simp
  next
    case False
    then show ?thesis using that scan(1) by simp
  qed
  have "cmp (at xs2 k) p \<le> 0" if "lo \<le> k" "k < i'" for k
    using one[OF that] that a(2)[of k] g by auto
  moreover have "0 < cmp (at xs2 k) p" if "j' < k" "k \<le> hi" "k \<noteq> i'" for k
    using that a(1,2)[of k] above ahead g by auto
  moreover have "at xs2 k = at ys k" if "0 \<le> k" "k < lo \<or> hi < k" for k
    using that a(1,2)[of k] out g by auto
  moreover have "lo < i' \<or> cmp (at xs2 i') p \<le> 0"
  proof (cases "i < j'")
    case True
    then show ?thesis using far g by auto
  next
    case False
    then have "i' = i" "j' = i" using g ahead by auto
    then show ?thesis using first a(2)[of i'] a(5) by simp
  qed
  ultimately show ?thesis
    unfolding hole_inv_def using a moved_mset[OF mv] g by simp
qed

lemma hole_round:
  assumes inv: "hole_inv cmp p ys lo hi xs i j" and ij: "i < j"
  obtains j' i' xs1 xs2 where "scan_down cmp p xs j = Some j'" "rd xs j' = Some (at xs j')"
    "wr xs i (at xs j') = Some xs1" "scan_up cmp p xs1 i j' = Some i'" "rd xs1 i' = Some (at xs1 i')"
    "wr xs1 j' (at xs1 i') = Some xs2" "hole_inv cmp p ys lo hi xs2 i' j'"
proof -
  note I = inv[unfolded hole_inv_def]
  define m where "m = (if cmp (at xs i) p \<le> 0 then i else i - 1)"
  have m: "0 \<le> m" "m \<le> j" "j < int (length xs)" "cmp (at xs m) p \<le> 0" "i - 1 \<le> m" "lo \<le> m"
    using I ij by (auto simp: m_def)
  from scan_down_finds[OF m(1-3), of cmp p] m(4) obtain j' where j':
    "scan_down cmp p xs j = Some j'" "m \<le> j'" "j' \<le> j" "cmp (at xs j') p \<le> 0"
    "\<forall>k. j' < k \<and> k \<le> j \<longrightarrow> 0 < cmp (at xs k) p" by blast
  have b: "0 \<le> i" "i < int (length xs)" "0 \<le> j'" "j' < int (length xs)" "i - 1 \<le> j'" "lo \<le> j'"
    using I m j' by auto
  define xs1 where "xs1 = xs[nat i := at xs j']"
  have l1: "length xs1 = length xs" by (simp add: xs1_def)
  from scan_up_finds[of i j' xs1 cmp p] b l1 obtain i' where i':
    "scan_up cmp p xs1 i j' = Some i'" "i \<le> i'" "i' \<le> max i j'"
    "\<forall>k. i \<le> k \<and> k < i' \<longrightarrow> cmp (at xs1 k) p \<le> 0" "i' < j' \<Longrightarrow> 0 < cmp (at xs1 i') p" by auto
  define xs2 where "xs2 = xs1[nat j' := at xs1 i']"
  have above: "0 < cmp (at xs k) p" if "j' < k" "k \<le> hi" for k
    using that I j'(5) ij by (cases "k \<le> j") auto
  have mv: "moved cmp p ys lo hi xs i xs1 xs2 i' j'"
    unfolding moved_def using I b j' i' above by (simp add: xs1_def[symmetric] xs2_def[symmetric])
  then have "hole_inv cmp p ys lo hi xs2 i' j'"
    using moved_crossed moved_on by (meson not_le)
  then show thesis
    using that[OF j'(1) _ _ i'(1)] b moved_at[OF mv] I by (simp add: rd_in wr_in xs1_def xs2_def)
qed

lemma part_loop_ok:
  assumes "hole_inv cmp p ys lo hi xs i j"
  shows "\<exists>xs' i' j'. part_loop cmp p xs i j = Some (xs', i') \<and> hole_inv cmp p ys lo hi xs' i' j' \<and> \<not> i' < j'"
  using assms
proof (induction cmp p xs i j rule: part_loop.induct)
  case (1 cmp p xs i j)
  show ?case
  proof (cases "i < j")
    case False
    then show ?thesis using "1.prems"
      by (intro exI[of _ xs] exI[of _ i] exI[of _ j]) (simp add: part_loop.simps)
  next
    case True
    from hole_round[OF "1.prems" True] obtain j' i' xs1 xs2 where
      r: "scan_down cmp p xs j = Some j'" "rd xs j' = Some (at xs j')"
        "wr xs i (at xs j') = Some xs1" "scan_up cmp p xs1 i j' = Some i'" "rd xs1 i' = Some (at xs1 i')"
        "wr xs1 j' (at xs1 i') = Some xs2" "hole_inv cmp p ys lo hi xs2 i' j'" .
    from "1.IH"[OF True r] r(1-6) True show ?thesis
      by (subst part_loop.simps) simp
  qed
qed

definition sorted_between :: "('a \<Rightarrow> 'a \<Rightarrow> int) \<Rightarrow> 'a list \<Rightarrow> int \<Rightarrow> int \<Rightarrow> bool" where
  "sorted_between cmp xs lo hi \<longleftrightarrow> (\<forall>a b. lo \<le> a \<and> a < b \<and> b \<le> hi \<longrightarrow> cmp (at xs a) (at xs b) \<le> 0)"

definition rearranged :: "int \<Rightarrow> int \<Rightarrow> 'a list \<Rightarrow> 'a list \<Rightarrow> bool" where
  "rearranged lo hi xs ys \<longleftrightarrow> length ys = length xs \<and> mset ys = mset xs \<and>
     (\<forall>k. 0 \<le> k \<and> (k < lo \<or> hi < k) \<longrightarrow> at ys k = at xs k)"

lemma rearranged_trans: "rearranged lo hi xs ys \<Longrightarrow> rearranged lo hi ys zs \<Longrightarrow> rearranged lo hi xs zs"
  by (simp add: rearranged_def)

lemma rearranged_mono: "rearranged a b xs ys \<Longrightarrow> lo \<le> a \<Longrightarrow> b \<le> hi \<Longrightarrow> rearranged lo hi xs ys"
  unfolding rearranged_def by (metis order_less_le_trans order_le_less_trans)

lemma rearranged_all:
  assumes r: "rearranged lo hi xs ys" and b: "0 \<le> lo" "hi < int (length xs)"
    and P: "\<forall>k. lo \<le> k \<and> k \<le> hi \<longrightarrow> P (at xs k)"
  shows "\<forall>k. lo \<le> k \<and> k \<le> hi \<longrightarrow> P (at ys k)"
proof (intro allI impI)
  fix k assume k: "lo \<le> k \<and> k \<le> hi"
  define A where "A = nat lo" 
  define n where "n = nat (hi - lo + 1)"
  have len: "length ys = length xs" "A + n \<le> length xs" "int A = lo" "int n = hi - lo + 1"
    using r b k by (auto simp: rearranged_def A_def n_def)
  have parts: "mset zs = mset (take A zs) + mset (take n (drop A zs)) + mset (drop (A + n) zs)" for zs :: "'a list"
    by (metis append_take_drop_id drop_drop mset_append add.commute add.assoc)
  have same: "ys ! i = xs ! i" if "i < A \<or> A + n \<le> i" for i
  proof -
    have "int i < lo \<or> hi < int i" using that len by auto
    then have "at ys (int i) = at xs (int i)"
      using r unfolding rearranged_def by (metis of_nat_0_le_iff)
    then show ?thesis by simp
  qed
  have "take A ys = take A xs" using len same by (intro nth_equalityI) auto
  moreover have "drop (A + n) ys = drop (A + n) xs" using len same by (intro nth_equalityI) auto
  ultimately have "mset (take n (drop A ys)) = mset (take n (drop A xs))"
    using r parts[of ys] parts[of xs] by (simp add: rearranged_def)
  then have "set (take n (drop A ys)) = set (take n (drop A xs))" by (metis set_mset_mset)
  moreover have "at ys k \<in> set (take n (drop A ys))"
  proof -
    have "nat k = A + nat (k - lo)" "nat (k - lo) < n" using k b by (auto simp: A_def n_def)
    then have "at ys k = take n (drop A ys) ! nat (k - lo)" "nat (k - lo) < length (take n (drop A ys))"
      using len by simp_all
    then show ?thesis by (metis nth_mem)
  qed
  moreover have "P x" if x: "x \<in> set (take n (drop A xs))" for x
  proof -
    from x obtain i where i: "i < n" "x = xs ! (A + i)" using len by (auto simp: in_set_conv_nth)
    then have "lo \<le> int (A + i)" "int (A + i) \<le> hi" using len by auto
    then have "P (at xs (int (A + i)))" using P by blast
    then show ?thesis using i by (simp del: of_nat_add)
  qed
  ultimately show "P (at ys k)" by blast
qed

definition partitioned :: "('a \<Rightarrow> 'a \<Rightarrow> int) \<Rightarrow> 'a list \<Rightarrow> int \<Rightarrow> int \<Rightarrow> int \<Rightarrow> bool" where
  "partitioned cmp xs lo i hi \<longleftrightarrow> lo \<le> i \<and> i \<le> hi \<and>
     (\<forall>k. lo \<le> k \<and> k < i \<longrightarrow> cmp (at xs k) (at xs i) \<le> 0) \<and>
     (\<forall>k. i < k \<and> k \<le> hi \<longrightarrow> cmp (at xs i) (at xs k) \<le> 0)"

lemma partition_ok:
  assumes pre: "comparator cmp" and b: "0 \<le> lo" "lo < hi" "hi < int (length xs)" and t: "lo \<le> t" "t \<le> hi"
  defines "k \<equiv> at xs t"
  obtains xs1 xs2 xs3 i xs4 where "rd xs t = Some k" "rd xs lo = Some (at xs lo)"
    "wr xs t (at xs lo) = Some xs1" "wr xs1 lo k = Some xs2"
    "part_loop cmp k xs2 lo hi = Some (xs3, i)" "wr xs3 i k = Some xs4"
    "rearranged lo hi xs xs4" "partitioned cmp xs4 lo i hi"
proof -
  define xs1 where "xs1 = xs[nat t := at xs lo]"
  define xs2 where "xs2 = xs1[nat lo := k]"
  have at2: "at xs2 a = (if a = lo then k else if a = t then at xs lo else at xs a)" if "0 \<le> a" for a
    using b t that by (simp add: xs1_def xs2_def at_upd)
  have r2: "rearranged lo hi xs xs2"
  proof -
    have "mset xs2 = mset xs"
      unfolding xs1_def xs2_def k_def using b t by (intro mset_swap) auto
    then show ?thesis using at2 b t by (auto simp: rearranged_def xs1_def xs2_def)
  qed
  have self: "cmp k k \<le> 0" by (simp add: comparator.same[OF pre])
  have "hole_inv cmp k xs lo hi xs2 lo hi"
    using b r2 at2 self unfolding hole_inv_def rearranged_def by (simp add: xs2_def)
  from part_loop_ok[OF this] obtain xs3 i j where
    p: "part_loop cmp k xs2 lo hi = Some (xs3, i)" "hole_inv cmp k xs lo hi xs3 i j" "\<not> i < j" by blast
  note I = p(2)[unfolded hole_inv_def]
  define xs4 where "xs4 = xs3[nat i := k]"
  have at4: "at xs4 a = (if a = i then k else at xs3 a)" if "0 \<le> a" for a
    using I that by (simp add: xs4_def at_upd)
  have r4: "rearranged lo hi xs xs4"
    using I at4 unfolding rearranged_def by (auto simp: xs4_def)
  have part: "partitioned cmp xs4 lo i hi"
    unfolding partitioned_def
  proof (intro conjI allI impI)
    show "lo \<le> i" "i \<le> hi" using I by auto
    show "cmp (at xs4 a) (at xs4 i) \<le> 0" if "lo \<le> a \<and> a < i" for a
      using that I at4[of a] at4[of i] by simp
    show "cmp (at xs4 i) (at xs4 a) \<le> 0" if "i < a \<and> a \<le> hi" for a
    proof -
      have "0 < cmp (at xs3 a) k" using that I p(3) by auto
      then have "cmp k (at xs3 a) < 0" by (simp add: comparator.flip[OF pre])
      then show ?thesis using that I at4[of a] at4[of i] by simp
    qed
  qed
  show thesis
    using that[OF _ _ _ _ p(1) _ r4 part] b t I
    by (simp add: rd_in wr_in k_def xs1_def xs2_def xs4_def)
qed

lemma partitioned_left:
  assumes p: "partitioned cmp xs lo i hi" and r: "rearranged lo (i - 1) xs ys" and b: "0 \<le> lo" "hi < int (length xs)"
  shows "partitioned cmp ys lo i hi"
proof -
  note P = p[unfolded partitioned_def]
  have same: "at ys a = at xs a" if "i \<le> a" for a
    using r that P b by (simp add: rearranged_def)
  have "\<forall>k. lo \<le> k \<and> k \<le> i - 1 \<longrightarrow> cmp (at ys k) (at xs i) \<le> 0"
    by (rule rearranged_all[OF r]) (use P b in auto)
  then show ?thesis using P same by (simp add: partitioned_def)
qed

lemma partitioned_right:
  assumes p: "partitioned cmp xs lo i hi" and r: "rearranged (i + 1) hi xs ys" and b: "0 \<le> lo" "hi < int (length xs)"
  shows "partitioned cmp ys lo i hi"
proof -
  note P = p[unfolded partitioned_def]
  have same: "at ys a = at xs a" if "0 \<le> a" "a \<le> i" for a
    using r that P b by (simp add: rearranged_def)
  have "\<forall>k. i + 1 \<le> k \<and> k \<le> hi \<longrightarrow> cmp (at xs i) (at ys k) \<le> 0"
    by (rule rearranged_all[OF r]) (use P b in auto)
  then show ?thesis using P same b by (simp add: partitioned_def)
qed

lemma sorted_elsewhere:
  assumes "sorted_between cmp xs lo hi" "rearranged a b xs ys" "0 \<le> lo" "hi < a \<or> b < lo"
  shows "sorted_between cmp ys lo hi"
  using assms unfolding sorted_between_def rearranged_def
  by (auto simp: order_less_le_trans order_le_less_trans)

lemma sorted_join:
  assumes pre: "comparator cmp" and p: "partitioned cmp xs lo i hi"
    and s: "sorted_between cmp xs lo (i - 1)" "sorted_between cmp xs (i + 1) hi"
  shows "sorted_between cmp xs lo hi"
  unfolding sorted_between_def
proof (intro allI impI)
  fix a b assume ab: "lo \<le> a \<and> a < b \<and> b \<le> hi"
  note P = p[unfolded partitioned_def]
  have tr: "\<And>x y z. cmp x y \<le> 0 \<Longrightarrow> cmp y z \<le> 0 \<Longrightarrow> cmp x z \<le> 0"
    by (rule comparator.trans[OF pre])
  consider "b < i" | "i < a" | "a = i" | "b = i" | "a < i" "i < b" by linarith
  then show "cmp (at xs a) (at xs b) \<le> 0"
  proof cases
    case 5
    then show ?thesis using P ab tr[of "at xs a" "at xs i" "at xs b"] by auto
  qed (use s P ab in \<open>auto simp: sorted_between_def\<close>)
qed

text \<open>Sorting the two sides of a partitioned range, in either order, sorts the range.\<close>

definition sorts :: "('a \<Rightarrow> 'a \<Rightarrow> int) \<Rightarrow> int \<Rightarrow> int \<Rightarrow> 'a list \<Rightarrow> 'a list \<Rightarrow> bool" where
  "sorts cmp lo hi xs ys \<longleftrightarrow> rearranged lo hi xs ys \<and> sorted_between cmp ys lo hi"

lemma sorts_length: "sorts cmp lo hi xs ys \<Longrightarrow> length ys = length xs"
  by (simp add: sorts_def rearranged_def)

lemma sorts_sides:
  assumes pre: "comparator cmp" and b: "0 \<le> lo" "hi < int (length xs)"
    and p: "partitioned cmp xs lo i hi"
    and two: "sorts cmp lo (i - 1) xs ys \<and> sorts cmp (i + 1) hi ys zs \<or>
              sorts cmp (i + 1) hi xs ys \<and> sorts cmp lo (i - 1) ys zs"
  shows "sorts cmp lo hi xs zs"
proof -
  have i: "lo \<le> i" "i \<le> hi" using p by (auto simp: partitioned_def)
  have len: "length ys = length xs" using two by (auto dest: sorts_length)
  have r: "rearranged lo hi xs ys" "rearranged lo hi ys zs"
    using two i by (auto simp: sorts_def elim: rearranged_mono)
  have "partitioned cmp zs lo i hi"
    using two p b len by (auto simp: sorts_def intro: partitioned_left partitioned_right)
  moreover have "sorted_between cmp zs lo (i - 1)" "sorted_between cmp zs (i + 1) hi"
    using two b i by (auto simp: sorts_def intro: sorted_elsewhere)
  ultimately have "sorted_between cmp zs lo hi" using sorted_join[OF pre] by blast
  then show ?thesis using r rearranged_trans by (auto simp: sorts_def)
qed

lemma quicksort_ok:
  assumes pre: "comparator cmp" and "0 \<le> lo" "hi < int (length xs)" "length xs \<le> 16384"
  shows "\<exists>ys. quicksort cmp xs lo hi = Some ys \<and> sorts cmp lo hi xs ys"
  using assms(2-4)
proof (induction "nat (hi - lo)" arbitrary: lo hi xs rule: less_induct)
  case less
  show ?case
  proof (cases "lo < hi")
    case False
    then show ?thesis
      by (intro exI[of _ xs])
        (auto simp: quicksort.simps[of cmp xs lo hi] sorts_def rearranged_def sorted_between_def)
  next
    case lt: True
    let ?t = "wrap16 (lo + hi) div 2"
    have "?t = (lo + hi) div 2" using less.prems lt by (simp add: wrap16_def)
    then have tb: "lo \<le> ?t" "?t \<le> hi" using lt by auto
    from partition_ok[OF pre less.prems(1) lt less.prems(2) tb] obtain xs1 xs2 xs3 i xs4 where
      q: "rd xs ?t = Some (at xs ?t)" "rd xs lo = Some (at xs lo)"
        "wr xs ?t (at xs lo) = Some xs1" "wr xs1 lo (at xs ?t) = Some xs2"
        "part_loop cmp (at xs ?t) xs2 lo hi = Some (xs3, i)" "wr xs3 i (at xs ?t) = Some xs4"
        "rearranged lo hi xs xs4" "partitioned cmp xs4 lo i hi" by blast
    have i: "lo \<le> i" "i \<le> hi" using q(8) by (auto simp: partitioned_def)
    have l4: "length xs4 = length xs" using q(7) by (simp add: rearranged_def)
    have unf: "quicksort cmp xs lo hi = (if i - lo < hi - i
        then do { xs5 \<leftarrow> quicksort cmp xs4 lo (i - 1); quicksort cmp xs5 (i + 1) hi }
        else do { xs5 \<leftarrow> quicksort cmp xs4 (i + 1) hi; quicksort cmp xs5 lo (i - 1) })"
      using lt q(1-6) by (subst quicksort.simps) (simp add: Let_def)
    have left: "\<exists>zs. quicksort cmp ys lo (i - 1) = Some zs \<and> sorts cmp lo (i - 1) ys zs"
      and right: "\<exists>zs. quicksort cmp ys (i + 1) hi = Some zs \<and> sorts cmp (i + 1) hi ys zs"
      if "length ys = length xs" for ys
      using less.hyps[of "i - 1" lo ys] less.hyps[of hi "i + 1" ys] less.prems i lt that by simp_all
    have "\<exists>ys. quicksort cmp xs lo hi = Some ys \<and> sorts cmp lo hi xs4 ys"
    proof (cases "i - lo < hi - i")
      case True
      from left[OF l4] obtain xs5 where
        a: "quicksort cmp xs4 lo (i - 1) = Some xs5" "sorts cmp lo (i - 1) xs4 xs5" by blast
      moreover from right[of xs5] obtain xs6 where
        "quicksort cmp xs5 (i + 1) hi = Some xs6" "sorts cmp (i + 1) hi xs5 xs6"
        using sorts_length[OF a(2)] l4 by auto
      ultimately show ?thesis
        using unf True sorts_sides[OF pre _ _ q(8), of xs5 xs6] less.prems l4 by auto
    next
      case False
      from right[OF l4] obtain xs5 where
        a: "quicksort cmp xs4 (i + 1) hi = Some xs5" "sorts cmp (i + 1) hi xs4 xs5" by blast
      moreover from left[of xs5] obtain xs6 where
        "quicksort cmp xs5 lo (i - 1) = Some xs6" "sorts cmp lo (i - 1) xs5 xs6"
        using sorts_length[OF a(2)] l4 by auto
      ultimately show ?thesis
        using unf False sorts_sides[OF pre _ _ q(8), of xs5 xs6] less.prems l4 by auto
    qed
    then show ?thesis using q(7) rearranged_trans by (auto simp: sorts_def)
  qed
qed

lemma sorted_between_all:
  assumes "sorted_between cmp xs 0 (int (length xs) - 1)"
  shows "sorted_wrt (\<lambda>x y. cmp x y \<le> 0) xs"
proof (rule sorted_wrt_iff_nth_less[THEN iffD2], intro allI impI)
  fix i j assume "i < j" "j < length xs"
  then show "cmp (xs ! i) (xs ! j) \<le> 0"
    using assms[unfolded sorted_between_def, rule_format, of "int i" "int j"] by simp
qed

lemma quicksort_overflow:
  assumes "lo < hi" "hi < 32768" "32768 \<le> lo + hi"
  shows "quicksort cmp xs lo hi = None"
proof -
  have "wrap16 (lo + hi) div 2 < 0" using assms by (simp add: wrap16_over)
  then have "rd xs (wrap16 (lo + hi) div 2) = None" by (simp add: rd_def)
  then show ?thesis using assms(1) by (subst quicksort.simps) (simp add: Let_def)
qed

lemma qsort_limits:
  "128 < sz \<Longrightarrow> qsort False sz cmp xs = Some xs"
  "32768 < length xs \<Longrightarrow> length xs < 65536 \<Longrightarrow> qsort qbuf sz cmp xs = Some xs"
proof -
  show "qsort False sz cmp xs = Some xs" if "128 < sz" using that by (simp add: qsort_def)
  assume "32768 < length xs" "length xs < 65536"
  then have "wrap16 (int (length xs) - 1) < 0" by (simp add: wrap16_over)
  then show "qsort qbuf sz cmp xs = Some xs" by (simp add: qsort_def quicksort.simps)
qed

definition ordered_for :: "('a \<Rightarrow> 'k \<Rightarrow> int) \<Rightarrow> 'k \<Rightarrow> 'a list \<Rightarrow> bool" where
  "ordered_for cmp key xs \<longleftrightarrow>
     sorted_wrt (\<lambda>x y. (0 < cmp x key \<longrightarrow> 0 < cmp y key) \<and> (cmp y key < 0 \<longrightarrow> cmp x key < 0)) xs"

definition bsearch_result :: "('a \<Rightarrow> 'k \<Rightarrow> int) \<Rightarrow> 'k \<Rightarrow> 'a list \<Rightarrow> int option \<Rightarrow> int \<Rightarrow> bool" where
  "bsearch_result cmp key xs r ind \<longleftrightarrow>
     (case r of
        Some c \<Rightarrow> 0 \<le> c \<and> c < int (length xs) \<and> cmp (at xs c) key = 0 \<and> ind = c
      | None \<Rightarrow> - 1 \<le> ind \<and> ind < int (length xs) \<and>
          (\<forall>k. 0 \<le> k \<and> k \<le> ind \<longrightarrow> cmp (at xs k) key < 0) \<and>
          (\<forall>k. ind < k \<and> k < int (length xs) \<longrightarrow> 0 < cmp (at xs k) key))"

lemma bsearch_loop_ok:
  assumes ord: "ordered_for cmp key xs" and len: "length xs \<le> 16384"
    and "0 \<le> a" "a \<le> b + 1" "b < int (length xs)"
    and "\<forall>k. 0 \<le> k \<and> k < a \<longrightarrow> cmp (at xs k) key < 0"
    and "\<forall>k. b < k \<and> k < int (length xs) \<longrightarrow> 0 < cmp (at xs k) key"
  shows "\<exists>r ind. bsearch_loop cmp key xs a b = Some (r, ind) \<and> bsearch_result cmp key xs r ind"
  using assms(3-7)
proof (induction "nat (b - a + 1)" arbitrary: a b rule: less_induct)
  case less
  show ?case
  proof (cases "a \<le> b")
    case False
    then have "bsearch_loop cmp key xs a b = Some (None, b)" and "a = b + 1"
      using less.prems by (simp_all add: bsearch_loop.simps[of cmp key xs a b])
    then show ?thesis using less.prems by (auto simp: bsearch_result_def)
  next
    case True
    let ?c = "(a + b) div 2"
    have c: "wrap16 (a + b) div 2 = ?c" "a \<le> ?c" "?c \<le> b" "0 \<le> ?c" "?c < int (length xs)"
      using True less.prems len by (auto simp: wrap16_in)
    have r: "rd xs ?c = Some (at xs ?c)" using c by (simp add: rd_in)
    have mono: "(0 < cmp (at xs i) key \<longrightarrow> 0 < cmp (at xs j) key) \<and> (cmp (at xs j) key < 0 \<longrightarrow> cmp (at xs i) key < 0)"
      if "0 \<le> i" "i < j" "j < int (length xs)" for i j
      using ord[unfolded ordered_for_def sorted_wrt_iff_nth_less, rule_format, of "nat i" "nat j"] that
      by simp
    have unf: "bsearch_loop cmp key xs a b =
        (if cmp (at xs ?c) key \<noteq> 0
         then (if 0 < cmp (at xs ?c) key then bsearch_loop cmp key xs a (?c - 1) else bsearch_loop cmp key xs (?c + 1) b)
         else Some (Some ?c, ?c))"
      using True r c(1) by (simp add: bsearch_loop.simps[of cmp key xs a b] Let_def)
    consider "cmp (at xs ?c) key = 0" | "0 < cmp (at xs ?c) key" | "cmp (at xs ?c) key < 0" by linarith
    then show ?thesis
    proof cases
      case 1
      then show ?thesis using unf c by (auto simp: bsearch_result_def)
    next
      case 2
      have "0 < cmp (at xs k) key" if "?c - 1 < k" "k < int (length xs)" for k
        using mono[of ?c k] 2 that c by (cases "k = ?c") auto
      then show ?thesis using unf 2 less.hyps[of "?c - 1" a] less.prems c by auto
    next
      case 3
      have "cmp (at xs k) key < 0" if "0 \<le> k" "k < ?c + 1" for k
        using mono[of k ?c] 3 that c by (cases "k = ?c") auto
      then show ?thesis using unf 3 less.hyps[of b "?c + 1"] less.prems c by auto
    qed
  qed
qed

subsection \<open>Properties\<close>

text \<open>
  C7. For any comparison function that is a total preorder and any array of up
  to 16384 records of up to 128 bytes (or of any size, when the program has
  set a buffer), \<open>qsort\<close> returns, accesses nothing outside the array and leaves
  a permutation of it in which no element compares greater than a later one.
\<close>

theorem qsort_sorts:
  assumes "comparator cmp" and "length xs \<le> 16384" and "sz \<le> 128 \<or> qbuf"
  shows "\<exists>ys. qsort qbuf sz cmp xs = Some ys \<and> mset ys = mset xs \<and> sorted_wrt (\<lambda>x y. cmp x y \<le> 0) ys"
proof -
  have "wrap16 (int (length xs) - 1) = int (length xs) - 1"
    using assms(2) by (simp add: wrap16_def)
  then have e: "qsort qbuf sz cmp xs = quicksort cmp xs 0 (int (length xs) - 1)"
    using assms(3) by (auto simp: qsort_def)
  from quicksort_ok[OF assms(1), of 0 "int (length xs) - 1" xs] assms(2) obtain ys where
    "quicksort cmp xs 0 (int (length xs) - 1) = Some ys" "sorts cmp 0 (int (length xs) - 1) xs ys" by auto
  then show ?thesis using e sorted_between_all[of cmp ys] by (auto simp: sorts_def rearranged_def)
qed


lemma qsort_sorts_witness:
  "\<exists>ys. qsort False 2 (strcmp True) [''pear'', ''fig'', ''apple'', ''fig''] = Some ys \<and>
    mset ys = mset [''pear'', ''fig'', ''apple'', ''fig''] \<and> sorted_wrt (\<lambda>x y. strcmp True x y \<le> 0) ys"
  by (rule qsort_sorts[OF strcmp.comparator_axioms]) simp_all

text \<open>
  C27. On an array of up to 16384 elements that is ordered for the key,
  \<open>bsearch\<close> returns; it finds an element equal to the key when there is one and
  otherwise leaves in \<open>_bsearch\<close> the index of the last element below the key,
  -1 when there is none.
\<close>

theorem bsearch_finds:
  assumes "ordered_for cmp key xs" and "length xs \<le> 16384"
  shows "\<exists>r ind. bsearch cmp key xs = Some (r, ind) \<and> bsearch_result cmp key xs r ind"
  using bsearch_loop_ok[OF assms, of 0 "int (length xs) - 1"] assms(2)
  by (simp add: bsearch_def wrap16_in)

lemma bsearch_finds_witness:
  "\<exists>r ind. bsearch (\<lambda>x k. x - k) 5 [1, 3, 5, 9 :: int] = Some (r, ind) \<and>
    bsearch_result (\<lambda>x k. x - k) 5 [1, 3, 5, 9] r ind"
  by (rule bsearch_finds) (simp_all add: ordered_for_def)

end
