(* ===== verification/LibTree.thy ===== *)
theory LibTree
  imports LibBase
begin

text \<open>
  The search trees of the FUZIX C library: \<open>tsearch\<close>, \<open>tdelete\<close> and \<open>twalk\<close> of
  \<open>src/libs/tsearch.c\<close> and \<open>tfind\<close> of \<open>src/libs/tfind.c\<close>, as operations that
  follow and overwrite the links of nodes in a store.
\<close>

subsection \<open>Nodes\<close>

text \<open>
  Nodes live in a store: \<open>None\<close> is memory that is not a node, so that reading
  through a NULL or freed pointer has no result. A pointer to a node pointer,
  \<open>rootp\<close> in the code, is the variable that holds the root or one of the two
  links of a node.
\<close>

record 'k tnode =
  t_key :: 'k
  t_left :: nat
  t_right :: nat

record 'k tstore =
  nodes :: "nat \<Rightarrow> 'k tnode option"
  rootv :: nat

datatype tloc = RootL | LeftL nat | RightL nat

definition load :: "'k tstore \<Rightarrow> tloc \<Rightarrow> nat option" where
  "load s l = (case l of
     RootL \<Rightarrow> Some (rootv s)
   | LeftL a \<Rightarrow> map_option t_left (nodes s a)
   | RightL a \<Rightarrow> map_option t_right (nodes s a))"

definition store :: "tloc \<Rightarrow> nat \<Rightarrow> 'k tstore \<Rightarrow> 'k tstore option" where
  "store l v s = (case l of
     RootL \<Rightarrow> Some (s\<lparr>rootv := v\<rparr>)
   | LeftL a \<Rightarrow> map_option (\<lambda>n. s\<lparr>nodes := (nodes s)(a := Some (n\<lparr>t_left := v\<rparr>))\<rparr>) (nodes s a)
   | RightL a \<Rightarrow> map_option (\<lambda>n. s\<lparr>nodes := (nodes s)(a := Some (n\<lparr>t_right := v\<rparr>))\<rparr>) (nodes s a))"

subsection \<open>\<open>tsearch\<close> and \<open>tfind\<close>\<close>

text \<open>
  The loop ends at a link that is NULL or at a node with an equal key. \<open>q\<close> is what
  \<open>malloc\<close> returns. A caller passes NULL for \<open>rootp\<close> as \<open>None\<close>.
\<close>

partial_function (option) tsearch_loop ::
  "('k \<Rightarrow> 'k \<Rightarrow> int) \<Rightarrow> 'k \<Rightarrow> tloc \<Rightarrow> 'k tstore \<Rightarrow> (tloc + nat) option" where
  [code]: "tsearch_loop cmp key rootp s = do {
     p \<leftarrow> load s rootp;
     if p = 0 then Some (Inl rootp)
     else do {
       n \<leftarrow> nodes s p;
       let r = cmp key (t_key n);
       if r = 0 then Some (Inr p)
       else tsearch_loop cmp key (if r < 0 then LeftL p else RightL p) s
     }
   }"

definition tsearch ::
  "('k \<Rightarrow> 'k \<Rightarrow> int) \<Rightarrow> nat \<Rightarrow> 'k \<Rightarrow> tloc option \<Rightarrow> 'k tstore \<Rightarrow> (nat \<times> 'k tstore) option" where
  "tsearch cmp q key rootp s =
     (case rootp of
        None \<Rightarrow> Some (0, s)
      | Some loc \<Rightarrow> do {
          found \<leftarrow> tsearch_loop cmp key loc s;
          case found of
            Inr p \<Rightarrow> Some (p, s)
          | Inl loc' \<Rightarrow>
              if q = 0 then Some (0, s)
              else do {
                s1 \<leftarrow> store loc' q s;
                Some (q, s1\<lparr>nodes := (nodes s1)(q \<mapsto> \<lparr>t_key = key, t_left = 0, t_right = 0\<rparr>)\<rparr>)
              }
        })"

definition tfind :: "('k \<Rightarrow> 'k \<Rightarrow> int) \<Rightarrow> 'k \<Rightarrow> tloc option \<Rightarrow> 'k tstore \<Rightarrow> nat option" where
  "tfind cmp key rootp s =
     (case rootp of
        None \<Rightarrow> Some 0
      | Some loc \<Rightarrow> do {
          found \<leftarrow> tsearch_loop cmp key loc s;
          case found of Inr p \<Rightarrow> Some p | Inl _ \<Rightarrow> Some 0
        })"

subsection \<open>\<open>tdelete\<close>\<close>

text \<open>\<open>replacement\<close> is the code from \<open>D1\<close> to \<open>D3\<close>, \<open>succ_walk\<close> its inner loop.\<close>

partial_function (option) tdelete_loop ::
  "('k \<Rightarrow> 'k \<Rightarrow> int) \<Rightarrow> 'k \<Rightarrow> tloc \<Rightarrow> nat \<Rightarrow> 'k tstore \<Rightarrow> (tloc \<times> nat) option option" where
  [code]: "tdelete_loop cmp key rootp p s = do {
     d \<leftarrow> load s rootp;
     n \<leftarrow> nodes s d;
     let c = cmp key (t_key n);
     if c = 0 then Some (Some (rootp, p))
     else do {
       let next = (if c < 0 then LeftL d else RightL d);
       q \<leftarrow> load s next;
       if q = 0 then Some None else tdelete_loop cmp key next d s
     }
   }"

partial_function (option) succ_walk :: "nat \<Rightarrow> nat \<Rightarrow> 'k tstore \<Rightarrow> (nat \<times> nat) option" where
  [code]: "succ_walk r q s = do {
     n \<leftarrow> nodes s q;
     if t_left n = 0 then Some (r, q) else succ_walk q (t_left n) s
   }"

definition replacement :: "nat \<Rightarrow> 'k tstore \<Rightarrow> (nat \<times> 'k tstore) option" where
  "replacement d s = do {
     nd \<leftarrow> nodes s d;
     let r = t_right nd;
     let q = t_left nd;
     if q = 0 then Some (r, s)
     else if r = 0 then Some (q, s)
     else do {
       nr \<leftarrow> nodes s r;
       if t_left nr = 0
       then do { s1 \<leftarrow> store (LeftL r) q s; Some (r, s1) }
       else do {
         (r, q) \<leftarrow> succ_walk r (t_left nr) s;
         nq \<leftarrow> nodes s q;
         s1 \<leftarrow> store (LeftL r) (t_right nq) s;
         nd1 \<leftarrow> nodes s1 d;
         s2 \<leftarrow> store (LeftL q) (t_left nd1) s1;
         nd2 \<leftarrow> nodes s2 d;
         s3 \<leftarrow> store (RightL q) (t_right nd2) s2;
         Some (q, s3)
       }
     }
   }"

definition tdelete ::
  "('k \<Rightarrow> 'k \<Rightarrow> int) \<Rightarrow> 'k \<Rightarrow> tloc option \<Rightarrow> 'k tstore \<Rightarrow> (nat \<times> 'k tstore) option" where
  "tdelete cmp key rootp s =
     (case rootp of
        None \<Rightarrow> Some (0, s)
      | Some loc \<Rightarrow> do {
          p \<leftarrow> load s loc;
          if p = 0 then Some (0, s)
          else do {
            found \<leftarrow> tdelete_loop cmp key loc p s;
            case found of
              None \<Rightarrow> Some (0, s)
            | Some (loc', p) \<Rightarrow> do {
                d \<leftarrow> load s loc';
                (q, s1) \<leftarrow> replacement d s;
                s2 \<leftarrow> store loc' q (s1\<lparr>nodes := (nodes s1)(d := None)\<rparr>);
                Some (p, s2)
              }
          }
        })"

subsection \<open>\<open>twalk\<close>\<close>

text \<open>The calls of the action, in order; the action is taken not to change the tree.\<close>

datatype visit = Leaf_visit | Preorder | Postorder | Endorder

partial_function (option) trecurse :: "nat \<Rightarrow> nat \<Rightarrow> 'k tstore \<Rightarrow> (nat \<times> visit \<times> nat) list option" where
  [code]: "trecurse p level s = do {
     n \<leftarrow> nodes s p;
     if t_left n = 0 \<and> t_right n = 0 then Some [(p, Leaf_visit, level)]
     else do {
       ls \<leftarrow> (if t_left n \<noteq> 0 then trecurse (t_left n) (level + 1) s else Some []);
       rs \<leftarrow> (if t_right n \<noteq> 0 then trecurse (t_right n) (level + 1) s else Some []);
       Some ((p, Preorder, level) # ls @ (p, Postorder, level) # rs @ [(p, Endorder, level)])
     }
   }"

definition twalk :: "nat \<Rightarrow> 'k tstore \<Rightarrow> (nat \<times> visit \<times> nat) list option" where
  "twalk root s = (if root \<noteq> 0 then trecurse root 0 s else Some [])"

end
