(* ===== verification/TreeSpec.thy ===== *)
theory TreeSpec
  imports LibTree
begin

text \<open>
  The search trees refine a set of keys. \<open>rep\<close> relates a store to the tree of the
  addresses of its nodes, a \<open>path\<close> leads from a link down to another, and
  replacing what hangs at the end of a path replaces it in the tree
  (\<open>store_plug\<close>); insertion and deletion are two such replacements. The order of
  the keys is the contract of \<open>LibBase\<close> for comparison functions.
\<close>

fun root_of :: "nat tree \<Rightarrow> nat" where
  "root_of Leaf = 0"
| "root_of (Node l a r) = a"

primrec rep :: "(nat \<Rightarrow> 'k tnode option) \<Rightarrow> nat tree \<Rightarrow> bool" where
  "rep h Leaf = True"
| "rep h (Node l a r) =
     (a \<noteq> 0 \<and> (\<exists>k. h a = Some \<lparr>t_key = k, t_left = root_of l, t_right = root_of r\<rparr>) \<and> rep h l \<and> rep h r)"

lemma rep_cong: "(\<And>a. a \<in> set_tree t \<Longrightarrow> h' a = h a) \<Longrightarrow> rep h' t = rep h t"
  by (induction t) auto

lemma root_of_0: "rep h t \<Longrightarrow> root_of t = 0 \<longleftrightarrow> t = Leaf"
  by (cases t) auto

text \<open>A path from a location down the tree: which side was taken, at which node, past which sibling.\<close>

type_synonym path = "(bool \<times> nat \<times> nat tree) list"

fun plug :: "path \<Rightarrow> nat tree \<Rightarrow> nat tree" where
  "plug [] t = t"
| "plug ((True, a, r) # ps) t = Node (plug ps t) a r"
| "plug ((False, a, l) # ps) t = Node l a (plug ps t)"

fun loc_of :: "tloc \<Rightarrow> path \<Rightarrow> tloc" where
  "loc_of l [] = l"
| "loc_of l ((lft, a, s) # ps) = loc_of (if lft then LeftL a else RightL a) ps"

fun path_nodes :: "path \<Rightarrow> nat set" where
  "path_nodes [] = {}"
| "path_nodes ((b, a, t) # ps) = insert a (set_tree t \<union> path_nodes ps)"

fun owner :: "tloc \<Rightarrow> nat set" where
  "owner RootL = {}"
| "owner (LeftL a) = {a}"
| "owner (RightL a) = {a}"

lemma set_plug: "set_tree (plug ps t) = path_nodes ps \<union> set_tree t"
  by (induction ps t rule: plug.induct) auto

lemma root_of_plug: "ps \<noteq> [] \<Longrightarrow> root_of (plug ps t) = fst (snd (hd ps))"
  by (induction ps t rule: plug.induct) auto

lemma owner_loc_of: "owner (loc_of l ps) \<subseteq> owner l \<union> path_nodes ps"
  by (induction l ps rule: loc_of.induct) (auto split: if_splits)

lemma rep_plug: "rep h (plug ps t) \<Longrightarrow> rep h t"
  by (induction ps t rule: plug.induct) auto

lemma load_plug:
  "load s l = Some (root_of (plug ps t)) \<Longrightarrow> rep (nodes s) (plug ps t) \<Longrightarrow> load s (loc_of l ps) = Some (root_of t)"
proof (induction l ps rule: loc_of.induct)
  case (2 l lft a sib ps)
  then show ?case by (cases lft) (auto simp: load_def)
qed simp

lemma store_nodes:
  assumes "store l v s = Some s'"
  shows "\<And>a. a \<notin> owner l \<Longrightarrow> nodes s' a = nodes s a" "load s' l = Some v"
    "l \<noteq> RootL \<Longrightarrow> rootv s' = rootv s"
  using assms by (auto simp: store_def load_def split: tloc.splits)

lemma store_load_other:
  assumes "store l v s = Some s'" "l' \<noteq> l"
  shows "load s' l' = load s l'"
  using assms by (auto simp: store_def load_def split: tloc.splits if_splits)

lemma store_key:
  "store l v s = Some s' \<Longrightarrow> map_option t_key (nodes s' a) = map_option t_key (nodes s a)"
  by (auto simp: store_def split: tloc.splits)

lemma loc_of_not_root: "l \<noteq> RootL \<Longrightarrow> loc_of l ps \<noteq> RootL"
  by (induction l ps rule: loc_of.induct) auto

lemma loc_of_not_other_side:
  assumes "a \<notin> path_nodes ps"
  shows "loc_of (if lft then LeftL a else RightL a) ps \<noteq> (if lft then RightL a else LeftL a)"
proof (cases ps)
  case Nil
  then show ?thesis by simp
next
  case (Cons q qs)
  obtain b c u where q: "q = (b, c, u)" by (cases q) auto
  have "owner (loc_of (if lft then LeftL a else RightL a) ps) \<subseteq> path_nodes ps"
    using owner_loc_of[of "if b then LeftL c else RightL c" qs] Cons q by auto
  then show ?thesis using assms by (cases lft) (metis (no_types) insert_subset owner.simps subsetD)+
qed

lemma node_of_loads:
  assumes "load s (if lft then LeftL a else RightL a) = Some x" "load s (if lft then RightL a else LeftL a) = Some y"
  shows "\<exists>k. nodes s a = Some \<lparr>t_key = k, t_left = if lft then x else y, t_right = if lft then y else x\<rparr>"
proof -
  obtain n where "nodes s a = Some n" "t_left n = (if lft then x else y)" "t_right n = (if lft then y else x)"
    using assms by (cases lft) (auto simp: load_def)
  then show ?thesis by (metis tnode.surjective old.unit.exhaust)
qed

text \<open>Replacing the subtree at the end of a path replaces it in the tree.\<close>

lemma store_plug:
  assumes "rep (nodes s) (plug ps t)" "load s l = Some (root_of (plug ps t))"
    and "distinct (inorder (plug ps t))" "owner l \<inter> (set_tree (plug ps t) \<union> set_tree t') = {}"
    and "rep (nodes s1) t'" "\<And>b. b \<in> path_nodes ps \<union> owner l \<Longrightarrow> nodes s1 b = nodes s b"
    and "set_tree t' \<inter> path_nodes ps = {}"
    and "store (loc_of l ps) (root_of t') s1 = Some s2"
    and "ps = [] \<or> l \<noteq> RootL \<or> rootv s1 = rootv s"
  shows "rep (nodes s2) (plug ps t') \<and> load s2 l = Some (root_of (plug ps t'))"
  using assms
proof (induction l ps rule: loc_of.induct)
  case (1 l)
  then have "rep (nodes s2) t' = rep (nodes s1) t'"
    by (intro rep_cong) (auto dest: store_nodes(1))
  then show ?case using 1 store_nodes(2) by auto
next
  case (2 l lft a sib ps)
  let ?l = "if lft then LeftL a else RightL a" and ?o = "if lft then RightL a else LeftL a"
  have sub: "rep (nodes s) (plug ps t)" "load s ?l = Some (root_of (plug ps t))" "a \<noteq> 0"
    "load s ?o = Some (root_of sib)" "rep (nodes s) sib" "load s l = Some a"
    using 2(2,3) by (cases lft; auto simp: load_def)+
  have dis: "distinct (inorder (plug ps t))" "a \<notin> set_tree (plug ps t)" "a \<notin> set_tree sib"
    "set_tree sib \<inter> set_tree (plug ps t) = {}"
    using 2(4) by (cases lft; auto simp: set_inorder)+
  have own: "owner ?l = {a}" "?l \<noteq> RootL" by simp_all
  have st: "store (loc_of ?l ps) (root_of t') s1 = Some s2" using 2(9) by simp
  have ih: "rep (nodes s2) (plug ps t') \<and> load s2 ?l = Some (root_of (plug ps t'))"
  proof (rule 2(1)[OF sub(1,2) dis(1)])
    show "owner ?l \<inter> (set_tree (plug ps t) \<union> set_tree t') = {}" using dis 2(8) own by auto
    show "rep (nodes s1) t'" by (rule 2(6))
    show "nodes s1 b = nodes s b" if "b \<in> path_nodes ps \<union> owner ?l" for b using 2(7)[of b] that own by auto
    show "set_tree t' \<inter> path_nodes ps = {}" using 2(8) by auto
  qed (use st in auto)
  have pn: "path_nodes ps \<subseteq> set_tree (plug ps t)" by (simp add: set_plug)
  have other: "nodes s2 b = nodes s b" if "b \<in> set_tree sib \<union> owner l" for b
  proof -
    have "b \<notin> {a} \<union> path_nodes ps" using that dis pn 2(5) by (auto simp: set_plug)
    then have "nodes s2 b = nodes s1 b" using store_nodes(1)[OF st] owner_loc_of[of ?l ps] own by blast
    then show ?thesis using 2(7)[of b] that by auto
  qed
  have "rep (nodes s2) sib" using sub(5) rep_cong[of sib "nodes s2" "nodes s"] other by auto
  moreover have "a \<notin> path_nodes ps" using dis(2) pn by blast
  then have "load s2 ?o = load s1 ?o"
    by (rule store_load_other[OF st not_sym[OF loc_of_not_other_side]])
  then have "load s2 ?o = Some (root_of sib)" using 2(7)[of a] sub(4) by (cases lft) (auto simp: load_def)
  moreover have "load s2 l = Some a"
  proof (cases l)
    case RootL
    then show ?thesis using store_nodes(3)[OF st loc_of_not_root[OF own(2)]] 2(10) sub(6) by (simp add: load_def)
  qed (use other sub(6) in \<open>auto simp: load_def\<close>)
  moreover obtain k where "nodes s2 a = Some \<lparr>t_key = k, t_left = if lft then root_of (plug ps t') else root_of sib,
      t_right = if lft then root_of sib else root_of (plug ps t')\<rparr>"
    using node_of_loads[of s2 lft a] ih calculation(2) by blast
  ultimately show ?case using ih sub(3) by (cases lft) auto
qed

fun locate :: "('k \<Rightarrow> 'k \<Rightarrow> int) \<Rightarrow> 'k \<Rightarrow> (nat \<Rightarrow> 'k) \<Rightarrow> nat tree \<Rightarrow> path \<times> nat tree" where
  "locate cmp key kf Leaf = ([], Leaf)"
| "locate cmp key kf (Node l a r) =
     (if cmp key (kf a) = 0 then ([], Node l a r)
      else if cmp key (kf a) < 0 then (let (ps, t) = locate cmp key kf l in ((True, a, r) # ps, t))
      else (let (ps, t) = locate cmp key kf r in ((False, a, l) # ps, t)))"

lemma locate_plug: "locate cmp key kf t = (ps, u) \<Longrightarrow> plug ps u = t"
  by (induction t arbitrary: ps u) (auto split: if_splits prod.splits)

definition key_at :: "'k tstore \<Rightarrow> nat \<Rightarrow> 'k" where
  "key_at s a = t_key (the (nodes s a))"

lemma tsearch_loop_locate:
  assumes "rep (nodes s) t" "load s l = Some (root_of t)"
  shows "tsearch_loop cmp key l s =
    (case locate cmp key (key_at s) t of (ps, Leaf) \<Rightarrow> Some (Inl (loc_of l ps)) | (ps, Node _ a _) \<Rightarrow> Some (Inr a))"
  using assms
proof (induction t arbitrary: l)
  case Leaf
  then show ?case by (subst tsearch_loop.simps) simp
next
  case (Node tl a tr)
  then obtain k where k: "nodes s a = Some \<lparr>t_key = k, t_left = root_of tl, t_right = root_of tr\<rparr>" "a \<noteq> 0" by auto
  then have "load s (LeftL a) = Some (root_of tl)" "load s (RightL a) = Some (root_of tr)" "key_at s a = k"
    by (simp_all add: load_def key_at_def)
  with Node k show ?case
    by (subst tsearch_loop.simps) (auto simp: Let_def split: prod.splits tree.splits)
qed

fun parent :: "nat \<Rightarrow> path \<Rightarrow> nat" where
  "parent p [] = p"
| "parent p ((b, a, t) # ps) = parent a ps"

lemma tdelete_loop_locate:
  assumes "rep (nodes s) t" "load s l = Some (root_of t)" "t \<noteq> Leaf"
  shows "tdelete_loop cmp key l p s =
    Some (case locate cmp key (key_at s) t of (ps, Leaf) \<Rightarrow> None | (ps, Node _ a _) \<Rightarrow> Some (loc_of l ps, parent p ps))"
  using assms
proof (induction t arbitrary: l p)
  case Leaf
  then show ?case by simp
next
  case (Node tl a tr)
  then obtain k where k: "nodes s a = Some \<lparr>t_key = k, t_left = root_of tl, t_right = root_of tr\<rparr>" "a \<noteq> 0" by auto
  then have "load s (LeftL a) = Some (root_of tl)" "load s (RightL a) = Some (root_of tr)" "key_at s a = k"
    by (simp_all add: load_def key_at_def)
  moreover have "root_of tl = 0 \<longleftrightarrow> tl = Leaf" "root_of tr = 0 \<longleftrightarrow> tr = Leaf"
    using Node.prems(1) by (auto simp: root_of_0)
  ultimately show ?case using Node k
    by (subst tdelete_loop.simps) (auto simp: Let_def split: prod.splits tree.splits)
qed

fun lefts :: "path \<Rightarrow> nat list" where
  "lefts [] = []"
| "lefts ((b, a, t) # ps) = (if b then lefts ps else inorder t @ a # lefts ps)"

fun rights :: "path \<Rightarrow> nat list" where
  "rights [] = []"
| "rights ((b, a, t) # ps) = (if b then rights ps @ a # inorder t else rights ps)"

lemma inorder_plug: "inorder (plug ps t) = lefts ps @ inorder t @ rights ps"
  by (induction ps t rule: plug.induct) auto

lemma path_nodes_sides: "path_nodes ps = set (lefts ps) \<union> set (rights ps)"
  by (induction ps) (auto split: if_splits)

definition in_order :: "('k \<Rightarrow> 'k \<Rightarrow> int) \<Rightarrow> (nat \<Rightarrow> 'k) \<Rightarrow> nat list \<Rightarrow> bool" where
  "in_order cmp kf as \<longleftrightarrow> sorted_wrt (\<lambda>a b. cmp (kf a) (kf b) < 0) as"

lemma in_order_simps [simp]:
  "in_order cmp kf []"
  "in_order cmp kf (a # as) \<longleftrightarrow> (\<forall>b\<in>set as. cmp (kf a) (kf b) < 0) \<and> in_order cmp kf as"
  "in_order cmp kf (as @ bs) \<longleftrightarrow>
     in_order cmp kf as \<and> in_order cmp kf bs \<and> (\<forall>a\<in>set as. \<forall>b\<in>set bs. cmp (kf a) (kf b) < 0)"
  by (auto simp: in_order_def sorted_wrt_append)

lemma in_order_distinct: "comparator cmp \<Longrightarrow> in_order cmp kf as \<Longrightarrow> distinct as"
  by (induction as) (auto dest!: bspec simp: comparator.same)

lemma in_order_cong: "(\<And>a. a \<in> set as \<Longrightarrow> kf a = kg a) \<Longrightarrow> in_order cmp kf as = in_order cmp kg as"
  by (induction as) auto

lemma locate_sides:
  assumes pre: "comparator cmp" and "in_order cmp kf (inorder t)" "locate cmp key kf t = (ps, u)"
  shows "(\<forall>a\<in>set (lefts ps). cmp (kf a) key < 0) \<and> (\<forall>a\<in>set (rights ps). cmp key (kf a) < 0)"
  using assms(2,3)
proof (induction t arbitrary: ps u)
  case (Node l a r)
  consider "cmp key (kf a) = 0" | "cmp key (kf a) < 0" | "0 < cmp key (kf a)" by linarith
  then show ?case
  proof cases
    case 1
    then show ?thesis using Node.prems by auto
  next
    case 2
    then obtain qs where "locate cmp key kf l = (qs, u)" "ps = (True, a, r) # qs"
      using Node.prems by (auto split: prod.splits)
    then show ?thesis using Node 2 comparator.less_trans[OF pre] by auto
  next
    case 3
    then obtain qs where "locate cmp key kf r = (qs, u)" "ps = (False, a, l) # qs"
      using Node.prems by (auto split: prod.splits)
    moreover have "cmp (kf a) key < 0" using 3 by (simp add: comparator.flip[OF pre])
    ultimately show ?thesis using Node comparator.less_trans[OF pre] by auto
  qed
qed simp

lemma locate_hit: "locate cmp key kf t = (ps, Node l a r) \<Longrightarrow> cmp key (kf a) = 0"
  by (induction t arbitrary: ps) (auto split: if_splits prod.splits)

lemma locate_miss: "locate cmp key kf t = (ps, u) \<Longrightarrow> u = Leaf \<or> (\<exists>l a r. u = Node l a r \<and> cmp key (kf a) = 0)"
  by (cases u) (auto dest: locate_hit)

definition search_tree :: "('k \<Rightarrow> 'k \<Rightarrow> int) \<Rightarrow> 'k tstore \<Rightarrow> nat tree \<Rightarrow> bool" where
  "search_tree cmp s t \<longleftrightarrow> rep (nodes s) t \<and> rootv s = root_of t \<and> in_order cmp (key_at s) (inorder t)"

definition contents :: "'k tstore \<Rightarrow> nat tree \<Rightarrow> 'k set" where
  "contents s t = key_at s ` set_tree t"

lemma rep_live: "rep h t \<Longrightarrow> a \<in> set_tree t \<Longrightarrow> h a \<noteq> None \<and> a \<noteq> 0"
  by (induction t) auto

lemma store_frame:
  assumes "store l v s = Some s'" "q \<notin> owner l"
  shows "store l v (s\<lparr>nodes := (nodes s)(q := x)\<rparr>) = Some (s'\<lparr>nodes := (nodes s')(q := x)\<rparr>)"
  using assms by (auto simp: store_def fun_upd_twist split: tloc.splits)

lemma store_live:
  assumes "load s l = Some w" shows "\<exists>s'. store l v s = Some s'"
  using assms by (auto simp: store_def load_def split: tloc.splits)

lemma key_at_store: "store l v s = Some s' \<Longrightarrow> key_at s' a = key_at s a"
  using store_key[of l v s s' a] by (cases "nodes s a"; cases "nodes s' a") (auto simp: key_at_def)

lemma tsearch_hit:
  assumes st: "search_tree cmp s t" and cmp: "comparator cmp" and k: "k \<in> contents s t" "cmp key k = 0"
  obtains p where "tsearch_loop cmp key RootL s = Some (Inr p)" "p \<in> set_tree t" "cmp key (key_at s p) = 0"
proof -
  obtain ps u where l: "locate cmp key (key_at s) t = (ps, u)" by fastforce
  have rep: "rep (nodes s) t" "load s RootL = Some (root_of t)" using st by (simp_all add: search_tree_def load_def)
  note loop = tsearch_loop_locate[OF rep, of cmp key]
  have pl: "plug ps u = t" using locate_plug[OF l] .
  obtain a where a: "a \<in> set_tree t" "key_at s a = k" using k by (auto simp: contents_def)
  have "in_order cmp (key_at s) (inorder t)" using st by (simp add: search_tree_def)
  from locate_sides[OF cmp this l] a k(2) have "a \<notin> set (lefts ps)" "a \<notin> set (rights ps)"
    using comparator.flip[OF cmp, of key k] by auto
  then have "u \<noteq> Leaf" using a pl set_plug[of ps u] by (auto simp: path_nodes_sides)
  then obtain tl p tr where u: "u = Node tl p tr" by (cases u) auto
  then show thesis
    using that[of p] loop l locate_hit[of cmp key "key_at s" t ps tl p tr] pl set_plug[of ps u] by auto
qed

lemma tsearch_miss:
  assumes st: "search_tree cmp s t" and cmp: "comparator cmp" and none: "\<forall>k\<in>contents s t. cmp key k \<noteq> 0"
  obtains ps where "tsearch_loop cmp key RootL s = Some (Inl (loc_of RootL ps))" "plug ps Leaf = t"
    "\<forall>a\<in>set (lefts ps). cmp (key_at s a) key < 0" "\<forall>a\<in>set (rights ps). cmp key (key_at s a) < 0"
proof -
  obtain ps u where l: "locate cmp key (key_at s) t = (ps, u)" by fastforce
  have rep: "rep (nodes s) t" "load s RootL = Some (root_of t)" using st by (simp_all add: search_tree_def load_def)
  note loop = tsearch_loop_locate[OF rep, of cmp key]
  have pl: "plug ps u = t" using locate_plug[OF l] .
  have "u = Leaf"
    using locate_miss[OF l] none set_plug[of ps u] pl by (auto simp: contents_def)
  moreover have "in_order cmp (key_at s) (inorder t)" using st by (simp add: search_tree_def)
  ultimately show thesis using that loop l pl locate_sides[OF cmp _ l] by auto
qed

lemma in_order_insert:
  assumes "in_order cmp kf (as @ bs)" "\<And>a. a \<in> set as \<union> set bs \<Longrightarrow> kg a = kf a"
    and "\<forall>a\<in>set as. cmp (kf a) (kg q) < 0" "\<forall>b\<in>set bs. cmp (kg q) (kf b) < 0"
  shows "in_order cmp kg (as @ q # bs)"
  using assms in_order_cong[of as kg kf cmp] in_order_cong[of bs kg kf cmp] by simp

text \<open>Linking a fresh leaf at the end of a path.\<close>

lemma link_leaf:
  assumes rep: "rep (nodes s) (plug ps Leaf)" and rt: "rootv s = root_of (plug ps Leaf)"
    and dis: "distinct (inorder (plug ps Leaf))" and q: "q \<noteq> 0" "nodes s q = None"
  obtains s2 s' where "store (loc_of RootL ps) q s = Some s2"
    "s' = s2\<lparr>nodes := (nodes s2)(q \<mapsto> \<lparr>t_key = key, t_left = 0, t_right = 0\<rparr>)\<rparr>"
    "rep (nodes s') (plug ps (Node Leaf q Leaf))" "rootv s' = root_of (plug ps (Node Leaf q Leaf))"
    "\<And>a. key_at s' a = (if a = q then key else key_at s a)"
proof -
  have fresh: "q \<notin> set_tree (plug ps Leaf)" using rep_live[OF rep] q by blast
  have pn: "path_nodes ps \<subseteq> set_tree (plug ps Leaf)" by (simp add: set_plug)
  then have qo: "q \<notin> owner (loc_of RootL ps)" using owner_loc_of[of RootL ps] fresh by auto
  have rt': "load s RootL = Some (root_of (plug ps Leaf))" using rt by (simp add: load_def)
  then have "load s (loc_of RootL ps) = Some 0" using load_plug[of s RootL ps Leaf] rep by simp
  then obtain s2 where s2: "store (loc_of RootL ps) q s = Some s2" using store_live by blast
  let ?leaf = "\<lparr>t_key = key, t_left = 0, t_right = 0\<rparr>"
  let ?s1 = "s\<lparr>nodes := (nodes s)(q := Some ?leaf)\<rparr>"
  let ?s' = "s2\<lparr>nodes := (nodes s2)(q := Some ?leaf)\<rparr>"
  let ?new = "Node Leaf q Leaf"
  have st': "store (loc_of RootL ps) q ?s1 = Some ?s'" using store_frame[OF s2 qo] .
  have "rep (nodes ?s') (plug ps ?new) \<and> load ?s' RootL = Some (root_of (plug ps ?new))"
  proof (rule store_plug[where s = s and ?s1.0 = ?s1 and t = Leaf])
    show "rep (nodes ?s1) ?new" using q by simp
    show "nodes ?s1 b = nodes s b" if "b \<in> path_nodes ps \<union> owner RootL" for b
      using that fresh pn by auto
    show "set_tree ?new \<inter> path_nodes ps = {}" using fresh pn by auto
  qed (use st' rep rt' dis in auto)
  moreover have "key_at ?s' a = (if a = q then key else key_at s a)" for a
    using key_at_store[OF s2, of a] by (simp add: key_at_def)
  ultimately show thesis using that[OF s2 refl] by (simp add: load_def)
qed

lemma tsearch_ok:
  assumes st: "search_tree cmp s t" and cmp: "comparator cmp" and q: "q \<noteq> 0" "nodes s q = None"
  shows "\<exists>p s' t'. tsearch cmp q key (Some RootL) s = Some (p, s') \<and> search_tree cmp s' t' \<and>
    p \<in> set_tree t' \<and> cmp key (key_at s' p) = 0 \<and>
    (if \<exists>k\<in>contents s t. cmp key k = 0 then s' = s \<and> t' = t
     else p = q \<and> key_at s' p = key \<and> contents s' t' = insert key (contents s t))"
proof (cases "\<exists>k\<in>contents s t. cmp key k = 0")
  case True
  then obtain k where "k \<in> contents s t" "cmp key k = 0" by blast
  from tsearch_hit[OF st cmp this] obtain p where
    "tsearch_loop cmp key RootL s = Some (Inr p)" "p \<in> set_tree t" "cmp key (key_at s p) = 0" .
  then show ?thesis using st True by (auto simp: tsearch_def)
next
  case False
  then have "\<forall>k\<in>contents s t. cmp key k \<noteq> 0" by blast
  from tsearch_miss[OF st cmp this] obtain ps where
    l: "tsearch_loop cmp key RootL s = Some (Inl (loc_of RootL ps))" "plug ps Leaf = t"
      "\<forall>a\<in>set (lefts ps). cmp (key_at s a) key < 0" "\<forall>a\<in>set (rights ps). cmp key (key_at s a) < 0" .
  have rep: "rep (nodes s) (plug ps Leaf)" "rootv s = root_of (plug ps Leaf)"
    and ord: "in_order cmp (key_at s) (lefts ps @ rights ps)"
    using st l(2) inorder_plug[of ps Leaf] by (auto simp: search_tree_def)
  have "distinct (inorder (plug ps Leaf))" using in_order_distinct[OF cmp ord] by (simp add: inorder_plug)
  from link_leaf[OF rep this q, of key] obtain s2 s' where
    s2: "store (loc_of RootL ps) q s = Some s2"
      "s' = s2\<lparr>nodes := (nodes s2)(q \<mapsto> \<lparr>t_key = key, t_left = 0, t_right = 0\<rparr>)\<rparr>"
    and new': "rep (nodes s') (plug ps (Node Leaf q Leaf))" "rootv s' = root_of (plug ps (Node Leaf q Leaf))"
    and kf: "\<And>a. key_at s' a = (if a = q then key else key_at s a)" by blast
  have fresh: "q \<notin> set_tree t" using rep_live[OF rep(1)] q l(2) by blast
  have mem: "set_tree (plug ps (Node Leaf q Leaf)) = insert q (set_tree t)" and
    sides: "set (lefts ps) \<union> set (rights ps) = set_tree t"
    using set_plug[of ps "Node Leaf q Leaf"] set_plug[of ps Leaf] l(2) by (auto simp: path_nodes_sides)
  have "in_order cmp (key_at s') (lefts ps @ q # rights ps)"
    using l(3,4) kf sides fresh by (intro in_order_insert[OF ord]) auto
  then have tree: "search_tree cmp s' (plug ps (Node Leaf q Leaf))"
    using new' by (simp add: search_tree_def inorder_plug)
  have "contents s' (plug ps (Node Leaf q Leaf)) = insert key (contents s t)"
    using fresh kf by (auto simp: contents_def mem image_iff)
  moreover have "cmp key key = 0"
    using comparator.same[OF cmp, of key] by simp
  moreover have "tsearch cmp q key (Some RootL) s = Some (q, s')"
    using l(1) q s2 by (simp add: tsearch_def)
  ultimately show ?thesis using tree mem kf[of q] False
    by (intro exI[of _ q] exI[of _ s'] exI[of _ "plug ps (Node Leaf q Leaf)"]) auto
qed

fun split_min :: "nat tree \<Rightarrow> nat \<times> nat tree" where
  "split_min Leaf = (0, Leaf)"
| "split_min (Node l a r) = (if l = Leaf then (a, r) else (let (m, l') = split_min l in (m, Node l' a r)))"

definition joined :: "nat tree \<Rightarrow> nat tree \<Rightarrow> nat tree" where
  "joined l r = (if l = Leaf then r else if r = Leaf then l else (let (m, r') = split_min r in Node l m r'))"

lemma split_min_inorder: "t \<noteq> Leaf \<Longrightarrow> split_min t = (m, t') \<Longrightarrow> m # inorder t' = inorder t"
  by (induction t arbitrary: m t') (auto split: if_splits prod.splits)

lemma joined_inorder: "inorder (joined l r) = inorder l @ inorder r"
  using split_min_inorder[of r] by (auto simp: joined_def split: prod.splits)

lemma succ_walk_spine:
  assumes "rep (nodes s) t" "t \<noteq> Leaf"
  obtains ps q qr where "t = plug ps (Node Leaf q qr)" "succ_walk r (root_of t) s = Some (parent r ps, q)"
    "loc_of (LeftL r) ps = LeftL (parent r ps)" "split_min t = (q, plug ps qr)"
  using assms
proof (induction t arbitrary: r thesis)
  case (Node tl a tr)
  then obtain k where k: "nodes s a = Some \<lparr>t_key = k, t_left = root_of tl, t_right = root_of tr\<rparr>" by auto
  show ?case
  proof (cases "tl = Leaf")
    case True
    then have "succ_walk r a s = Some (r, a)" using k by (subst succ_walk.simps) simp
    then show ?thesis using Node.prems(1)[of "[]" a tr] True by simp
  next
    case False
    then have ne: "root_of tl \<noteq> 0" using Node.prems(2) root_of_0[of "nodes s" tl] by auto
    from Node.IH(1)[of a] Node.prems(2) False obtain ps q qr where
      i: "tl = plug ps (Node Leaf q qr)" "succ_walk a (root_of tl) s = Some (parent a ps, q)"
        "loc_of (LeftL a) ps = LeftL (parent a ps)" "split_min tl = (q, plug ps qr)" by auto
    have "succ_walk r a s = succ_walk a (root_of tl) s" using k ne by (subst succ_walk.simps) simp
    then show ?thesis using Node.prems(1)[of "(True, a, tr) # ps" q qr] i False by simp
  qed
qed simp

text \<open>A state after writing links of the nodes in a set \<open>M\<close> only.\<close>

definition relinked :: "nat set \<Rightarrow> 'k tstore \<Rightarrow> 'k tstore \<Rightarrow> bool" where
  "relinked M s s' \<longleftrightarrow> rootv s' = rootv s \<and> (\<forall>b. b \<notin> M \<longrightarrow> nodes s' b = nodes s b) \<and>
     (\<forall>b. key_at s' b = key_at s b)"

lemma relinked_refl: "relinked M s s"
  by (simp add: relinked_def)

lemma relinked_trans: "relinked M s s1 \<Longrightarrow> relinked M s1 s2 \<Longrightarrow> relinked M s s2"
  by (simp add: relinked_def)

lemma store_relinked:
  assumes "store l v s = Some s'" "l \<noteq> RootL" "owner l \<subseteq> M"
  shows "relinked M s s'"
  using store_nodes[OF assms(1)] key_at_store[OF assms(1)] assms(2,3) unfolding relinked_def by blast

lemma rep_relinked: "relinked M s s' \<Longrightarrow> M \<inter> set_tree t = {} \<Longrightarrow> rep (nodes s') t = rep (nodes s) t"
  by (rule rep_cong) (auto simp: relinked_def)

lemma relink_both:
  assumes "nodes s q = Some \<lparr>t_key = k, t_left = x, t_right = y\<rparr>"
  obtains s1 s2 where "store (LeftL q) x' s = Some s1" "store (RightL q) y' s1 = Some s2"
    "nodes s2 q = Some \<lparr>t_key = k, t_left = x', t_right = y'\<rparr>" "relinked {q} s s1" "relinked {q} s s2"
proof -
  obtain s1 where s1: "store (LeftL q) x' s = Some s1"
    using store_live[of s "LeftL q"] assms by (auto simp: load_def)
  then have q1: "nodes s1 q = Some \<lparr>t_key = k, t_left = x', t_right = y\<rparr>"
    using assms by (auto simp: store_def)
  obtain s2 where s2: "store (RightL q) y' s1 = Some s2"
    using store_live[of s1 "RightL q"] q1 by (auto simp: load_def)
  have "relinked {q} s s1" "relinked {q} s1 s2" by (rule store_relinked[OF s1] store_relinked[OF s2]; auto)+
  then show thesis using that[OF s1 s2] relinked_trans[of "{q}" s s1 s2] s2 q1 by (auto simp: store_def)
qed

lemma move_up_successor:
  assumes rep: "rep (nodes s) (Node l d (Node rl a rr))" and dis: "distinct (inorder (Node l d (Node rl a rr)))"
    and rl: "rl = plug ps (Node Leaf q qr)" and spine: "loc_of (LeftL a) ps = LeftL (parent a ps)"
  shows "\<exists>nq s1 nd s2 s3. nodes s q = Some nq \<and> store (LeftL (parent a ps)) (t_right nq) s = Some s1 \<and>
    nodes s d = Some nd \<and> nodes s1 d = Some nd \<and> store (LeftL q) (t_left nd) s1 = Some s2 \<and> nodes s2 d = Some nd \<and>
    store (RightL q) (t_right nd) s2 = Some s3 \<and>
    rep (nodes s3) (Node l q (Node (plug ps qr) a rr)) \<and>
    relinked (set_tree (Node rl a rr)) s s3"
proof -
  let ?r = "Node rl a rr" and ?r' = "Node (plug ps qr) a rr" and ?ps = "(True, a, rr) # ps"
  have r: "?r = plug ?ps (Node Leaf q qr)" "?r' = plug ?ps qr" using rl by simp_all
  have setr: "set_tree ?r = path_nodes ?ps \<union> insert q (set_tree qr)" "set_tree ?r' = path_nodes ?ps \<union> set_tree qr"
    unfolding r set_plug by auto
  have d: "d \<notin> set_tree ?r" "d \<notin> set_tree l" "set_tree l \<inter> set_tree ?r = {}" "distinct (inorder ?r)"
    using dis by (auto simp: set_inorder)
  have q: "q \<notin> path_nodes ?ps" "q \<notin> set_tree qr" "set_tree qr \<inter> path_nodes ?ps = {}"
    using d(4) unfolding r(1) inorder_plug by (auto simp: path_nodes_sides set_inorder)
  have "rep (nodes s) (Node Leaf q qr)" using rep rep_plug[of "nodes s" ?ps "Node Leaf q qr"] r by simp
  then obtain k where nq: "nodes s q = Some \<lparr>t_key = k, t_left = 0, t_right = root_of qr\<rparr>" "q \<noteq> 0" and rqr: "rep (nodes s) qr"
    by auto
  obtain kd where nd: "nodes s d = Some \<lparr>t_key = kd, t_left = root_of l, t_right = a\<rparr>" and rr: "rep (nodes s) ?r" and rl': "rep (nodes s) l"
    using rep by auto
  have ld: "load s (RightL d) = Some (root_of (plug ?ps (Node Leaf q qr)))" using nd by (simp add: load_def)
  have loc: "loc_of (RightL d) ?ps = LeftL (parent a ps)" using spine by simp
  have "load s (LeftL (parent a ps)) = Some q"
    using load_plug[OF ld] rr r(1) loc by simp
  then obtain s1 where s1: "store (LeftL (parent a ps)) (root_of qr) s = Some s1" using store_live by blast
  have own: "owner (LeftL (parent a ps)) \<subseteq> path_nodes ?ps"
    using owner_loc_of[of "LeftL a" ps] spine by auto
  have rel1: "relinked (path_nodes ?ps) s s1" by (rule store_relinked[OF s1]) (use own in auto)
  have "rep (nodes s1) (plug ?ps qr) \<and> load s1 (RightL d) = Some (root_of (plug ?ps qr))"
  proof (rule store_plug[where s = s and ?s1.0 = s and t = "Node Leaf q qr"])
    show "rep (nodes s) (plug ?ps (Node Leaf q qr))" using rr r(1) by metis
    show "distinct (inorder (plug ?ps (Node Leaf q qr)))" using d(4) r(1) by metis
    show "owner (RightL d) \<inter> (set_tree (plug ?ps (Node Leaf q qr)) \<union> set_tree qr) = {}"
      using d(1) setr(1) r(1) by (metis UnE Un_insert_left disjoint_iff insertE insert_iff owner.simps(3) singletonD UnCI)
    show "store (loc_of (RightL d) ?ps) (root_of qr) s = Some s1" using s1 loc by simp
  qed (use ld rqr q in auto)
  then have rep1: "rep (nodes s1) ?r'" using r(2) by metis
  have n1: "nodes s1 q = nodes s q" "nodes s1 d = nodes s d"
    using rel1 q(1) d(1) setr(1) unfolding relinked_def by blast+
  have dq: "d \<noteq> q" using d(1) setr(1) by auto
  from nq n1 relink_both[of s1 q k 0 "root_of qr" "root_of l" a] obtain s2 s3 where
    s23: "store (LeftL q) (root_of l) s1 = Some s2" "store (RightL q) a s2 = Some s3"
      "nodes s3 q = Some \<lparr>t_key = k, t_left = root_of l, t_right = a\<rparr>" and rel2: "relinked {q} s1 s2" "relinked {q} s1 s3"
    by auto
  have rep3: "rep (nodes s3) ?r'" "rep (nodes s3) l"
    using rep_relinked[OF rel2(2), of ?r'] rep_relinked[OF rel2(2), of l] rep_relinked[OF rel1, of l] rep1 rl' q setr d(3)
    by auto
  have rel: "relinked (set_tree ?r) s s3"
    using rel1 rel2(2) setr(1) unfolding relinked_def by auto
  have "nodes s2 d = nodes s1 d" using rel2(1) dq by (simp add: relinked_def)
  then show ?thesis
    using nq nd s1 s23 n1 rep3 rel by (auto intro!: exI[of _ s1] exI[of _ s2] exI[of _ s3])
qed

lemma replacement_ok:
  assumes rep: "rep (nodes s) (Node l d r)" and dis: "distinct (inorder (Node l d r))"
  obtains s1 where "replacement d s = Some (root_of (joined l r), s1)" "rep (nodes s1) (joined l r)"
    "relinked (set_tree r) s s1"
proof -
  obtain kd where nd: "nodes s d = Some \<lparr>t_key = kd, t_left = root_of l, t_right = root_of r\<rparr>" using rep by auto
  have z: "root_of l = 0 \<longleftrightarrow> l = Leaf" "root_of r = 0 \<longleftrightarrow> r = Leaf" using rep by (auto simp: root_of_0)
  consider "l = Leaf" | "l \<noteq> Leaf" "r = Leaf" | a rr where "l \<noteq> Leaf" "r = Node Leaf a rr"
    | rl a rr where "l \<noteq> Leaf" "r = Node rl a rr" "rl \<noteq> Leaf"
    by (metis tree.exhaust)
  then show thesis
  proof cases
    case 1
    then show ?thesis using that[of s] nd rep by (simp add: replacement_def joined_def relinked_refl)
  next
    case 2
    then show ?thesis using that[of s] nd rep z by (simp add: replacement_def joined_def relinked_refl)
  next
    case 3
    then obtain k where na: "nodes s a = Some \<lparr>t_key = k, t_left = 0, t_right = root_of rr\<rparr>" "a \<noteq> 0" using rep by auto
    obtain s1 where s1: "store (LeftL a) (root_of l) s = Some s1"
      using store_live[of s "LeftL a"] na by (auto simp: load_def)
    have rel: "relinked {a} s s1" by (rule store_relinked[OF s1]) auto
    have "nodes s1 a = Some \<lparr>t_key = k, t_left = root_of l, t_right = root_of rr\<rparr>"
      using s1 na by (auto simp: store_def)
    moreover have "rep (nodes s1) l" "rep (nodes s1) rr"
      using rep_relinked[OF rel, of l] rep_relinked[OF rel, of rr] rep dis 3 by (auto simp: set_inorder)
    moreover have "relinked (set_tree r) s s1" using rel 3 by (auto simp: relinked_def)
    ultimately show ?thesis
      using that[of s1] nd na s1 z 3 by (simp add: replacement_def joined_def Let_def)
  next
    case 4
    obtain k where na: "nodes s a = Some \<lparr>t_key = k, t_left = root_of rl, t_right = root_of rr\<rparr>" "a \<noteq> 0"
      and rrl: "rep (nodes s) rl" using rep 4 by auto
    have zl: "root_of rl \<noteq> 0" using root_of_0[OF rrl] 4 by simp
    from succ_walk_spine[OF rrl 4(3), of a] obtain ps q qr where
      w: "rl = plug ps (Node Leaf q qr)" "succ_walk a (root_of rl) s = Some (parent a ps, q)"
        "loc_of (LeftL a) ps = LeftL (parent a ps)" "split_min rl = (q, plug ps qr)" .
    from move_up_successor[OF _ _ w(1,3), of s l d rr] rep dis 4 obtain nq s1 nd' s2 s3 where
      m: "nodes s q = Some nq" "store (LeftL (parent a ps)) (t_right nq) s = Some s1"
        "nodes s d = Some nd'" "nodes s1 d = Some nd'" "store (LeftL q) (t_left nd') s1 = Some s2"
        "nodes s2 d = Some nd'" "store (RightL q) (t_right nd') s2 = Some s3"
        "rep (nodes s3) (Node l q (Node (plug ps qr) a rr))" "relinked (set_tree (Node rl a rr)) s s3"
      by blast
    have "joined l r = Node l q (Node (plug ps qr) a rr)" using 4 w(4) by (simp add: joined_def)
    then show ?thesis
      using that[of s3] nd na z zl w(2) m 4 by (simp add: replacement_def Let_def)
  qed
qed

lemma unlink_node:
  assumes rep: "rep (nodes s) t" and rt: "rootv s = root_of t" and dis: "distinct (inorder t)"
    and pl: "plug ps (Node l d r) = t"
  obtains s1 s2 where "load s (loc_of RootL ps) = Some d"
    "replacement d s = Some (root_of (joined l r), s1)"
    "store (loc_of RootL ps) (root_of (joined l r)) (s1\<lparr>nodes := (nodes s1)(d := None)\<rparr>) = Some s2"
    "rep (nodes s2) (plug ps (joined l r))" "rootv s2 = root_of (plug ps (joined l r))"
    "nodes s2 d = None" "\<And>b. b \<noteq> d \<Longrightarrow> key_at s2 b = key_at s b"
proof -
  let ?u = "Node l d r" and ?v = "joined l r"
  have rl: "load s RootL = Some (root_of (plug ps ?u))" using rt pl by (simp add: load_def)
  have rep': "rep (nodes s) (plug ps ?u)" using rep pl by simp
  have dis': "distinct (lefts ps @ inorder ?u @ rights ps)" using dis pl inorder_plug[of ps ?u] by simp
  have sets: "path_nodes ps \<inter> set_tree ?u = {}" using dis' by (auto simp: path_nodes_sides set_inorder)
  have du: "distinct (inorder ?u)" using dis' by auto
  from replacement_ok[OF rep_plug[OF rep'] du] obtain s1 where
    r: "replacement d s = Some (root_of ?v, s1)" "rep (nodes s1) ?v" "relinked (set_tree r) s s1" .
  have setv: "set_tree ?v = set_tree l \<union> set_tree r" "d \<notin> set_tree ?v"
    using joined_inorder[of l r] du by (auto simp flip: set_inorder)
  let ?s1 = "s1\<lparr>nodes := (nodes s1)(d := None)\<rparr>"
  have keep: "nodes ?s1 b = nodes s b" if "b \<in> path_nodes ps" for b
    using that sets r(3) by (auto simp: relinked_def)
  have ld: "load s (loc_of RootL ps) = Some d" using load_plug[OF rl rep'] by simp
  have own: "owner (loc_of RootL ps) \<subseteq> path_nodes ps" using owner_loc_of[of RootL ps] by simp
  have "rootv ?s1 = rootv s" using r(3) by (simp add: relinked_def)
  then have "load ?s1 (loc_of RootL ps) = Some d"
    using ld keep own by (cases "loc_of RootL ps") (auto simp: load_def)
  then obtain s2 where s2: "store (loc_of RootL ps) (root_of ?v) ?s1 = Some s2" using store_live by blast
  have "rep (nodes s2) (plug ps ?v) \<and> load s2 RootL = Some (root_of (plug ps ?v))"
  proof (rule store_plug[where s = s and ?s1.0 = ?s1 and t = ?u])
    have "rep (nodes ?s1) ?v = rep (nodes s1) ?v" by (rule rep_cong) (use setv(2) in auto)
    then show "rep (nodes ?s1) ?v" using r(2) by simp
    show "distinct (inorder (plug ps ?u))" using dis pl by simp
    show "nodes ?s1 b = nodes s b" if "b \<in> path_nodes ps \<union> owner RootL" for b using keep that by auto
    show "set_tree ?v \<inter> path_nodes ps = {}" using setv(1) sets by auto
  qed (use s2 rep' rl r(3) in \<open>auto simp: relinked_def\<close>)
  moreover have "nodes s2 d = None"
    using store_nodes(1)[OF s2, of d] own sets by auto
  moreover have "key_at s2 b = key_at s b" if "b \<noteq> d" for b
    using key_at_store[OF s2, of b] r(3) that by (simp add: relinked_def key_at_def)
  ultimately show thesis using that[OF ld r(1) s2] by (simp add: load_def)
qed

lemma parent_in: "ps \<noteq> [] \<Longrightarrow> parent p ps \<in> path_nodes ps"
  by (induction p ps rule: parent.induct) (case_tac ps; auto)+

lemma in_order_unique:
  assumes cmp: "comparator cmp" and ord: "in_order cmp f (xs @ d # ys)" and hit: "cmp key (f d) = 0"
    and a: "a \<in> set xs \<union> set ys"
  shows "cmp key (f a) \<noteq> 0"
  using ord a comparator.zero_not_less[OF cmp _ hit, of "f a"] comparator.zero_not_less[OF cmp hit, of "f a"] by auto

text \<open>The search of \<open>tdelete\<close> ends where \<open>locate\<close> does.\<close>

lemma tdelete_search:
  assumes rep: "rep (nodes s) t" and rt: "rootv s = root_of t" and l: "locate cmp key (key_at s) t = (ps, u)" and ne: "t \<noteq> Leaf"
  shows "tdelete_loop cmp key RootL p s = Some (case u of Leaf \<Rightarrow> None | Node _ a _ \<Rightarrow> Some (loc_of RootL ps, parent p ps))"
  using tdelete_loop_locate[OF rep, of RootL cmp key p] rt l ne by (simp add: load_def)

lemma tdelete_miss:
  assumes st: "search_tree cmp s t" and cmp: "comparator cmp" and l: "locate cmp key (key_at s) t = (ps, Leaf)"
  shows "tdelete cmp key (Some RootL) s = Some (0, s)" "\<forall>k\<in>contents s t. cmp key k \<noteq> 0"
proof -
  have rep: "rep (nodes s) t" and rt: "rootv s = root_of t" and ord: "in_order cmp (key_at s) (inorder t)"
    using st by (simp_all add: search_tree_def)
  have "cmp key (key_at s a) \<noteq> 0" if "a \<in> path_nodes ps" for a
    using locate_sides[OF cmp ord l] that comparator.flip[OF cmp, of key "key_at s a"] by (auto simp: path_nodes_sides)
  moreover have "set_tree t = path_nodes ps" using set_plug[of ps Leaf] locate_plug[OF l] by simp
  ultimately show "\<forall>k\<in>contents s t. cmp key k \<noteq> 0" by (auto simp: contents_def)
  have "rootv s = 0 \<longleftrightarrow> t = Leaf" using rt root_of_0[OF rep] by simp
  then show "tdelete cmp key (Some RootL) s = Some (0, s)"
    using tdelete_search[OF rep rt l] by (auto simp: tdelete_def load_def)
qed

lemma parent_deleted:
  assumes "plug ps (Node l d r) = t" "d \<notin> path_nodes ps"
  shows "parent (root_of t) ps \<in> set_tree t \<and> (parent (root_of t) ps = d \<longleftrightarrow> d = root_of t)"
proof (cases "ps = []")
  case True
  then show ?thesis using assms by auto
next
  case False
  then have "parent (root_of t) ps \<in> path_nodes ps" "root_of t \<in> path_nodes ps"
    using parent_in[of ps] root_of_plug[of ps "Node l d r"] assms(1) by (auto simp: neq_Nil_conv)
  then show ?thesis using assms set_plug[of ps "Node l d r"] by auto
qed

lemma tdelete_hit:
  assumes st: "search_tree cmp s t" and cmp: "comparator cmp" and l: "locate cmp key (key_at s) t = (ps, Node lf d rg)"
  obtains p s' t' where "tdelete cmp key (Some RootL) s = Some (p, s')" "search_tree cmp s' t'"
    "contents s' t' = {k \<in> contents s t. cmp key k \<noteq> 0}" "d \<in> set_tree t" "cmp key (key_at s d) = 0" "nodes s' d = None"
    "p \<in> set_tree t \<and> (p = d \<longleftrightarrow> d = root_of t)"
proof -
  have rep: "rep (nodes s) t" and rt: "rootv s = root_of t" and ord: "in_order cmp (key_at s) (inorder t)"
    using st by (simp_all add: search_tree_def)
  have dis: "distinct (inorder t)" using in_order_distinct[OF cmp ord] .
  have pl: "plug ps (Node lf d rg) = t" using locate_plug[OF l] .
  have hit: "cmp key (key_at s d) = 0" using locate_hit[OF l] .
  let ?t' = "plug ps (joined lf rg)"
  from unlink_node[OF rep rt dis pl] obtain s1 s2 where
    x: "load s (loc_of RootL ps) = Some d" "replacement d s = Some (root_of (joined lf rg), s1)"
      "store (loc_of RootL ps) (root_of (joined lf rg)) (s1\<lparr>nodes := (nodes s1)(d := None)\<rparr>) = Some s2"
    and new: "rep (nodes s2) ?t'" "rootv s2 = root_of ?t'" "nodes s2 d = None" "\<And>b. b \<noteq> d \<Longrightarrow> key_at s2 b = key_at s b"
    by blast
  have ne: "t \<noteq> Leaf" "rootv s \<noteq> 0" using set_plug[of ps "Node lf d rg"] pl rt root_of_0[OF rep] by auto
  have res: "tdelete cmp key (Some RootL) s = Some (parent (root_of t) ps, s2)"
    using tdelete_search[OF rep rt l ne(1), of "rootv s"] x ne rt by (simp add: tdelete_def load_def)
  let ?xs = "lefts ps @ inorder lf" and ?ys = "inorder rg @ rights ps"
  have io: "inorder t = ?xs @ d # ?ys" "inorder ?t' = ?xs @ ?ys"
    using inorder_plug[of ps "Node lf d rg"] inorder_plug[of ps "joined lf rg"] pl by (simp_all add: joined_inorder)
  have set': "set_tree ?t' = set_tree t - {d}" "d \<notin> path_nodes ps" "d \<in> set_tree t"
    using dis unfolding set_inorder[symmetric] io by (auto simp: path_nodes_sides)
  have "in_order cmp (key_at s) (inorder ?t')" using ord unfolding io by simp
  then have "in_order cmp (key_at s2) (inorder ?t')"
    using in_order_cong[of "inorder ?t'" "key_at s2" "key_at s" cmp] new(4) set'(1) by auto
  then have tree: "search_tree cmp s2 ?t'" using new by (simp add: search_tree_def)
  have "cmp key (key_at s a) \<noteq> 0" if "a \<in> set_tree ?t'" for a
    using in_order_unique[OF cmp ord[unfolded io(1)] hit, of a] that io(2) by (simp flip: set_inorder)
  then have "contents s2 ?t' = {k \<in> contents s t. cmp key k \<noteq> 0}"
    using new(4) hit unfolding contents_def set'(1) by auto
  then show thesis using that[OF res tree _ set'(3) hit new(3) parent_deleted[OF pl set'(2)]] by simp
qed

lemma tdelete_ok:
  assumes st: "search_tree cmp s t" and cmp: "comparator cmp"
  shows "\<exists>p s' t'. tdelete cmp key (Some RootL) s = Some (p, s') \<and> search_tree cmp s' t' \<and>
    contents s' t' = {k \<in> contents s t. cmp key k \<noteq> 0} \<and>
    (if \<exists>k\<in>contents s t. cmp key k = 0
     then \<exists>d\<in>set_tree t. cmp key (key_at s d) = 0 \<and> nodes s' d = None \<and> p \<in> set_tree t \<and> (p = d \<longleftrightarrow> d = root_of t)
     else p = 0 \<and> s' = s \<and> t' = t)"
proof -
  obtain ps u where l: "locate cmp key (key_at s) t = (ps, u)" by fastforce
  show ?thesis
  proof (cases u)
    case Leaf
    note miss = tdelete_miss[OF st cmp l[unfolded Leaf]]
    then have "{k \<in> contents s t. cmp key k \<noteq> 0} = contents s t" by auto
    then show ?thesis using st miss by (intro exI[of _ 0] exI[of _ s] exI[of _ t]) auto
  next
    case (Node lf d rg)
    from tdelete_hit[OF st cmp l[unfolded Node]] obtain p s' t' where
      h: "tdelete cmp key (Some RootL) s = Some (p, s')" "search_tree cmp s' t'"
        "contents s' t' = {k \<in> contents s t. cmp key k \<noteq> 0}" "d \<in> set_tree t" "cmp key (key_at s d) = 0" "nodes s' d = None"
        "p \<in> set_tree t \<and> (p = d \<longleftrightarrow> d = root_of t)" .
    moreover have "\<exists>k\<in>contents s t. cmp key k = 0" using h(4,5) by (auto simp: contents_def)
    ultimately show ?thesis by (intro exI[of _ p] exI[of _ s'] exI[of _ t']) auto
  qed
qed

definition in_turn :: "(nat \<times> visit \<times> nat) list \<Rightarrow> nat list" where
  "in_turn vs = map fst (filter (\<lambda>(a, k, lv). k = Postorder \<or> k = Leaf_visit) vs)"

lemma in_turn_simps [simp]:
  "in_turn [] = []" "in_turn (vs @ ws) = in_turn vs @ in_turn ws"
  "in_turn ((a, k, lv) # vs) = (if k = Postorder \<or> k = Leaf_visit then a # in_turn vs else in_turn vs)"
  by (simp_all add: in_turn_def)

fun depth_of :: "nat tree \<Rightarrow> nat \<Rightarrow> nat \<Rightarrow> nat set" where
  "depth_of Leaf b lv = {}"
| "depth_of (Node l a r) b lv =
     (if a = b then {lv} else {}) \<union> depth_of l b (lv + 1) \<union> depth_of r b (lv + 1)"

lemma trecurse_ok:
  assumes "rep (nodes s) t" "t \<noteq> Leaf"
  shows "\<exists>vs. trecurse (root_of t) lv s = Some vs \<and> in_turn vs = inorder t \<and>
    (\<forall>(a, k, n)\<in>set vs. n \<in> depth_of t a lv)"
  using assms
proof (induction t arbitrary: lv)
  case (Node l a r)
  then obtain k where k: "nodes s a = Some \<lparr>t_key = k, t_left = root_of l, t_right = root_of r\<rparr>"
    and reps: "rep (nodes s) l" "rep (nodes s) r" by auto
  have z: "root_of l = 0 \<longleftrightarrow> l = Leaf" "root_of r = 0 \<longleftrightarrow> r = Leaf" using reps by (simp_all add: root_of_0)
  have sub: "\<exists>vs. (if root_of u \<noteq> 0 then trecurse (root_of u) (lv + 1) s else Some []) = Some vs \<and>
      in_turn vs = inorder u \<and> (\<forall>(b, k, n)\<in>set vs. n \<in> depth_of u b (lv + 1))" if "u = l \<or> u = r" for u
    using that Node.IH(1)[OF reps(1), of "lv + 1"] Node.IH(2)[OF reps(2), of "lv + 1"] z
    by (cases "u = Leaf") auto
  obtain ls rs where
    ls: "(if root_of l \<noteq> 0 then trecurse (root_of l) (lv + 1) s else Some []) = Some ls"
      "in_turn ls = inorder l" "\<forall>(b, k, n)\<in>set ls. n \<in> depth_of l b (lv + 1)"
    and rs: "(if root_of r \<noteq> 0 then trecurse (root_of r) (lv + 1) s else Some []) = Some rs"
      "in_turn rs = inorder r" "\<forall>(b, k, n)\<in>set rs. n \<in> depth_of r b (lv + 1)"
    using sub[of l] sub[of r] by auto
  show ?case
  proof (cases "l = Leaf \<and> r = Leaf")
    case True
    then show ?thesis using k by (simp add: trecurse.simps[of a])
  next
    case False
    then have "trecurse a lv s = Some ((a, Preorder, lv) # ls @ (a, Postorder, lv) # rs @ [(a, Endorder, lv)])"
      using k z ls(1) rs(1) by (subst trecurse.simps) (auto split: if_splits)
    then show ?thesis using ls rs by fastforce
  qed
qed simp

lemma twalk_ok:
  assumes "search_tree cmp s t"
  shows "\<exists>vs. twalk (rootv s) s = Some vs \<and> in_turn vs = inorder t \<and>
    (\<forall>(a, k, n)\<in>set vs. n \<in> depth_of t a 0)"
proof -
  have rep: "rep (nodes s) t" "rootv s = root_of t" using assms by (simp_all add: search_tree_def)
  show ?thesis
  proof (cases "t = Leaf")
    case True
    then show ?thesis using rep by (simp add: twalk_def)
  next
    case False
    then show ?thesis using trecurse_ok[OF rep(1) False, of 0] rep root_of_0[OF rep(1)] by (simp add: twalk_def)
  qed
qed

text \<open>What happens at one node: \<open>turns a vs\<close> are the kinds of the visits to \<open>a\<close>.\<close>

definition turns :: "nat \<Rightarrow> (nat \<times> visit \<times> nat) list \<Rightarrow> visit list" where
  "turns a vs = map (fst \<circ> snd) (filter (\<lambda>v. fst v = a) vs)"

definition childless :: "'k tstore \<Rightarrow> nat \<Rightarrow> bool" where
  "childless s a = (case nodes s a of None \<Rightarrow> False | Some n \<Rightarrow> t_left n = 0 \<and> t_right n = 0)"

lemma turns_simps [simp]:
  "turns a [] = []" "turns a (v # vs) = (if fst v = a then fst (snd v) # turns a vs else turns a vs)"
  "turns a (vs @ ws) = turns a vs @ turns a ws"
  by (simp_all add: turns_def)

lemma turns_none: "a \<notin> fst ` set vs \<Longrightarrow> turns a vs = []"
  by (auto simp: turns_def filter_empty_conv)

abbreviation kinds_at :: "'k tstore \<Rightarrow> nat \<Rightarrow> visit list" where
  "kinds_at s a \<equiv> (if childless s a then [Leaf_visit] else [Preorder, Postorder, Endorder])"

lemma trecurse_turns:
  assumes "rep (nodes s) t" "t \<noteq> Leaf" "distinct (inorder t)" "trecurse (root_of t) lv s = Some vs"
  shows "fst ` set vs \<subseteq> set_tree t \<and> (\<forall>a\<in>set_tree t. turns a vs = kinds_at s a)"
  using assms
proof (induction t arbitrary: lv vs)
  case (Node l a r)
  then obtain k where k: "nodes s a = Some \<lparr>t_key = k, t_left = root_of l, t_right = root_of r\<rparr>"
    and reps: "rep (nodes s) l" "rep (nodes s) r" by auto
  have z: "root_of l = 0 \<longleftrightarrow> l = Leaf" "root_of r = 0 \<longleftrightarrow> r = Leaf" using reps by (simp_all add: root_of_0)
  have dis: "distinct (inorder l)" "distinct (inorder r)" "set_tree l \<inter> set_tree r = {}" "a \<notin> set_tree l" "a \<notin> set_tree r"
    using Node.prems(3) by (auto simp flip: set_inorder)
  have sub: "fst ` set us \<subseteq> set_tree u \<and> (\<forall>b\<in>set_tree u. turns b us = kinds_at s b)"
    if "u = l \<or> u = r" "(if root_of u \<noteq> 0 then trecurse (root_of u) (lv + 1) s else Some []) = Some us" for u us
    using that Node.IH(1)[OF reps(1) _ dis(1), of "lv + 1" us] Node.IH(2)[OF reps(2) _ dis(2), of "lv + 1" us] z
    by (cases "u = Leaf"; elim disjE) (simp_all split: if_splits)
  show ?case
  proof (cases "l = Leaf \<and> r = Leaf")
    case True
    then show ?thesis using k Node.prems(4) by (auto simp: trecurse.simps[of a] childless_def)
  next
    case False
    with k z have "trecurse a lv s = do {
        ls \<leftarrow> (if root_of l \<noteq> 0 then trecurse (root_of l) (lv + 1) s else Some []);
        rs \<leftarrow> (if root_of r \<noteq> 0 then trecurse (root_of r) (lv + 1) s else Some []);
        Some ((a, Preorder, lv) # ls @ (a, Postorder, lv) # rs @ [(a, Endorder, lv)]) }"
      by (subst trecurse.simps) (auto cong: if_cong)
    with Node.prems(4) obtain ls rs where
      ls: "(if root_of l \<noteq> 0 then trecurse (root_of l) (lv + 1) s else Some []) = Some ls"
      and rs: "(if root_of r \<noteq> 0 then trecurse (root_of r) (lv + 1) s else Some []) = Some rs"
      and vs: "vs = (a, Preorder, lv) # ls @ (a, Postorder, lv) # rs @ [(a, Endorder, lv)]"
      by (auto simp: bind_eq_Some_conv)
    have L: "fst ` set ls \<subseteq> set_tree l" "\<And>b. b \<in> set_tree l \<Longrightarrow> turns b ls = kinds_at s b" using sub[OF _ ls] by blast+
    have R: "fst ` set rs \<subseteq> set_tree r" "\<And>b. b \<in> set_tree r \<Longrightarrow> turns b rs = kinds_at s b" using sub[OF _ rs] by blast+
    have other: "b \<notin> set_tree l \<Longrightarrow> turns b ls = []" "b \<notin> set_tree r \<Longrightarrow> turns b rs = []" for b
      using L(1) R(1) by (blast intro: turns_none)+
    have "turns b vs = kinds_at s b" if "b \<in> insert a (set_tree l \<union> set_tree r)" for b
    proof (cases "b = a")
      case True
      then show ?thesis using k z False dis(4,5) other[of a] unfolding vs by (simp add: childless_def)
    next
      case ne: False
      with that have "b \<in> set_tree l \<and> b \<notin> set_tree r \<or> b \<in> set_tree r \<and> b \<notin> set_tree l" using dis(3) by blast
      then show ?thesis using ne L(2)[of b] R(2)[of b] other[of b] unfolding vs by fastforce
    qed
    then show ?thesis using L(1) R(1) unfolding vs by auto
  qed
qed simp

lemma twalk_turns:
  assumes "search_tree cmp s t" "comparator cmp" "twalk (rootv s) s = Some vs" "a \<in> set_tree t"
  shows "turns a vs = kinds_at s a"
proof -
  have rep: "rep (nodes s) t" "rootv s = root_of t" "in_order cmp (key_at s) (inorder t)"
    using assms(1) by (simp_all add: search_tree_def)
  have "t \<noteq> Leaf" using assms(4) by auto
  with rep(1,2) assms(3) have "trecurse (root_of t) 0 s = Some vs" by (simp add: twalk_def root_of_0)
  with trecurse_turns[OF rep(1) \<open>t \<noteq> Leaf\<close> in_order_distinct[OF assms(2) rep(3)]] assms(4) show ?thesis by blast
qed

subsection \<open>Properties\<close>

definition demo_store :: "string tstore" where
  "demo_store = \<lparr>nodes = [7 \<mapsto> \<lparr>t_key = ''m'', t_left = 8, t_right = 9\<rparr>,
     8 \<mapsto> \<lparr>t_key = ''c'', t_left = 0, t_right = 0\<rparr>, 9 \<mapsto> \<lparr>t_key = ''x'', t_left = 0, t_right = 0\<rparr>], rootv = 7\<rparr>"

abbreviation demo_tree :: "nat tree" where
  "demo_tree \<equiv> Node (Node Leaf 8 Leaf) 7 (Node Leaf 9 Leaf)"

lemma demo_search_tree: "search_tree (strcmp True) demo_store demo_tree"
  by (simp add: search_tree_def demo_store_def key_at_def plain_char_def)

lemma demo_contents: "contents demo_store demo_tree = {''m'', ''c'', ''x''}"
  by (auto simp: contents_def demo_store_def key_at_def)

text \<open>
  C23. On a binary search tree \<open>tsearch\<close> returns the node whose key compares equal
  to the given one and leaves the tree alone, or, when there is none, links the
  new node so that the tree is again a search tree and holds exactly one more
  key.
\<close>

theorem tsearch_inserts:
  assumes "search_tree cmp s t" "comparator cmp" "q \<noteq> 0" "nodes s q = None"
  shows "\<exists>p s' t'. tsearch cmp q key (Some RootL) s = Some (p, s') \<and> search_tree cmp s' t' \<and>
    p \<in> set_tree t' \<and> cmp key (key_at s' p) = 0 \<and>
    (if \<exists>k\<in>contents s t. cmp key k = 0 then s' = s \<and> t' = t
     else p = q \<and> key_at s' p = key \<and> contents s' t' = insert key (contents s t))"
  using assms by (rule tsearch_ok)

lemma tsearch_inserts_witness:
  "\<exists>p s' t'. tsearch (strcmp True) 10 ''p'' (Some RootL) demo_store = Some (p, s') \<and>
    search_tree (strcmp True) s' t' \<and> contents s' t' = {''p'', ''m'', ''c'', ''x''}"
proof -
  have "nodes demo_store 10 = None" "\<not> (\<exists>k\<in>contents demo_store demo_tree. strcmp True ''p'' k = 0)"
    unfolding demo_contents by (simp_all add: demo_store_def plain_char_def)
  then show ?thesis
    using tsearch_inserts[OF demo_search_tree strcmp.comparator_axioms, of 10 "''p''"]
    unfolding demo_contents by auto
qed

text \<open>
  C6. On a binary search tree \<open>tdelete\<close> removes exactly the node whose key
  compares equal, frees it and leaves a search tree of the remaining keys; it
  follows no freed or NULL link. It returns NULL when there is no such key and
  a node of the tree otherwise: when the root is removed, that is the freed
  root itself.
\<close>

theorem tdelete_removes:
  assumes "search_tree cmp s t" "comparator cmp"
  shows "\<exists>p s' t'. tdelete cmp key (Some RootL) s = Some (p, s') \<and> search_tree cmp s' t' \<and>
    contents s' t' = {k \<in> contents s t. cmp key k \<noteq> 0} \<and>
    (if \<exists>k\<in>contents s t. cmp key k = 0
     then \<exists>d\<in>set_tree t. cmp key (key_at s d) = 0 \<and> nodes s' d = None \<and> p \<in> set_tree t \<and> (p = d \<longleftrightarrow> d = root_of t)
     else p = 0 \<and> s' = s \<and> t' = t)"
  using assms by (rule tdelete_ok)

lemma tdelete_removes_witness:
  "\<exists>p s' t'. tdelete (strcmp True) ''m'' (Some RootL) demo_store = Some (p, s') \<and>
    search_tree (strcmp True) s' t' \<and> contents s' t' = {''c'', ''x''}"
proof -
  have "{k \<in> contents demo_store demo_tree. strcmp True ''m'' k \<noteq> 0} = {''c'', ''x''}"
    unfolding demo_contents by (auto simp: plain_char_def)
  then show ?thesis
    using tdelete_removes[OF demo_search_tree strcmp.comparator_axioms, of "''m''"] by auto
qed

text \<open>
  C37. \<open>twalk\<close> ends on every search tree. It calls the action three times for a
  node with a child, as \<open>preorder\<close>, \<open>postorder\<close> and \<open>endorder\<close>, and once, as
  \<open>leaf\<close>, for a node without one, each time with the depth of the node. The
  calls with \<open>postorder\<close> and \<open>leaf\<close> alone run through the nodes in ascending
  order of their keys, every node once.
\<close>

theorem twalk_visits:
  assumes "search_tree cmp s t" "comparator cmp"
  shows "\<exists>vs. twalk (rootv s) s = Some vs \<and> in_turn vs = inorder t \<and>
    in_order cmp (key_at s) (in_turn vs) \<and> distinct (in_turn vs) \<and>
    (\<forall>(a, k, n)\<in>set vs. n \<in> depth_of t a 0) \<and>
    (\<forall>a\<in>set_tree t. turns a vs =
       (if childless s a then [Leaf_visit] else [Preorder, Postorder, Endorder]))"
proof -
  from twalk_ok[OF assms(1)] obtain vs where
    vs: "twalk (rootv s) s = Some vs" "in_turn vs = inorder t" "\<forall>(a, k, n)\<in>set vs. n \<in> depth_of t a 0" by blast
  have ord: "in_order cmp (key_at s) (inorder t)" using assms(1) by (simp add: search_tree_def)
  show ?thesis
    using vs ord in_order_distinct[OF assms(2) ord] twalk_turns[OF assms vs(1)]
    by (intro exI[of _ vs]) simp
qed

lemma twalk_visits_witness:
  "\<exists>vs. twalk 7 demo_store = Some vs \<and> in_turn vs = [8, 7, 9] \<and> turns 7 vs = [Preorder, Postorder, Endorder] \<and>
    turns 8 vs = [Leaf_visit]"
proof -
  have "rootv demo_store = 7" "inorder demo_tree = [8, 7, 9]" "\<not> childless demo_store 7" "childless demo_store 8"
    by (simp_all add: demo_store_def childless_def)
  then show ?thesis
    using twalk_visits[OF demo_search_tree strcmp.comparator_axioms] by fastforce
qed

end
