(* ===== verification/LibNum.thy ===== *)
theory LibNum
  imports LibBase
begin

text \<open>
  Numbers in the FUZIX C library: the generator of \<open>src/libs/lrand48.c\<close>, the
  conversions of \<open>src/libs/strtol.c\<close> with the character classes they use, and
  the long integers in files of \<open>src/libs/sputl.c\<close> and \<open>src/libs/sgetl.c\<close>. \<open>long\<close>
  has 32 bits. The generator is a 48-bit linear congruential generator kept in
  three 16-bit words; \<open>strtol\<close> agrees with the \<open>strtol\<close> of the host, modelled in
  \<open>Cstring\<close>, where neither overflow nor its digit check gets in the way.
\<close>

unbundle bit_operations_syntax

subsection \<open>The generator\<close>

text \<open>
  \<open>__msa48\<close> holds the multiplier in its first three words, the state in the next
  three, low word first, and the addend in the last.
\<close>

definition msa48_def :: "u16 list" where
  "msa48_def = [0xe66d, 0xdeec, 0x0005, 0x330E]"

definition msa48_init :: "u16 list" where
  "msa48_init = [0xe66d, 0xdeec, 0x0005, 0x330E, 0xABCD, 0x1234, 0x000B]"

definition lmuladd :: "u16 list \<Rightarrow> nat \<Rightarrow> nat \<Rightarrow> u32 \<Rightarrow> u32" where
  "lmuladd m a b acc = acc + ucast (m ! a) * ucast (m ! b)"

definition roll :: "u32 \<Rightarrow> u16 \<times> u32" where
  "roll acc = (ucast acc, drop_bit 16 acc)"

definition iteration48 :: "u16 list \<Rightarrow> u16 list" where
  "iteration48 m =
     (let acc = 0;
          acc = lmuladd m 0 3 acc;
          acc = acc + ucast (m ! 6);
          (t0, acc) = roll acc;
          acc = lmuladd m 0 4 acc;
          acc = lmuladd m 1 3 acc;
          (t1, acc) = roll acc;
          acc = lmuladd m 0 5 acc;
          acc = lmuladd m 1 4 acc;
          acc = lmuladd m 2 3 acc;
          m = m[3 := t0];
          m = m[4 := t1];
          (t2, acc) = roll acc
      in m[5 := t2])"

definition memcpy_at :: "nat \<Rightarrow> u16 list \<Rightarrow> nat \<Rightarrow> u16 list \<Rightarrow> u16 list" where
  "memcpy_at i src n m = take i m @ take n src @ drop (i + n) m"

definition srand48 :: "u32 \<Rightarrow> u16 list \<Rightarrow> u16 list" where
  "srand48 seed m =
     (let m = m[4 := ucast seed];
          m = m[5 := ucast (drop_bit 16 seed)]
      in memcpy_at 0 msa48_def 4 m)"

definition lcong48 :: "u16 list \<Rightarrow> u16 list \<Rightarrow> u16 list" where
  "lcong48 p m = memcpy_at 0 p 7 m"

definition lrand48 :: "u16 list \<Rightarrow> u32 \<times> u16 list" where
  "lrand48 m =
     (let m = iteration48 m
      in (ucast (drop_bit 1 (m ! 5)) + push_bit 15 (ucast (m ! 4)), m))"

definition nrand48 :: "u16 list \<Rightarrow> u16 list \<Rightarrow> u32 \<times> u16 list" where
  "nrand48 s m =
     (let b = take 3 (drop 3 m);
          m = memcpy_at 3 s 3 m;
          (r, m) = lrand48 m
      in (r, memcpy_at 3 b 3 m))"

definition mrand48 :: "u16 list \<Rightarrow> u32 \<times> u16 list" where
  "mrand48 m =
     (let m = iteration48 m
      in (ucast (m ! 5) + push_bit 16 (ucast (m ! 4)), m))"

definition jrand48 :: "u16 list \<Rightarrow> u16 list \<Rightarrow> u32 \<times> u16 list" where
  "jrand48 s m =
     (let b = take 3 (drop 3 m);
          m = memcpy_at 3 s 3 m;
          (r, m) = mrand48 m
      in (r, memcpy_at 3 b 3 m))"

definition seed48 :: "u16 list \<Rightarrow> u16 list \<Rightarrow> u16 list \<times> u16 list" where
  "seed48 n m =
     (let save = take 3 (drop 3 m);
          m = memcpy_at 3 n 3 m
      in (save, memcpy_at 0 msa48_def 3 m))"

definition word48 :: "u16 \<Rightarrow> u16 \<Rightarrow> u16 \<Rightarrow> nat" where
  "word48 w0 w1 w2 = unat w0 + 2 ^ 16 * unat w1 + 2 ^ 32 * unat w2"

lemma carry_mod:
  fixes B :: nat
  assumes "0 < B"
  shows "(s + B * p + B * B * q) mod (B * (B * B)) =
    s mod B + B * ((s div B + p) mod B) + B * B * (((s div B + p) mod (B * B) div B + q) mod B)"
proof -
  define T where "T = s div B + p"
  have n: "s + B * p + B * B * q = s mod B + B * (T + B * q)"
    by (simp add: T_def algebra_simps)
  have "(s + B * p + B * B * q) div B = T + B * q" "(s + B * p + B * B * q) mod B = s mod B"
    unfolding n using assms by simp_all
  then have a: "(s + B * p + B * B * q) mod (B * (B * B)) = B * ((T + B * q) mod (B * B)) + s mod B"
    by (simp only: mod_mult2_eq)
  have b: "(T + B * q) mod (B * B) = B * ((T div B + q) mod B) + T mod B"
    using assms by (simp add: mod_mult2_eq div_mult_self2 add.commute)
  have "T mod (B * B) div B = T div B mod B"
    using assms by (simp add: mod_mult2_eq)
  then have c: "(T mod (B * B) div B + q) mod B = (T div B + q) mod B"
    by (simp only: mod_add_left_eq)
  show ?thesis
    unfolding a b T_def[symmetric] c by (simp add: algebra_simps)
qed

lemma u16_less: "unat (w :: u16) < 65536"
  by (rule order_less_le_trans[OF unsigned_less]) simp

lemma unat_widen: "unat (ucast (w :: u16) :: u32) = unat w"
proof -
  have "unat w < 2 ^ 32" using u16_less[of w] by simp
  then show ?thesis by (simp add: unsigned_ucast_eq take_bit_nat_eq_self)
qed

lemma unat_lmuladd: "unat (lmuladd m a b acc) = (unat acc + unat (m ! a) * unat (m ! b)) mod 2 ^ 32"
  by (simp add: lmuladd_def unat_word_ariths mod_add_right_eq unat_widen)

lemma unat_roll: "roll acc = (v, acc') \<Longrightarrow> unat v = unat acc mod 2 ^ 16 \<and> unat acc' = unat acc div 2 ^ 16"
  using unat_drop_bit_eq[of 16 acc]
  by (auto simp: roll_def unsigned_ucast_eq take_bit_eq_mod drop_bit_eq_div simp del: drop_bit_numeral_minus_bit1)

lemma mac_in_range: "unat (a :: u16) * unat (x :: u16) + unat (c :: u16) < 2 ^ 32"
proof -
  have "unat a \<le> 2 ^ 16 - 1" "unat x \<le> 2 ^ 16 - 1" "unat c \<le> 2 ^ 16 - 1"
    using u16_less[of a] u16_less[of x] u16_less[of c] by simp_all
  then have "unat a * unat x + unat c \<le> (2 ^ 16 - 1) * (2 ^ 16 - 1) + (2 ^ 16 - 1)"
    by (intro add_mono mult_mono) auto
  then show ?thesis by simp
qed

lemma nrand48_repeats:
  "nrand48 [s0, s1, s2] [a0, a1, a2, x0, x1, x2, c] = (fst (lrand48 [a0, a1, a2, s0, s1, s2, c]), [a0, a1, a2, x0, x1, x2, c])"
  by (simp add: nrand48_def lrand48_def iteration48_def memcpy_at_def Let_def split_beta)

subsection \<open>\<open>strtol\<close> and \<open>strtoul\<close>\<close>

definition LONG_MAX :: u32 where
  "LONG_MAX = 2147483647"

definition LONG_MIN :: u32 where
  "LONG_MIN = - 2147483647"

definition ULONG_MAX :: u32 where
  "ULONG_MAX = 0xFFFFFFFF"

definition isascii :: "char \<Rightarrow> bool" where
  "isascii c \<longleftrightarrow> (of_char c :: nat) < 0x80"

definition isalnum :: "char \<Rightarrow> bool" where
  "isalnum c \<longleftrightarrow> (let n = of_char c :: nat in 48 \<le> n \<and> n \<le> 57 \<or> 65 \<le> n \<and> n \<le> 90 \<or> 97 \<le> n \<and> n \<le> 122)"

definition toupper :: "char \<Rightarrow> u8" where
  "toupper c = (let cb = of_char c in if 97 \<le> cb \<and> cb \<le> 122 then cb XOR 0x20 else cb)"

definition conv_digit :: "char \<Rightarrow> u8" where
  "conv_digit c = (let ch = toupper c in ch - (if ch \<le> 57 then 48 else 65 - 10))"

text \<open>
  The string is what is left from \<open>nptr\<close> on, its end the NUL. The conversion loop
  returns the number, the overflow flag and the rest of the string.
\<close>

fun conv_loop :: "nat \<Rightarrow> u32 \<Rightarrow> bool \<Rightarrow> string \<Rightarrow> u32 \<times> bool \<times> string" where
  "conv_loop base number overflow [] = (number, overflow, [])"
| "conv_loop base number overflow (c # nptr) =
     (if isascii c \<and> isalnum c
      then (let ch = conv_digit c
            in if base < unat ch then (number, overflow, c # nptr)
               else (let newv = number * of_nat base + ucast ch
                     in conv_loop base newv (overflow \<or> newv < number) nptr))
      else (number, overflow, c # nptr))"

definition conv_sign :: "string \<Rightarrow> bool \<times> string" where
  "conv_sign nptr =
     (case nptr of
        c # rest \<Rightarrow> if c = CHR ''-'' then (True, rest) else if c = CHR ''+'' then (False, rest) else (False, nptr)
      | [] \<Rightarrow> (False, nptr))"

definition conv_prefix :: "nat \<Rightarrow> string \<Rightarrow> nat \<times> string" where
  "conv_prefix base nptr =
     (let (base, nptr) =
        (case nptr of
           c # rest \<Rightarrow>
             if c = CHR ''0''
             then (let (base, nptr) =
                     (if (base = 0 \<or> base = 16) \<and> rest \<noteq> [] \<and> (hd rest = CHR ''X'' \<or> hd rest = CHR ''x'')
                      then (16, tl rest) else (base, nptr))
                   in if base = 0 then (8, tl nptr) else (base, nptr))
             else (base, nptr)
         | [] \<Rightarrow> (base, nptr))
      in (if base = 0 then 10 else base, nptr))"

definition conv_done :: "u32 \<Rightarrow> bool \<Rightarrow> bool \<Rightarrow> bool \<Rightarrow> nat option \<Rightarrow> u32 \<times> nat option" where
  "conv_done number negative overflow uns err =
     (if overflow
      then (if uns then (ULONG_MAX, Some err_ERANGE)
            else if negative then (LONG_MIN, Some err_ERANGE) else (LONG_MAX, Some err_ERANGE))
      else if \<not> uns \<and> number = LONG_MIN \<and> negative then (LONG_MIN, Some err_ERANGE)
      else (let (number, err) = (if \<not> uns \<and> LONG_MAX < number then (LONG_MAX, Some err_ERANGE) else (number, err))
            in (if negative then - number else number, err)))"

definition do_conv :: "string \<Rightarrow> int \<Rightarrow> bool \<Rightarrow> (u32 \<times> nat option) \<times> string" where
  "do_conv nptr base uns =
     (if base = 1 \<or> 36 < base \<or> base < 0 then (conv_done 0 False False uns (Some err_EINVAL), nptr)
      else let nptr = dropWhile isspace nptr;
               (negative, nptr) = conv_sign nptr;
               (b, nptr) = conv_prefix (nat base) nptr;
               (number, overflow, nptr) = conv_loop b 0 False nptr
           in (conv_done number negative overflow uns None, nptr))"

definition libc_strtol :: "string \<Rightarrow> int \<Rightarrow> (int \<times> nat option) \<times> string" where
  "libc_strtol nptr base = (let ((v, e), rest) = do_conv nptr base True in ((sint v, e), rest))"

definition libc_strtoul :: "string \<Rightarrow> int \<Rightarrow> (u32 \<times> nat option) \<times> string" where
  "libc_strtoul nptr base = do_conv nptr base False"

subsection \<open>Digits\<close>

lemma lower_case_table: "list_all (\<lambda>n. (of_nat n :: u8) XOR 0x20 = of_nat (n - 32)) [97..<123]"
  by code_simp

lemma lower_case_xor: "97 \<le> n \<Longrightarrow> n \<le> 122 \<Longrightarrow> (of_nat n :: u8) XOR 0x20 = of_nat (n - 32)"
proof -
  assume "97 \<le> n" "n \<le> 122"
  then have "n \<in> set [97..<123]" by (simp only: set_upt atLeastLessThan_iff) simp
  then show ?thesis by (rule bspec[OF lower_case_table[unfolded list_all_iff]])
qed

lemma unat_of_nat_u8: "d < 256 \<Longrightarrow> unat (of_nat d :: u8) = d"
  by (simp add: unat_of_nat)

lemma conv_digit_value:
  "isascii c \<and> isalnum c \<longleftrightarrow> digit_value c < 99"
  "digit_value c < 99 \<Longrightarrow> unat (conv_digit c) = digit_value c"
proof -
  define n where "n = (of_char c :: nat)"
  have n: "n < 256" and w: "(of_char c :: u8) = of_nat n"
    using of_nat_of_char[of c, where 'a = u8] by (simp_all add: n_def)
  show "isascii c \<and> isalnum c \<longleftrightarrow> digit_value c < 99"
    by (auto simp: isascii_def isalnum_def digit_value_def Let_def)
  have le: "(of_nat a :: u8) \<le> of_nat b \<longleftrightarrow> a \<le> b" if "a < 256" "b < 256" for a b
    using that by (simp add: word_le_nat_alt unat_of_nat)
  have le': "(97 :: u8) \<le> of_nat n \<longleftrightarrow> 97 \<le> n" "of_nat n \<le> (122 :: u8) \<longleftrightarrow> n \<le> 122"
    "of_nat n \<le> (57 :: u8) \<longleftrightarrow> n \<le> 57"
    using le[of 97 n] le[of n 122] le[of n 57] n by simp_all
  assume "digit_value c < 99"
  then consider "48 \<le> n" "n \<le> 57" "digit_value c = n - 48" | "65 \<le> n" "n \<le> 90" "digit_value c = n - 55"
    | "97 \<le> n" "n \<le> 122" "digit_value c = n - 87"
    unfolding n_def digit_value_def Let_def by (auto split: if_splits)
  then show "unat (conv_digit c) = digit_value c"
  proof cases
    case 1
    then obtain d where d: "n = 48 + d" by (metis le_add_diff_inverse)
    then have "conv_digit c = of_nat d"
      using le' 1 by (simp add: conv_digit_def toupper_def w Let_def)
    then show ?thesis using 1 d n unat_of_nat_u8[of d] by simp
  next
    case 2
    then obtain d where d: "n = 55 + d" using le_Suc_ex[of 55 n] by auto
    then have "conv_digit c = of_nat d"
      using le' 2 by (simp add: conv_digit_def toupper_def w Let_def)
    then show ?thesis using 2 d n unat_of_nat_u8[of d] by simp
  next
    case 3
    then obtain d where d: "n = 87 + d" using le_Suc_ex[of 87 n] by auto
    have "\<not> (of_nat (n - 32) :: u8) \<le> 57" using le[of "n - 32" 57] 3 by simp
    then have "conv_digit c = of_nat (n - 32) - 55"
      using le' 3 lower_case_xor[of n] by (simp add: conv_digit_def toupper_def w Let_def)
    also have "\<dots> = of_nat d" using d by simp
    finally show ?thesis using 3 d n unat_of_nat_u8[of d] by simp
  qed
qed

lemma digit_value_36: "digit_value c < 36 \<or> digit_value c = 99"
  by (auto simp: digit_value_def Let_def)

lemma strtol_digits_mono: "0 < b \<Longrightarrow> acc \<le> strtol_digits b acc s"
proof (induction s arbitrary: acc)
  case (Cons c s)
  have "acc \<le> acc * b + digit_value c" using Cons.prems by (cases b) auto
  then show ?case using Cons.IH[of "acc * b + digit_value c"] Cons.prems by auto
qed simp

lemma conv_loop_digits:
  assumes "2 \<le> b" "b \<le> 36" "\<forall>c\<in>set s. digit_value c \<noteq> b" "strtol_digits b acc s < 2 ^ 32"
  shows "\<exists>rest. conv_loop b (of_nat acc) False s = (of_nat (strtol_digits b acc s), False, rest)"
  using assms(3,4)
proof (induction s arbitrary: acc)
  case (Cons c s)
  show ?case
  proof (cases "digit_value c < b")
    case True
    let ?n = "acc * b + digit_value c"
    have d: "isascii c \<and> isalnum c" "unat (conv_digit c) = digit_value c"
      using True assms(2) conv_digit_value[of c] by auto
    have lim: "acc \<le> ?n" "?n < 2 ^ 32"
      using strtol_digits_mono[of b ?n s] Cons.prems True assms(1) by (cases b, auto)
    have cu: "(ucast (conv_digit c) :: u32) = of_nat (digit_value c)"
      using d(2) by (metis of_nat_unat)
    have new: "of_nat acc * of_nat b + ucast (conv_digit c) = (of_nat ?n :: u32)"
      by (simp add: cu)
    have "\<not> (of_nat ?n :: u32) < of_nat acc"
      using lim by (simp add: word_less_nat_alt unat_of_nat del: of_nat_add of_nat_mult)
    then show ?thesis
      using Cons.IH[of ?n] Cons.prems True d new by (simp add: Let_def del: of_nat_add of_nat_mult)
  next
    case False
    then show ?thesis using Cons.prems conv_digit_value[of c] by (auto simp: Let_def)
  qed
qed simp

lemma conv_prefix_fixed:
  assumes "2 \<le> b"
  shows "conv_prefix b s = (b, s) \<or> (b = 16 \<and> (\<exists>x r. s = CHR ''0'' # x # r \<and> (x = CHR ''x'' \<or> x = CHR ''X'') \<and> conv_prefix b s = (16, r)))"
  using assms by (auto simp: conv_prefix_def Let_def neq_Nil_conv split: list.splits if_splits)

text \<open>Skipping \<open>0x\<close> without a hexadecimal digit behind it yields the same number.\<close>

lemma conv_prefix_value:
  assumes "2 \<le> b" "conv_prefix b s = (b', r)"
  shows "b' = b \<and> set r \<subseteq> set s \<and> strtol_digits b 0 r = strtol_digits b 0 (if b = 16 then skip_0x s else s)"
proof -
  have lower: "tolower x = CHR ''x'' \<longleftrightarrow> x = CHR ''x'' \<or> x = CHR ''X''" for x
  proof -
    have e: "y = z \<longleftrightarrow> (of_char y :: nat) = of_char z" for y z :: char by simp
    have "(of_char (tolower x) :: nat) = (if 65 \<le> (of_char x :: nat) \<and> (of_char x :: nat) \<le> 90 then of_char x + 32 else of_char x)"
      by (simp add: tolower_def)
    then show ?thesis unfolding e[of "tolower x"] e[of x] by (simp del: of_char_eq_iff) arith
  qed
  show ?thesis
  proof (cases "b = 16 \<and> (\<exists>x t. s = CHR ''0'' # x # t \<and> tolower x = CHR ''x'')")
    case True
    then obtain x where x: "s = CHR ''0'' # x # r" "b = 16" "b' = 16" "x = CHR ''x'' \<or> x = CHR ''X''"
    proof -
      obtain x t where s: "s = CHR ''0'' # x # t" "b = 16" "tolower x = CHR ''x''" using True by blast
      then have "conv_prefix b s = (16, t)" unfolding lower by (auto simp: conv_prefix_def)
      then show thesis using that s assms(2) lower[of x] by auto
    qed
    have "strtol_digits 16 0 r = strtol_digits 16 0 (skip_0x s)"
      using x(4) unfolding x(1) by (cases r) (auto simp: lower digit_value_def Let_def)
    then show ?thesis using x by auto
  next
    case False
    have "conv_prefix b s = (b, s)"
    proof (cases "b = 16")
      case True
      then show ?thesis using False lower assms(1)
        by (cases s; cases "tl s") (auto simp: conv_prefix_def)
    next
      case no: False
      then show ?thesis using assms(1) by (cases s) (auto simp: conv_prefix_def)
    qed
    moreover have "b = 16 \<Longrightarrow> skip_0x s = s" using False by (cases s rule: skip_0x.cases) auto
    ultimately show ?thesis using assms(2) by auto
  qed
qed

subsection \<open>\<open>sputl\<close> and \<open>sgetl\<close>\<close>

definition sputl :: "u32 \<Rightarrow> u8 list" where
  "sputl v =
     (let r = v; b0 = ucast r;
          r = push_bit 8 r; b1 = ucast r;
          r = push_bit 8 r; b2 = ucast r;
          r = push_bit 8 r; b3 = ucast r
      in [b0, b1, b2, b3])"

definition sgetl :: "u8 list \<Rightarrow> u32" where
  "sgetl p =
     (let r = ucast (p ! 0);
          r = r OR ucast (push_bit 8 (ucast (p ! 1) :: u16));
          r = r OR push_bit 16 (ucast (p ! 2));
          r = r OR push_bit 24 (ucast (p ! 3))
      in r)"

text \<open>\<open>sputl\<close> shifts the wrong way: only the low byte of the number survives.\<close>

lemma ucast_shifted_out: "8 \<le> n \<Longrightarrow> (ucast (push_bit n (w :: u32)) :: u8) = 0"
  by (rule bit_eqI) (auto simp: bit_simps)

lemma sgetl_sputl: "sgetl (sputl v) = take_bit 8 v"
proof -
  have "sputl v = [ucast v, 0, 0, 0]"
    using ucast_shifted_out[of 8 v] ucast_shifted_out[of 16 v] ucast_shifted_out[of 24 v]
    by (simp add: sputl_def Let_def)
  moreover have "ucast (ucast v :: u8) = take_bit 8 v"
    by (rule bit_eqI) (auto simp: bit_simps)
  ultimately show ?thesis by (simp add: sgetl_def)
qed

subsection \<open>Properties\<close>

text \<open>
  C22. One iteration of the generator, computed with 32-bit sums that overflow,
  is the linear congruential step modulo 2 to the 48 and changes neither the
  multiplier nor the addend.
\<close>

theorem iteration48_is_lcg:
  "\<exists>y0 y1 y2. iteration48 [a0, a1, a2, x0, x1, x2, c] = [a0, a1, a2, y0, y1, y2, c] \<and>
    word48 y0 y1 y2 = (word48 a0 a1 a2 * word48 x0 x1 x2 + unat c) mod 2 ^ 48"
proof -
  let ?m = "[a0, a1, a2, x0, x1, x2, c]"
  let ?B = "2 ^ 16 :: nat"
  define s where "s = unat a0 * unat x0 + unat c"
  define p where "p = unat a0 * unat x1 + unat a1 * unat x0"
  define q where "q = unat a0 * unat x2 + unat a1 * unat x1 + unat a2 * unat x0"
  define r where "r = unat a1 * unat x2 + unat a2 * unat x1 + ?B * (unat a2 * unat x2)"
  define s1 where "s1 = lmuladd ?m 0 3 0 + ucast (?m ! 6)"
  obtain t0 k0 where r0: "roll s1 = (t0, k0)" by fastforce
  define s2 where "s2 = lmuladd ?m 1 3 (lmuladd ?m 0 4 k0)"
  obtain t1 k1 where r1: "roll s2 = (t1, k1)" by fastforce
  define s3 where "s3 = lmuladd ?m 2 3 (lmuladd ?m 1 4 (lmuladd ?m 0 5 k1))"
  obtain t2 k2 where r2: "roll s3 = (t2, k2)" by fastforce
  have it: "iteration48 ?m = [a0, a1, a2, t0, t1, t2, c]"
    using r0 r1 r2 unfolding s1_def s2_def s3_def by (simp add: iteration48_def Let_def)
  have "unat s1 = s"
    using mac_in_range[of a0 x0 c] unfolding s1_def s_def
    by (simp add: unat_word_ariths unat_lmuladd unat_widen mod_add_left_eq)
  then have t0: "unat t0 = s mod ?B" "unat k0 = s div ?B" using unat_roll[OF r0] by simp_all
  have "unat s2 = (s div ?B + p) mod (?B * ?B)"
    unfolding s2_def p_def unat_lmuladd t0 by (simp add: mod_add_left_eq add.assoc)
  then have t1: "unat t1 = (s div ?B + p) mod ?B" "unat k1 = (s div ?B + p) mod (?B * ?B) div ?B"
    using unat_roll[OF r1] by (simp_all add: mod_mod_cancel)
  have "unat s3 = ((s div ?B + p) mod (?B * ?B) div ?B + q) mod (?B * ?B)"
    unfolding s3_def q_def unat_lmuladd t1 by (simp add: mod_add_left_eq add.assoc)
  then have t2: "unat t2 = ((s div ?B + p) mod (?B * ?B) div ?B + q) mod ?B"
    using unat_roll[OF r2] by (simp add: mod_mod_cancel)
  have "word48 t0 t1 t2 = (s + ?B * p + ?B * ?B * q) mod (?B * (?B * ?B))"
    unfolding word48_def t0 t1 t2 by (subst carry_mod) simp_all
  moreover have "word48 a0 a1 a2 * word48 x0 x1 x2 + unat c = s + ?B * p + ?B * ?B * q + ?B * (?B * ?B) * r"
    unfolding word48_def s_def p_def q_def r_def by (simp add: algebra_simps)
  ultimately have "word48 t0 t1 t2 = (word48 a0 a1 a2 * word48 x0 x1 x2 + unat c) mod (?B * (?B * ?B))"
    by (simp only: mod_mult_self2)
  then show ?thesis using it by simp
qed

text \<open>
  C25. On a string in which no character is the digit one past the base and
  whose value lies strictly between -2147483648 and 2147483648, the \<open>strtol\<close> of
  the library returns the number the C standard asks for, whatever blanks,
  sign, \<open>0x\<close> and other text surround the digits, and reports no error.
\<close>

theorem strtol_agrees:
  assumes b: "2 \<le> b" "b \<le> 36" and s: "\<forall>c\<in>set s. digit_value c \<noteq> b"
    and range: "- (2 ^ 31) < strtol s b" "strtol s b < 2 ^ 31"
  shows "\<exists>rest. libc_strtol s (int b) = ((strtol s b, None), rest)"
proof -
  define s1 where "s1 = dropWhile isspace s"
  obtain neg s2 where sg: "conv_sign s1 = (neg, s2)" by fastforce
  have sub1: "set s1 \<subseteq> set s" by (auto simp: s1_def dest: set_dropWhileD)
  have sg': "neg = (s1 \<noteq> [] \<and> hd s1 = CHR ''-'')"
    "s2 = (if s1 \<noteq> [] \<and> (hd s1 = CHR ''-'' \<or> hd s1 = CHR ''+'') then tl s1 else s1)"
    using sg by (auto simp: conv_sign_def split: list.splits if_splits)
  obtain b' s3 where pf: "conv_prefix b s2 = (b', s3)" by fastforce
  note pf' = conv_prefix_value[OF b(1) pf]
  define v where "v = strtol_digits b 0 s3"
  have st: "strtol s b = clamp_long (if neg then - int v else int v)"
    using pf' by (simp add: strtol_def Let_def s1_def[symmetric] sg'[symmetric] v_def)
  have v: "v < 2 ^ 31" using range unfolding st clamp_long_def by (auto split: if_splits)
  have "\<forall>c\<in>set s3. digit_value c \<noteq> b"
    using s sub1 pf' sg'(2) by (auto split: if_splits dest: list.set_sel(2))
  from conv_loop_digits[OF b this, of 0] v obtain rest where
    cl: "conv_loop b 0 False s3 = (of_nat v, False, rest)" by (auto simp: v_def)
  have "do_conv s (int b) True = ((if neg then - of_nat v else of_nat v, None), rest)"
    using b sg pf pf' cl by (simp add: do_conv_def s1_def[symmetric] conv_done_def)
  moreover have sv: "sint (word_of_int i :: u32) = i" if "- (2 ^ 31) \<le> i" "i < 2 ^ 31" for i
    using that by (simp add: signed_of_int signed_take_bit_int_eq_self)
  moreover have "sint (of_nat v :: u32) = int v"
    using sv[of "int v"] v by simp
  moreover have "sint (- of_nat v :: u32) = - int v"
    using sv[of "- int v"] v by simp
  moreover have "strtol s b = (if neg then - int v else int v)"
    using v unfolding st clamp_long_def by auto
  ultimately show ?thesis by (auto simp: libc_strtol_def)
qed

lemma strtol_agrees_witness:
  "\<exists>rest. libc_strtol '' -0x7Fz'' 16 = ((- 127, None), rest)"
proof -
  have v: "strtol '' -0x7Fz'' 16 = - 127" by code_simp
  have d: "\<forall>c\<in>set '' -0x7Fz''. digit_value c \<noteq> 16" by code_simp
  show ?thesis using strtol_agrees[OF _ _ d] unfolding v by simp
qed

text \<open>
  Where they differ: an overflow the check misses, the results of \<open>strtol\<close> and
  \<open>strtoul\<close> exchanged, and a digit equal to the base.
\<close>

lemma strtol_anomalies:
  "libc_strtol ''5000000000'' 10 = ((705032704, None), [])"
  "libc_strtol ''4294967296'' 10 = ((- 1, Some err_ERANGE), [])"
  "libc_strtol ''3000000000'' 10 = ((- 1294967296, None), [])"
  "libc_strtoul ''3000000000'' 10 = ((2147483647, Some err_ERANGE), [])"
  "libc_strtol ''18'' 8 = ((16, None), [])"
  by code_simp+

end
