(* ===== verification/LibTime.thy ===== *)
theory LibTime
  imports LibBase
begin

text \<open>
  Dates in the FUZIX C library: \<open>__compute_tm\<close> and \<open>gmtime_r\<close> of
  \<open>src/libs/gmtime_r.c\<close>, with the divisions of C, which truncate, and the loops
  over years and months. \<open>days_before\<close> is an independent account of the
  Gregorian calendar.
\<close>

record tm =
  tm_sec :: int
  tm_min :: int
  tm_hour :: int
  tm_mday :: int
  tm_mon :: int
  tm_year :: int
  tm_wday :: int
  tm_yday :: int
  tm_isdst :: int

definition isleap :: "int \<Rightarrow> bool" where
  "isleap year \<longleftrightarrow> year mod 4 = 0 \<and> (year mod 100 \<noteq> 0 \<or> year mod 400 = 0)"

definition mon_lengths :: "bool \<Rightarrow> int list" where
  "mon_lengths leap = (if leap
     then [31, 29, 31, 30, 31, 30, 31, 31, 30, 31, 30, 31]
     else [31, 28, 31, 30, 31, 30, 31, 31, 30, 31, 30, 31])"

definition year_length :: "int \<Rightarrow> int" where
  "year_length y = (if isleap y then 366 else 365)"

text \<open>The two loops over the years; \<open>y\<close> is a 16-bit \<open>unsigned int\<close>.\<close>

function up_years :: "int \<Rightarrow> int \<Rightarrow> int \<times> int" where
  "up_years y days =
     (let rem = year_length y
      in if rem \<le> days then up_years ((y + 1) mod 65536) (days - rem) else (y, days))"
  by pat_completeness auto
termination
  by (relation "measure (\<lambda>(y, days). nat days)") (auto simp: year_length_def split: if_splits)

function down_years :: "int \<Rightarrow> int \<Rightarrow> int \<times> int" where
  "down_years y days =
     (if days < 0
      then (let y = (y - 1) mod 65536 in down_years y (days + year_length y))
      else (y, days))"
  by pat_completeness auto
termination
  by (relation "measure (\<lambda>(y, days). nat (- days))") (auto simp: year_length_def)

declare up_years.simps [simp del] down_years.simps [simp del]

fun find_month :: "int list \<Rightarrow> int \<Rightarrow> int \<Rightarrow> (int \<times> int) option" where
  "find_month [] mon days = None"
| "find_month (len # ip) mon days =
     (if len \<le> days then find_month ip (mon + 1) (days - len) else Some (mon, days))"

text \<open>\<open>tmbuf\<close> is the structure the caller passes; \<open>tm_isdst\<close> is left as it was.\<close>

definition compute_tm :: "tm \<Rightarrow> int \<Rightarrow> int \<Rightarrow> tm option" where
  "compute_tm tmbuf days rem0 =
     (let tmbuf = tmbuf\<lparr>tm_hour := rem0 sdiv 3600\<rparr>;
          rem = rem0 smod 3600;
          tmbuf = tmbuf\<lparr>tm_min := rem sdiv 60\<rparr>;
          tmbuf = tmbuf\<lparr>tm_sec := rem smod 60\<rparr>;
          tmbuf = tmbuf\<lparr>tm_wday := (4 + days) smod 7\<rparr>;
          tmbuf = (if tm_wday tmbuf < 0 then tmbuf\<lparr>tm_wday := tm_wday tmbuf + 7\<rparr> else tmbuf);
          (y, days) = up_years 1970 days;
          (y, days) = down_years y days;
          tmbuf = tmbuf\<lparr>tm_year := wrap16 (y - 1900)\<rparr>;
          tmbuf = tmbuf\<lparr>tm_yday := days\<rparr>
      in case find_month (mon_lengths (isleap y)) 0 days of
           None \<Rightarrow> None
         | Some (mon, days) \<Rightarrow> Some (tmbuf\<lparr>tm_mon := mon, tm_mday := days + 1\<rparr>))"

definition gmtime_r :: "int \<Rightarrow> tm \<Rightarrow> tm option" where
  "gmtime_r t result = compute_tm result (wrap32 (t sdiv 86400)) (t smod 86400)"

subsection \<open>The calendar\<close>

text \<open>The days from the start of 1970 to the start of a year of the Gregorian calendar.\<close>

definition days_before :: "int \<Rightarrow> int" where
  "days_before y = 365 * (y - 1970) + (y - 1) div 4 - (y - 1) div 100 + (y - 1) div 400 - 477"

lemma div_step: "0 < k \<Longrightarrow> y div k = (y - 1) div k + (if y mod k = 0 then 1 else 0)" for y k :: int
proof -
  assume k: "0 < k"
  have "y = k * (y div k) + y mod k" "0 \<le> y mod k" "y mod k < k" using k by simp_all
  show ?thesis
  proof (cases "y mod k = 0")
    case True
    then have "y - 1 = k * (y div k - 1) + (k - 1)" using \<open>y = k * (y div k) + y mod k\<close> by (simp add: algebra_simps)
    then have "(y - 1) div k = y div k - 1" using int_div_pos_eq[of "y - 1" k "y div k - 1" "k - 1"] k by simp
    then show ?thesis using True by simp
  next
    case False
    then have "y - 1 = k * (y div k) + (y mod k - 1)" "0 \<le> y mod k - 1" "y mod k - 1 < k"
      using \<open>y = k * (y div k) + y mod k\<close> \<open>0 \<le> y mod k\<close> \<open>y mod k < k\<close> by linarith+
    then have "(y - 1) div k = y div k" by (metis int_div_pos_eq)
    then show ?thesis using False by simp
  qed
qed

lemma days_before_next: "days_before (y + 1) = days_before y + year_length y"
proof -
  have c: "y mod 100 = 0 \<Longrightarrow> y mod 4 = 0" "y mod 400 = 0 \<Longrightarrow> y mod 100 = 0"
    using mod_mod_cancel[of 4 100 y] mod_mod_cancel[of 100 400 y] by simp_all
  have "days_before (y + 1) - days_before y =
      365 + (y div 4 - (y - 1) div 4) - (y div 100 - (y - 1) div 100) + (y div 400 - (y - 1) div 400)"
    by (simp add: days_before_def)
  also have "\<dots> = 365 + (if y mod 4 = 0 then 1 else 0) - (if y mod 100 = 0 then 1 else 0) + (if y mod 400 = 0 then 1 else 0)"
    by (simp only: div_step[of 4 y] div_step[of 100 y] div_step[of 400 y] add_diff_cancel_left')
  also have "\<dots> = year_length y"
    using c by (cases "y mod 4 = 0"; cases "y mod 100 = 0"; cases "y mod 400 = 0")
      (simp_all add: year_length_def isleap_def)
  finally show ?thesis by simp
qed

lemma year_length_pos: "0 < year_length y" "year_length y \<le> 366" "365 \<le> year_length y"
  by (auto simp: year_length_def)

lemma up_years_ok:
  assumes "0 \<le> days" "0 \<le> y" "365 * (y - 1970) + days < 365 * 60000"
  shows "\<exists>y' d. up_years y days = (y', d) \<and> y \<le> y' \<and> 365 * (y' - 1970) + d \<le> 365 * (y - 1970) + days \<and>
    0 \<le> d \<and> d < year_length y' \<and> days_before y' + d = days_before y + days"
  using assms
proof (induction y days rule: up_years.induct)
  case (1 y days)
  show ?case
  proof (cases "year_length y \<le> days")
    case False
    then show ?thesis using "1.prems" by (subst up_years.simps) simp
  next
    case True
    have "y + 1 < 65536" using "1.prems" True year_length_pos(3)[of y] by auto
    then have m: "(y + 1) mod 65536 = y + 1" using "1.prems" by simp
    have "\<exists>y' d. up_years (y + 1) (days - year_length y) = (y', d) \<and> y + 1 \<le> y' \<and>
      365 * (y' - 1970) + d \<le> 365 * (y + 1 - 1970) + (days - year_length y) \<and>
      0 \<le> d \<and> d < year_length y' \<and> days_before y' + d = days_before (y + 1) + (days - year_length y)"
      using "1.IH"[OF refl True] "1.prems" True year_length_pos(3)[of y] unfolding m by auto
    moreover have "up_years y days = up_years (y + 1) (days - year_length y)"
      using True m by (subst up_years.simps) simp
    ultimately show ?thesis using days_before_next[of y] year_length_pos(3)[of y] by auto
  qed
qed

lemma find_month_ok:
  assumes "0 \<le> days" "days < sum_list ls" 
  shows "\<exists>n d. find_month ls mon days = Some (mon + int n, d) \<and> n < length ls \<and> 0 \<le> d \<and> d < ls ! n \<and>
    sum_list (take n ls) + d = days"
  using assms
proof (induction ls mon days rule: find_month.induct)
  case (2 len ip mon days)
  show ?case
  proof (cases "len \<le> days")
    case True
    then obtain n d where "find_month ip (mon + 1) (days - len) = Some (mon + 1 + int n, d)" "n < length ip"
      "0 \<le> d" "d < ip ! n" "sum_list (take n ip) + d = days - len"
      using 2 by auto
    then show ?thesis using True by (intro exI[of _ "Suc n"] exI[of _ d]) auto
  next
    case False
    then show ?thesis using "2.prems" by (intro exI[of _ 0] exI[of _ days]) auto
  qed
qed simp

lemma sum_mon_lengths: "sum_list (mon_lengths (isleap y)) = year_length y"
  by (simp add: mon_lengths_def year_length_def)

lemma clock_sum: "3600 * (r div 3600) + 60 * (r mod 3600 div 60) + r mod 3600 mod 60 = (r :: int)"
  using mult_div_mod_eq[of 3600 r] mult_div_mod_eq[of 60 "r mod 3600"] by linarith

lemma gmtime_before_epoch:
  "gmtime_r (- 1) r = Some (r\<lparr>tm_hour := 0, tm_min := 0, tm_sec := - 1, tm_wday := 4, tm_year := 70, tm_yday := 0,
     tm_mon := 0, tm_mday := 1\<rparr>)"
  by (simp add: gmtime_r_def compute_tm_def wrap32_def wrap16_def up_years.simps[of 1970 0] down_years.simps[of 1970 0]
      year_length_def isleap_def mon_lengths_def signed_divide_int_def signed_modulo_int_def Let_def)

lemma clock_bounds:
  "0 \<le> r div 3600 \<and> r div 3600 < 24" "0 \<le> r mod 3600 div 60 \<and> r mod 3600 div 60 < 60" "0 \<le> r mod 3600 mod 60 \<and> r mod 3600 mod 60 < 60"
  if "0 \<le> r" "r < 86400" for r :: int
  using that pos_mod_bound[of 3600 r] pos_mod_sign[of 3600 r] by (auto; linarith)+

lemma sdiv_smod_nonneg: "a sdiv b = a div b" "a smod b = a mod b" if "0 \<le> a" "0 < b" for a b :: int
  using that by (cases "a = 0"; simp add: signed_divide_int_def signed_modulo_int_def sgn_1_pos)+

text \<open>
  \<open>on_day d y yd n md\<close>: the search for day \<open>d\<close> arrives in year \<open>y\<close>, \<open>yd\<close> days
  after its start, \<open>md\<close> days after the start of its month \<open>n\<close>. \<open>date_tm\<close> is the
  structure filled from these.
\<close>

definition on_day :: "int \<Rightarrow> int \<Rightarrow> int \<Rightarrow> nat \<Rightarrow> int \<Rightarrow> bool" where
  "on_day d y yd n md \<longleftrightarrow>
     up_years 1970 d = (y, yd) \<and> 1970 \<le> y \<and> 365 * (y - 1970) + yd \<le> d \<and> 0 \<le> yd \<and> days_before y + yd = d \<and>
     find_month (mon_lengths (isleap y)) 0 yd = Some (int n, md) \<and> n < 12 \<and>
     0 \<le> md \<and> md < mon_lengths (isleap y) ! n \<and> sum_list (take n (mon_lengths (isleap y))) + md = yd"

definition date_tm :: "tm \<Rightarrow> int \<Rightarrow> int \<Rightarrow> int \<Rightarrow> int \<Rightarrow> nat \<Rightarrow> int \<Rightarrow> tm" where
  "date_tm result d r y yd n md =
     result\<lparr>tm_hour := r div 3600, tm_min := r mod 3600 div 60, tm_sec := r mod 3600 mod 60,
       tm_wday := (4 + d) mod 7, tm_year := y - 1900, tm_yday := yd, tm_mon := int n, tm_mday := md + 1\<rparr>"

lemma on_day_bounds:
  "on_day d y yd n md \<Longrightarrow> 1970 \<le> y" "on_day d y yd n md \<Longrightarrow> n < 12"
  by (simp_all add: on_day_def)

lemma date_of_day:
  assumes "0 \<le> d" "d < 11900000"
  shows "\<exists>y yd n md. on_day d y yd n md"
proof -
  from up_years_ok[of d 1970] assms obtain y yd where
    y: "up_years 1970 d = (y, yd)" "1970 \<le> y" "365 * (y - 1970) + yd \<le> d" "0 \<le> yd" "yd < year_length y"
      "days_before y + yd = days_before 1970 + d" by auto
  from find_month_ok[of yd "mon_lengths (isleap y)" 0] y(4,5) obtain n md where
    m: "find_month (mon_lengths (isleap y)) 0 yd = Some (int n, md)" "n < length (mon_lengths (isleap y))"
      "0 \<le> md" "md < mon_lengths (isleap y) ! n" "sum_list (take n (mon_lengths (isleap y))) + md = yd"
    by (auto simp: sum_mon_lengths)
  have "n < 12" using m(2) by (simp add: mon_lengths_def split: if_splits)
  moreover have "days_before 1970 = 0" by (simp add: days_before_def)
  ultimately have "on_day d y yd n md" using y m by (simp add: on_day_def)
  then show ?thesis by blast
qed

lemma gmtime_r_date:
  assumes "0 \<le> t" "t < 86400 * 11900000" and y: "on_day (t div 86400) y yd n md"
  shows "gmtime_r t result = Some (date_tm result (t div 86400) (t mod 86400) y yd n md)"
proof -
  let ?d = "t div 86400" and ?r = "t mod 86400"
  have d: "0 \<le> ?d" "?d < 11900000" and r: "0 \<le> ?r" using assms(1,2) by simp_all
  have e: "t sdiv 86400 = ?d" "t smod 86400 = ?r" "wrap32 ?d = ?d"
    using assms(1) d sdiv_smod_nonneg by (simp_all add: wrap32_def)
  have dn: "down_years y yd = (y, yd)" using y by (subst down_years.simps) (simp add: on_day_def)
  have w: "wrap16 (y - 1900) = y - 1900" using y d by (intro wrap16_in) (auto simp: on_day_def)
  have wd: "(4 + ?d) smod 7 = (4 + ?d) mod 7" "\<not> (4 + ?d) mod 7 < 0" using d sdiv_smod_nonneg by simp_all
  show ?thesis
    unfolding gmtime_r_def e compute_tm_def Let_def date_tm_def
    using y[unfolded on_day_def] dn w wd sdiv_smod_nonneg r by simp
qed

subsection \<open>Properties\<close>

text \<open>
  C26. For any time from the epoch to the end of the range of \<open>tm_year\<close>, \<open>gmtime_r\<close>
  returns the date: the year, month and day that lie that many days after the
  first of January 1970 in the Gregorian calendar, the day of the year and of
  the week, and the time of day.
\<close>

theorem gmtime_date:
  assumes "0 \<le> t" "t < 86400 * 11900000"
  shows "\<exists>tm y n. gmtime_r t result = Some tm \<and> 1970 \<le> y \<and> tm_year tm = y - 1900 \<and>
    n < 12 \<and> tm_mon tm = int n \<and> 1 \<le> tm_mday tm \<and> tm_mday tm \<le> mon_lengths (isleap y) ! n \<and>
    tm_yday tm = sum_list (take n (mon_lengths (isleap y))) + tm_mday tm - 1 \<and>
    days_before y + tm_yday tm = t div 86400 \<and>
    3600 * tm_hour tm + 60 * tm_min tm + tm_sec tm = t mod 86400 \<and>
    0 \<le> tm_hour tm \<and> tm_hour tm < 24 \<and> 0 \<le> tm_min tm \<and> tm_min tm < 60 \<and> 0 \<le> tm_sec tm \<and> tm_sec tm < 60 \<and>
    tm_wday tm = (4 + t div 86400) mod 7 \<and> tm_isdst tm = tm_isdst result"
proof -
  let ?d = "t div 86400" and ?r = "t mod 86400"
  have d: "0 \<le> ?d" "?d < 11900000" using assms by simp_all
  from date_of_day[OF d] obtain y yd n md where y: "on_day ?d y yd n md" by blast
  note f = on_day_bounds[OF y] and sums = y[unfolded on_day_def]
  show ?thesis
  proof (intro exI[of _ "date_tm result ?d ?r y yd n md"] exI[of _ y] exI[of _ n] conjI)
    show "gmtime_r t result = Some (date_tm result ?d ?r y yd n md)" using gmtime_r_date[OF assms y] .
    show "1970 \<le> y" "n < 12" by (fact f)+
  qed (use f sums clock_sum[of ?r] clock_bounds[of ?r] in \<open>simp_all add: date_tm_def\<close>)
qed

definition demo_tm :: tm where
  "demo_tm = \<lparr>tm_sec = 0, tm_min = 0, tm_hour = 0, tm_mday = 0, tm_mon = 0, tm_year = 0, tm_wday = 0, tm_yday = 0,
     tm_isdst = - 1\<rparr>"

lemma gmtime_date_witness:
  "\<exists>tm y n. gmtime_r 951782400 demo_tm = Some tm \<and> tm_year tm = y - 1900 \<and> days_before y + tm_yday tm = 11016 \<and>
     tm_mon tm = int n \<and> tm_wday tm = 2 \<and> tm_isdst tm = - 1"
  using gmtime_date[of 951782400 demo_tm] by (auto simp: demo_tm_def)

end
