(* ===== verification/LibAes.thy ===== *)
theory LibAes
  imports LibBase
begin

text \<open>
  The AES-256 cipher of the FUZIX C library, \<open>src/libs/aes256.c\<close>. Buffers and keys are
  lists of bytes that the functions update one index after the other, in the
  order of the code. The key schedule runs in place, forwards in \<open>aes_expandEncKey\<close>
  and backwards in \<open>aes_expandDecKey\<close>. The S-box is the pair of tables that
  \<open>BACK_TO_TABLES\<close> selects; the code that computes it is never compiled.
\<close>

unbundle bit_operations_syntax

subsection \<open>Field arithmetic and the S-box\<close>

definition sbox :: "u8 list" where
  "sbox =
    [0x63, 0x7c, 0x77, 0x7b, 0xf2, 0x6b, 0x6f, 0xc5, 0x30, 0x01, 0x67, 0x2b, 0xfe, 0xd7, 0xab, 0x76,
     0xca, 0x82, 0xc9, 0x7d, 0xfa, 0x59, 0x47, 0xf0, 0xad, 0xd4, 0xa2, 0xaf, 0x9c, 0xa4, 0x72, 0xc0,
     0xb7, 0xfd, 0x93, 0x26, 0x36, 0x3f, 0xf7, 0xcc, 0x34, 0xa5, 0xe5, 0xf1, 0x71, 0xd8, 0x31, 0x15,
     0x04, 0xc7, 0x23, 0xc3, 0x18, 0x96, 0x05, 0x9a, 0x07, 0x12, 0x80, 0xe2, 0xeb, 0x27, 0xb2, 0x75,
     0x09, 0x83, 0x2c, 0x1a, 0x1b, 0x6e, 0x5a, 0xa0, 0x52, 0x3b, 0xd6, 0xb3, 0x29, 0xe3, 0x2f, 0x84,
     0x53, 0xd1, 0x00, 0xed, 0x20, 0xfc, 0xb1, 0x5b, 0x6a, 0xcb, 0xbe, 0x39, 0x4a, 0x4c, 0x58, 0xcf,
     0xd0, 0xef, 0xaa, 0xfb, 0x43, 0x4d, 0x33, 0x85, 0x45, 0xf9, 0x02, 0x7f, 0x50, 0x3c, 0x9f, 0xa8,
     0x51, 0xa3, 0x40, 0x8f, 0x92, 0x9d, 0x38, 0xf5, 0xbc, 0xb6, 0xda, 0x21, 0x10, 0xff, 0xf3, 0xd2,
     0xcd, 0x0c, 0x13, 0xec, 0x5f, 0x97, 0x44, 0x17, 0xc4, 0xa7, 0x7e, 0x3d, 0x64, 0x5d, 0x19, 0x73,
     0x60, 0x81, 0x4f, 0xdc, 0x22, 0x2a, 0x90, 0x88, 0x46, 0xee, 0xb8, 0x14, 0xde, 0x5e, 0x0b, 0xdb,
     0xe0, 0x32, 0x3a, 0x0a, 0x49, 0x06, 0x24, 0x5c, 0xc2, 0xd3, 0xac, 0x62, 0x91, 0x95, 0xe4, 0x79,
     0xe7, 0xc8, 0x37, 0x6d, 0x8d, 0xd5, 0x4e, 0xa9, 0x6c, 0x56, 0xf4, 0xea, 0x65, 0x7a, 0xae, 0x08,
     0xba, 0x78, 0x25, 0x2e, 0x1c, 0xa6, 0xb4, 0xc6, 0xe8, 0xdd, 0x74, 0x1f, 0x4b, 0xbd, 0x8b, 0x8a,
     0x70, 0x3e, 0xb5, 0x66, 0x48, 0x03, 0xf6, 0x0e, 0x61, 0x35, 0x57, 0xb9, 0x86, 0xc1, 0x1d, 0x9e,
     0xe1, 0xf8, 0x98, 0x11, 0x69, 0xd9, 0x8e, 0x94, 0x9b, 0x1e, 0x87, 0xe9, 0xce, 0x55, 0x28, 0xdf,
     0x8c, 0xa1, 0x89, 0x0d, 0xbf, 0xe6, 0x42, 0x68, 0x41, 0x99, 0x2d, 0x0f, 0xb0, 0x54, 0xbb, 0x16]"

definition sboxinv :: "u8 list" where
  "sboxinv =
    [0x52, 0x09, 0x6a, 0xd5, 0x30, 0x36, 0xa5, 0x38, 0xbf, 0x40, 0xa3, 0x9e, 0x81, 0xf3, 0xd7, 0xfb,
     0x7c, 0xe3, 0x39, 0x82, 0x9b, 0x2f, 0xff, 0x87, 0x34, 0x8e, 0x43, 0x44, 0xc4, 0xde, 0xe9, 0xcb,
     0x54, 0x7b, 0x94, 0x32, 0xa6, 0xc2, 0x23, 0x3d, 0xee, 0x4c, 0x95, 0x0b, 0x42, 0xfa, 0xc3, 0x4e,
     0x08, 0x2e, 0xa1, 0x66, 0x28, 0xd9, 0x24, 0xb2, 0x76, 0x5b, 0xa2, 0x49, 0x6d, 0x8b, 0xd1, 0x25,
     0x72, 0xf8, 0xf6, 0x64, 0x86, 0x68, 0x98, 0x16, 0xd4, 0xa4, 0x5c, 0xcc, 0x5d, 0x65, 0xb6, 0x92,
     0x6c, 0x70, 0x48, 0x50, 0xfd, 0xed, 0xb9, 0xda, 0x5e, 0x15, 0x46, 0x57, 0xa7, 0x8d, 0x9d, 0x84,
     0x90, 0xd8, 0xab, 0x00, 0x8c, 0xbc, 0xd3, 0x0a, 0xf7, 0xe4, 0x58, 0x05, 0xb8, 0xb3, 0x45, 0x06,
     0xd0, 0x2c, 0x1e, 0x8f, 0xca, 0x3f, 0x0f, 0x02, 0xc1, 0xaf, 0xbd, 0x03, 0x01, 0x13, 0x8a, 0x6b,
     0x3a, 0x91, 0x11, 0x41, 0x4f, 0x67, 0xdc, 0xea, 0x97, 0xf2, 0xcf, 0xce, 0xf0, 0xb4, 0xe6, 0x73,
     0x96, 0xac, 0x74, 0x22, 0xe7, 0xad, 0x35, 0x85, 0xe2, 0xf9, 0x37, 0xe8, 0x1c, 0x75, 0xdf, 0x6e,
     0x47, 0xf1, 0x1a, 0x71, 0x1d, 0x29, 0xc5, 0x89, 0x6f, 0xb7, 0x62, 0x0e, 0xaa, 0x18, 0xbe, 0x1b,
     0xfc, 0x56, 0x3e, 0x4b, 0xc6, 0xd2, 0x79, 0x20, 0x9a, 0xdb, 0xc0, 0xfe, 0x78, 0xcd, 0x5a, 0xf4,
     0x1f, 0xdd, 0xa8, 0x33, 0x88, 0x07, 0xc7, 0x31, 0xb1, 0x12, 0x10, 0x59, 0x27, 0x80, 0xec, 0x5f,
     0x60, 0x51, 0x7f, 0xa9, 0x19, 0xb5, 0x4a, 0x0d, 0x2d, 0xe5, 0x7a, 0x9f, 0x93, 0xc9, 0x9c, 0xef,
     0xa0, 0xe0, 0x3b, 0x4d, 0xae, 0x2a, 0xf5, 0xb0, 0xc8, 0xeb, 0xbb, 0x3c, 0x83, 0x53, 0x99, 0x61,
     0x17, 0x2b, 0x04, 0x7e, 0xba, 0x77, 0xd6, 0x26, 0xe1, 0x69, 0x14, 0x63, 0x55, 0x21, 0x0c, 0x7d]"

definition rj_sbox :: "u8 \<Rightarrow> u8" where
  "rj_sbox x = sbox ! unat x"

definition rj_sbox_inv :: "u8 \<Rightarrow> u8" where
  "rj_sbox_inv x = sboxinv ! unat x"

definition rj_xtime :: "u8 \<Rightarrow> u8" where
  "rj_xtime x = (let y = push_bit 1 x in if x AND 0x80 \<noteq> 0 then y XOR 0x1b else y)"

definition FD :: "u8 \<Rightarrow> u8" where
  "FD x = drop_bit 1 x XOR (if x AND 1 \<noteq> 0 then 0x8d else 0)"

subsection \<open>Operations on the buffer\<close>

text \<open>The loop \<open>while (i--)\<close>: the body for \<open>n - 1\<close> down to 0.\<close>

primrec while_down :: "nat \<Rightarrow> (nat \<Rightarrow> 's \<Rightarrow> 's) \<Rightarrow> 's \<Rightarrow> 's" where
  "while_down 0 f s = s"
| "while_down (Suc n) f s = while_down n f (f n s)"

definition aes_subBytes :: "u8 list \<Rightarrow> u8 list" where
  "aes_subBytes = while_down 16 (\<lambda>i buf. buf[i := rj_sbox (buf ! i)])"

definition aes_subBytes_inv :: "u8 list \<Rightarrow> u8 list" where
  "aes_subBytes_inv = while_down 16 (\<lambda>i buf. buf[i := rj_sbox_inv (buf ! i)])"

definition aes_addRoundKey :: "u8 list \<Rightarrow> u8 list \<Rightarrow> u8 list" where
  "aes_addRoundKey key = while_down 16 (\<lambda>i buf. buf[i := buf ! i XOR key ! i])"

definition aes_cpyaddRoundKey :: "u8 list \<Rightarrow> u8 list \<times> u8 list \<Rightarrow> u8 list \<times> u8 list" where
  "aes_cpyaddRoundKey key = while_down 16 (\<lambda>i (buf, cpk).
     let cpk = cpk[i := key ! i];
         buf = buf[i := buf ! i XOR cpk ! i];
         cpk = cpk[16 + i := key ! (16 + i)]
     in (buf, cpk))"

definition aes_shiftRows :: "u8 list \<Rightarrow> u8 list" where
  "aes_shiftRows buf =
     (let i = buf ! 1; buf = buf[1 := buf ! 5]; buf = buf[5 := buf ! 9]; buf = buf[9 := buf ! 13]; buf = buf[13 := i];
          i = buf ! 10; buf = buf[10 := buf ! 2]; buf = buf[2 := i];
          j = buf ! 3; buf = buf[3 := buf ! 15]; buf = buf[15 := buf ! 11]; buf = buf[11 := buf ! 7]; buf = buf[7 := j];
          j = buf ! 14; buf = buf[14 := buf ! 6]; buf = buf[6 := j]
      in buf)"

definition aes_shiftRows_inv :: "u8 list \<Rightarrow> u8 list" where
  "aes_shiftRows_inv buf =
     (let i = buf ! 1; buf = buf[1 := buf ! 13]; buf = buf[13 := buf ! 9]; buf = buf[9 := buf ! 5]; buf = buf[5 := i];
          i = buf ! 2; buf = buf[2 := buf ! 10]; buf = buf[10 := i];
          j = buf ! 3; buf = buf[3 := buf ! 7]; buf = buf[7 := buf ! 11]; buf = buf[11 := buf ! 15]; buf = buf[15 := j];
          j = buf ! 6; buf = buf[6 := buf ! 14]; buf = buf[14 := j]
      in buf)"

definition mix_column :: "nat \<Rightarrow> u8 list \<Rightarrow> u8 list" where
  "mix_column i buf =
     (let a = buf ! i; b = buf ! (i + 1); c = buf ! (i + 2); d = buf ! (i + 3);
          e = a XOR b XOR c XOR d;
          buf = buf[i := buf ! i XOR (e XOR rj_xtime (a XOR b))];
          buf = buf[i + 1 := buf ! (i + 1) XOR (e XOR rj_xtime (b XOR c))];
          buf = buf[i + 2 := buf ! (i + 2) XOR (e XOR rj_xtime (c XOR d))];
          buf = buf[i + 3 := buf ! (i + 3) XOR (e XOR rj_xtime (d XOR a))]
      in buf)"

definition mix_column_inv :: "nat \<Rightarrow> u8 list \<Rightarrow> u8 list" where
  "mix_column_inv i buf =
     (let a = buf ! i; b = buf ! (i + 1); c = buf ! (i + 2); d = buf ! (i + 3);
          e = a XOR b XOR c XOR d;
          z = rj_xtime e;
          x = e XOR rj_xtime (rj_xtime (z XOR a XOR c));
          y = e XOR rj_xtime (rj_xtime (z XOR b XOR d));
          buf = buf[i := buf ! i XOR (x XOR rj_xtime (a XOR b))];
          buf = buf[i + 1 := buf ! (i + 1) XOR (y XOR rj_xtime (b XOR c))];
          buf = buf[i + 2 := buf ! (i + 2) XOR (x XOR rj_xtime (c XOR d))];
          buf = buf[i + 3 := buf ! (i + 3) XOR (y XOR rj_xtime (d XOR a))]
      in buf)"

definition aes_mixColumns :: "u8 list \<Rightarrow> u8 list" where
  "aes_mixColumns buf = foldl (\<lambda>buf i. mix_column i buf) buf [0, 4, 8, 12]"

definition aes_mixColumns_inv :: "u8 list \<Rightarrow> u8 list" where
  "aes_mixColumns_inv buf = foldl (\<lambda>buf i. mix_column_inv i buf) buf [0, 4, 8, 12]"

subsection \<open>The key schedule\<close>

text \<open>The loop bodies and the two blocks around them, each four bytes of the key.\<close>

definition xor_previous :: "nat \<Rightarrow> u8 list \<Rightarrow> u8 list" where
  "xor_previous i k =
     (let k = k[i := k ! i XOR k ! (i - 4)];
          k = k[i + 1 := k ! (i + 1) XOR k ! (i - 3)];
          k = k[i + 2 := k ! (i + 2) XOR k ! (i - 2)];
          k = k[i + 3 := k ! (i + 3) XOR k ! (i - 1)]
      in k)"

definition xor_rotated :: "u8 \<Rightarrow> u8 list \<Rightarrow> u8 list" where
  "xor_rotated rc k =
     (let k = k[0 := k ! 0 XOR (rj_sbox (k ! 29) XOR rc)];
          k = k[1 := k ! 1 XOR rj_sbox (k ! 30)];
          k = k[2 := k ! 2 XOR rj_sbox (k ! 31)];
          k = k[3 := k ! 3 XOR rj_sbox (k ! 28)]
      in k)"

definition xor_middle :: "u8 list \<Rightarrow> u8 list" where
  "xor_middle k =
     (let k = k[16 := k ! 16 XOR rj_sbox (k ! 12)];
          k = k[17 := k ! 17 XOR rj_sbox (k ! 13)];
          k = k[18 := k ! 18 XOR rj_sbox (k ! 14)];
          k = k[19 := k ! 19 XOR rj_sbox (k ! 15)]
      in k)"

definition aes_expandEncKey :: "u8 list \<times> u8 \<Rightarrow> u8 list \<times> u8" where
  "aes_expandEncKey = (\<lambda>(k, rc).
     let k = xor_rotated rc k;
         rc = rj_xtime rc;
         k = foldl (\<lambda>k i. xor_previous i k) k [4, 8, 12];
         k = xor_middle k;
         k = foldl (\<lambda>k i. xor_previous i k) k [20, 24, 28]
     in (k, rc))"

definition aes_expandDecKey :: "u8 list \<times> u8 \<Rightarrow> u8 list \<times> u8" where
  "aes_expandDecKey = (\<lambda>(k, rc).
     let k = foldl (\<lambda>k i. xor_previous i k) k [28, 24, 20];
         k = xor_middle k;
         k = foldl (\<lambda>k i. xor_previous i k) k [12, 8, 4];
         rc = FD rc;
         k = xor_rotated rc k
     in (k, rc))"

subsection \<open>The interface\<close>

record aes256_context =
  key :: "u8 list"
  enckey :: "u8 list"
  deckey :: "u8 list"

primrec repeat_expand :: "nat \<Rightarrow> u8 list \<times> u8 \<Rightarrow> u8 list \<times> u8" where
  "repeat_expand 0 s = s"
| "repeat_expand (Suc n) s = repeat_expand n (aes_expandEncKey s)"

definition aes256_init :: "u8 list \<Rightarrow> aes256_context \<Rightarrow> aes256_context" where
  "aes256_init k ctx =
     (let rcon = 1;
          ctx = foldl (\<lambda>ctx i. ctx\<lparr>deckey := (deckey ctx)[i := k ! i], enckey := (enckey ctx)[i := k ! i]\<rparr>) ctx [0..<32]
      in ctx\<lparr>deckey := fst (repeat_expand 7 (deckey ctx, rcon))\<rparr>)"

definition aes256_done :: "aes256_context \<Rightarrow> aes256_context" where
  "aes256_done ctx =
     foldl (\<lambda>ctx i. ctx\<lparr>deckey := (deckey ctx)[i := 0], enckey := (enckey ctx)[i := 0], key := (key ctx)[i := 0]\<rparr>) ctx [0..<32]"

definition enc_round :: "nat \<Rightarrow> u8 list \<times> u8 list \<times> u8 \<Rightarrow> u8 list \<times> u8 list \<times> u8" where
  "enc_round i = (\<lambda>(buf, k, rcon).
     let buf = aes_mixColumns (aes_shiftRows (aes_subBytes buf))
     in if odd i then (aes_addRoundKey (drop 16 k) buf, k, rcon)
        else (let (k, rcon) = aes_expandEncKey (k, rcon) in (aes_addRoundKey k buf, k, rcon)))"

definition aes256_encrypt_ecb :: "aes256_context \<Rightarrow> u8 list \<Rightarrow> u8 list \<times> aes256_context" where
  "aes256_encrypt_ecb ctx buf =
     (let (buf, k) = aes_cpyaddRoundKey (enckey ctx) (buf, key ctx);
          (buf, k, rcon) = foldl (\<lambda>s i. enc_round i s) (buf, k, 1) [1..<14];
          buf = aes_shiftRows (aes_subBytes buf);
          (k, rcon) = aes_expandEncKey (k, rcon)
      in (aes_addRoundKey k buf, ctx\<lparr>key := k\<rparr>))"

definition dec_round :: "nat \<Rightarrow> u8 list \<times> u8 list \<times> u8 \<Rightarrow> u8 list \<times> u8 list \<times> u8" where
  "dec_round i = (\<lambda>(buf, k, rcon).
     let (buf, k, rcon) =
           (if odd i then (let (k, rcon) = aes_expandDecKey (k, rcon) in (aes_addRoundKey (drop 16 k) buf, k, rcon))
            else (aes_addRoundKey k buf, k, rcon))
     in (aes_subBytes_inv (aes_shiftRows_inv (aes_mixColumns_inv buf)), k, rcon))"

definition aes256_decrypt_ecb :: "aes256_context \<Rightarrow> u8 list \<Rightarrow> u8 list \<times> aes256_context" where
  "aes256_decrypt_ecb ctx buf =
     (let (buf, k) = aes_cpyaddRoundKey (deckey ctx) (buf, key ctx);
          buf = aes_subBytes_inv (aes_shiftRows_inv buf);
          (buf, k, rcon) = foldl (\<lambda>s i. dec_round i s) (buf, k, 0x80) (rev [1..<14])
      in (aes_addRoundKey k buf, ctx\<lparr>key := k\<rparr>))"

end
