(* ===== verification/AesSpec.thy ===== *)
theory AesSpec
  imports LibAes
begin

text \<open>
  Decryption undoes encryption. Each layer of a round has an inverse: the two
  S-boxes by evaluation, the rows by permutation, the columns because \<open>rj_xtime\<close>
  is linear, the round keys because XOR cancels. The key schedule of the
  decryption walks back over the one of the encryption, and \<open>sched\<close> says which
  key each round of either finds. \<open>forward\<close> and \<open>backward\<close> are the effect of a round
  on the buffer.
\<close>

lemma rj_sbox_inverse: "rj_sbox_inv (rj_sbox x) = x"
  unfolding rj_sbox_def rj_sbox_inv_def by (rule all_u8) code_simp

subsection \<open>Byte loops\<close>

lemma while_down_bytes:
  assumes "n \<le> length buf"
  shows "while_down n (\<lambda>i b. b[i := g i (b ! i)]) buf = map (\<lambda>i. if i < n then g i (buf ! i) else buf ! i) [0..<length buf]"
  using assms
proof (induction n arbitrary: buf)
  case 0
  then show ?case by (simp add: map_nth)
next
  case (Suc n)
  then show ?case by (intro nth_equalityI) (auto simp: nth_list_update less_Suc_eq)
qed

lemma bytes_ops:
  assumes "length buf = 16"
  shows "aes_subBytes buf = map rj_sbox buf" "aes_subBytes_inv buf = map rj_sbox_inv buf"
    "aes_addRoundKey k buf = map (\<lambda>i. buf ! i XOR k ! i) [0..<16]"
  unfolding aes_subBytes_def aes_subBytes_inv_def aes_addRoundKey_def
  using assms while_down_bytes[of 16 buf "\<lambda>_. rj_sbox"] while_down_bytes[of 16 buf "\<lambda>_. rj_sbox_inv"]
    while_down_bytes[of 16 buf "\<lambda>i x. x XOR k ! i"]
  by (auto intro!: nth_equalityI)

lemma cpyaddRoundKey_ops:
  assumes "length buf = 16" "length k = 32" "length cpk = 32"
  shows "aes_cpyaddRoundKey k (buf, cpk) = (aes_addRoundKey k buf, k)"
proof -
  have "while_down n (\<lambda>i (buf, cpk).
     let cpk = cpk[i := k ! i]; buf = buf[i := buf ! i XOR cpk ! i]; cpk = cpk[16 + i := k ! (16 + i)] in (buf, cpk)) (buf, cpk) =
    (while_down n (\<lambda>i b. b[i := b ! i XOR k ! i]) buf,
     map (\<lambda>i. if i < n \<or> 16 \<le> i \<and> i < 16 + n then k ! i else cpk ! i) [0..<32])"
    if "n \<le> 16" "length cpk = 32" for n buf cpk
    using that
  proof (induction n arbitrary: buf cpk)
    case 0
    then show ?case by (auto intro!: nth_equalityI)
  next
    case (Suc n)
    then show ?case by (auto intro!: nth_equalityI simp: nth_list_update less_Suc_eq)
  qed
  from this[of 16 cpk buf] assms show ?thesis
    unfolding aes_cpyaddRoundKey_def aes_addRoundKey_def by (auto intro!: nth_equalityI)
qed

lemma length_16:
  assumes "length buf = 16"
  obtains a b c d e f g h i j k l m n o' p where "buf = [a, b, c, d, e, f, g, h, i, j, k, l, m, n, o', p]"
  using assms by (auto simp: length_Suc_conv eval_nat_numeral)

lemma shiftRows_inverse:
  assumes "length buf = 16"
  shows "aes_shiftRows_inv (aes_shiftRows buf) = buf" "length (aes_shiftRows buf) = 16" "length (aes_shiftRows_inv buf) = 16"
  using assms by (rule length_16, simp add: aes_shiftRows_def aes_shiftRows_inv_def Let_def)+

lemma xtime_xor: "rj_xtime (x XOR y) = rj_xtime x XOR rj_xtime y"
proof -
  have *: "(z AND 0x80 \<noteq> 0) = bit z 7" for z :: u8
    using bit_iff_and_push_bit_not_eq_0[of z 7] by simp
  show ?thesis
    unfolding rj_xtime_def Let_def * by (auto simp: bit_simps ac_simps)
qed

lemma xor_cancel: "(a :: u8) XOR (a XOR b) = b"
  by (simp flip: xor.assoc)

lemmas xor_normal = xtime_xor xor.assoc xor.commute xor.left_commute xor_cancel bit.xor_self xor.right_neutral xor.left_neutral

lemma unmix:
  fixes a b c d :: u8
  defines "a' \<equiv> a XOR (a XOR b XOR c XOR d XOR rj_xtime (a XOR b))"
    and "b' \<equiv> b XOR (a XOR b XOR c XOR d XOR rj_xtime (b XOR c))"
    and "c' \<equiv> c XOR (a XOR b XOR c XOR d XOR rj_xtime (c XOR d))"
    and "d' \<equiv> d XOR (a XOR b XOR c XOR d XOR rj_xtime (d XOR a))"
  defines "e \<equiv> a' XOR b' XOR c' XOR d'"
  defines "x \<equiv> e XOR rj_xtime (rj_xtime (rj_xtime e XOR a' XOR c'))"
    and "y \<equiv> e XOR rj_xtime (rj_xtime (rj_xtime e XOR b' XOR d'))"
  shows "a' XOR (x XOR rj_xtime (a' XOR b')) = a" "b' XOR (y XOR rj_xtime (b' XOR c')) = b"
    "c' XOR (x XOR rj_xtime (c' XOR d')) = c" "d' XOR (y XOR rj_xtime (d' XOR a')) = d"
proof -
  have e: "e = a XOR b XOR c XOR d"
    unfolding e_def a'_def b'_def c'_def d'_def by (simp add: xor_normal)
  have ac: "rj_xtime e XOR a' XOR c' = a XOR c"
    unfolding e a'_def c'_def by (simp add: xor_normal)
  have bd: "rj_xtime e XOR b' XOR d' = b XOR d"
    unfolding e b'_def d'_def by (simp add: xor_normal)
  show "a' XOR (x XOR rj_xtime (a' XOR b')) = a" "b' XOR (y XOR rj_xtime (b' XOR c')) = b"
    "c' XOR (x XOR rj_xtime (c' XOR d')) = c" "d' XOR (y XOR rj_xtime (d' XOR a')) = d"
    unfolding x_def y_def ac bd e unfolding a'_def b'_def c'_def d'_def by (simp_all add: xor_normal)
qed

lemma mix_column_nth:
  assumes "i + 3 < length buf"
  shows "mix_column i buf ! i = buf ! i XOR (buf ! i XOR buf ! (i + 1) XOR buf ! (i + 2) XOR buf ! (i + 3) XOR rj_xtime (buf ! i XOR buf ! (i + 1)))"
    "mix_column i buf ! (i + 1) = buf ! (i + 1) XOR (buf ! i XOR buf ! (i + 1) XOR buf ! (i + 2) XOR buf ! (i + 3) XOR rj_xtime (buf ! (i + 1) XOR buf ! (i + 2)))"
    "mix_column i buf ! (i + 2) = buf ! (i + 2) XOR (buf ! i XOR buf ! (i + 1) XOR buf ! (i + 2) XOR buf ! (i + 3) XOR rj_xtime (buf ! (i + 2) XOR buf ! (i + 3)))"
    "mix_column i buf ! (i + 3) = buf ! (i + 3) XOR (buf ! i XOR buf ! (i + 1) XOR buf ! (i + 2) XOR buf ! (i + 3) XOR rj_xtime (buf ! (i + 3) XOR buf ! i))"
    "j \<notin> {i, i + 1, i + 2, i + 3} \<Longrightarrow> mix_column i buf ! j = buf ! j"
  using assms by (simp_all add: mix_column_def Let_def xor.assoc)

lemma mix_column_inverse:
  assumes "i + 3 < length buf"
  shows "mix_column_inv i (mix_column i buf) = buf"
proof (rule nth_equalityI)
  let ?m = "mix_column i buf"
  have len: "length ?m = length buf" by (simp add: mix_column_def Let_def)
  then show "length (mix_column_inv i ?m) = length buf" by (simp add: mix_column_inv_def Let_def)
  fix j assume "j < length (mix_column_inv i ?m)"
  consider "j = i" | "j = i + 1" | "j = i + 2" | "j = i + 3" | "j \<notin> {i, i + 1, i + 2, i + 3}" by blast
  then show "mix_column_inv i ?m ! j = buf ! j"
  proof cases
    case 5
    then show ?thesis using mix_column_nth(5)[OF assms] by (simp add: mix_column_inv_def Let_def)
  qed (use len assms unmix mix_column_nth(1-4)[OF assms] in \<open>simp_all add: mix_column_inv_def Let_def\<close>)
qed

lemma mix_column_apart:
  assumes "length buf = 16" "{i, j} \<subseteq> {0, 4, 8, 12}" "i \<noteq> j"
  shows "mix_column_inv i (mix_column j buf) = mix_column j (mix_column_inv i buf)"
  using assms(2,3)
  by (auto simp: mix_column_inv_def mix_column_def Let_def list_update_swap nth_list_update)

lemma mixColumns_inverse:
  assumes "length buf = 16"
  shows "aes_mixColumns_inv (aes_mixColumns buf) = buf" "length (aes_mixColumns buf) = 16" "length (aes_mixColumns_inv buf) = 16"
proof -
  have len: "length (mix_column i b) = length b" "length (mix_column_inv i b) = length b" for i b
    by (simp_all add: mix_column_def mix_column_inv_def Let_def)
  show "length (aes_mixColumns buf) = 16" "length (aes_mixColumns_inv buf) = 16"
    using assms by (simp_all add: aes_mixColumns_def aes_mixColumns_inv_def len)
  show "aes_mixColumns_inv (aes_mixColumns buf) = buf"
    using assms by (simp add: aes_mixColumns_def aes_mixColumns_inv_def len mix_column_apart mix_column_inverse)
qed

subsection \<open>The key schedule runs backwards\<close>

lemma xor_previous_twice:
  assumes "4 \<le> i" "i + 3 < length k"
  shows "xor_previous i (xor_previous i k) = k"
  by (rule nth_equalityI) (use assms in \<open>auto simp: xor_previous_def Let_def nth_list_update xor.assoc\<close>)

lemma xor_rotated_twice: "length k = 32 \<Longrightarrow> xor_rotated rc (xor_rotated rc k) = k"
  by (rule nth_equalityI) (auto simp: xor_rotated_def Let_def nth_list_update xor.assoc)

lemma xor_middle_twice: "length k = 32 \<Longrightarrow> xor_middle (xor_middle k) = k"
  by (rule nth_equalityI) (auto simp: xor_middle_def Let_def nth_list_update xor.assoc)

lemma length_key_steps [simp]:
  "length (xor_previous i k) = length k" "length (xor_rotated rc k) = length k" "length (xor_middle k) = length k"
  by (simp_all add: xor_previous_def xor_rotated_def xor_middle_def Let_def)

lemma FD_xtime: "FD (rj_xtime x) = x"
  by (rule all_u8) code_simp

lemma expandKey_inverse:
  assumes "length k = 32"
  shows "aes_expandDecKey (aes_expandEncKey (k, rc)) = (k, rc)"
  using assms
  by (simp add: aes_expandDecKey_def aes_expandEncKey_def Let_def xor_previous_twice xor_middle_twice FD_xtime xor_rotated_twice)

definition sched :: "u8 list \<Rightarrow> nat \<Rightarrow> u8 list \<times> u8" where
  "sched k n = repeat_expand n (k, 1)"

lemma sched_simps:
  "sched k 0 = (k, 1)" "sched k (Suc n) = aes_expandEncKey (sched k n)"
proof -
  have "repeat_expand (Suc n) s = aes_expandEncKey (repeat_expand n s)" for s
    by (induction n arbitrary: s) simp_all
  then show "sched k (Suc n) = aes_expandEncKey (sched k n)" by (simp add: sched_def)
qed (simp add: sched_def)

lemma length_sched: "length k = 32 \<Longrightarrow> length (fst (sched k n)) = 32"
  by (induction n) (simp_all add: sched_simps aes_expandEncKey_def split_beta Let_def)

lemma sched_back: "length k = 32 \<Longrightarrow> aes_expandDecKey (sched k (Suc n)) = sched k n"
  using expandKey_inverse[of "fst (sched k n)" "snd (sched k n)"] length_sched[of k n] by (simp add: sched_simps)

lemma sched_rcon: "snd (sched k 7) = 0x80"
proof -
  have "snd (aes_expandEncKey s) = rj_xtime (snd s)" for s
    by (simp add: aes_expandEncKey_def split_beta Let_def)
  then show ?thesis by (simp add: sched_simps eval_nat_numeral rj_xtime_def Let_def)
qed

subsection \<open>Rounds\<close>

lemma addRoundKey_twice:
  assumes "length buf = 16"
  shows "aes_addRoundKey k (aes_addRoundKey k buf) = buf" "length (aes_addRoundKey k buf) = 16"
  using assms by (auto simp: bytes_ops xor.assoc intro!: nth_equalityI)

text \<open>What round \<open>i\<close> does to the buffer, with the key it finds in the schedule, and back.\<close>

definition round_key :: "u8 list \<Rightarrow> nat \<Rightarrow> u8 list" where
  "round_key k i = (if odd i then drop 16 (fst (sched k (i div 2))) else fst (sched k (i div 2)))"

definition forward :: "u8 list \<Rightarrow> nat \<Rightarrow> u8 list \<Rightarrow> u8 list" where
  "forward k i buf = aes_addRoundKey (round_key k i) (aes_mixColumns (aes_shiftRows (aes_subBytes buf)))"

definition backward :: "u8 list \<Rightarrow> nat \<Rightarrow> u8 list \<Rightarrow> u8 list" where
  "backward k i buf = aes_subBytes_inv (aes_shiftRows_inv (aes_mixColumns_inv (aes_addRoundKey (round_key k i) buf)))"

lemma subBytes_inverse:
  assumes "length buf = 16"
  shows "aes_subBytes_inv (aes_subBytes buf) = buf" "length (aes_subBytes buf) = 16" "length (aes_subBytes_inv buf) = 16"
  using assms by (simp_all add: bytes_ops o_def rj_sbox_inverse)

lemmas layer_inverses = subBytes_inverse shiftRows_inverse mixColumns_inverse addRoundKey_twice

lemma length_forward: "length buf = 16 \<Longrightarrow> length (forward k i buf) = 16"
  by (simp add: forward_def layer_inverses)

lemma backward_forward: "length buf = 16 \<Longrightarrow> backward k i (forward k i buf) = buf"
  by (simp add: forward_def backward_def layer_inverses)

lemma enc_round_forward:
  "enc_round (Suc i) (buf, sched k (i div 2)) = (forward k (Suc i) buf, sched k (Suc i div 2))"
proof (cases "odd i")
  case True
  then have "Suc i div 2 = Suc (i div 2)" by presburger
  then show ?thesis
    using True by (simp add: enc_round_def forward_def round_key_def sched_simps split_beta Let_def)
next
  case False
  then have "Suc i div 2 = i div 2" by presburger
  then show ?thesis
    using False by (simp add: enc_round_def forward_def round_key_def split_beta Let_def)
qed

lemma enc_rounds:
  "foldl (\<lambda>s i. enc_round i s) (buf, k, 1) [1..<Suc n] = (foldl (\<lambda>b i. forward k i b) buf [1..<Suc n], sched k (n div 2))"
proof (induction n)
  case (Suc n)
  then show ?case using enc_round_forward[of n _ k] by simp
qed (simp add: sched_simps)

lemma dec_round_backward:
  "even i \<Longrightarrow> dec_round i (buf, sched k (i div 2)) = (backward k i buf, sched k (i div 2))"
  "odd i \<Longrightarrow> length k = 32 \<Longrightarrow> dec_round i (buf, sched k (Suc (i div 2))) = (backward k i buf, sched k (i div 2))"
proof -
  obtain k' rc where s: "sched k (i div 2) = (k', rc)" by fastforce
  show "even i \<Longrightarrow> dec_round i (buf, sched k (i div 2)) = (backward k i buf, sched k (i div 2))"
    by (simp add: dec_round_def backward_def round_key_def s)
  assume "odd i" "length k = 32"
  moreover obtain k1 rc1 where s1: "sched k (Suc (i div 2)) = (k1, rc1)" by fastforce
  ultimately show "dec_round i (buf, sched k (Suc (i div 2))) = (backward k i buf, sched k (i div 2))"
    using sched_back[of k "i div 2"] by (simp add: dec_round_def backward_def round_key_def s)
qed

lemma dec_rounds:
  assumes "length k = 32" "length buf = 16"
  shows "foldl (\<lambda>s i. dec_round i s) (foldl (\<lambda>b i. forward k i b) buf [1..<Suc n], sched k (Suc n div 2)) (rev [1..<Suc n]) =
    (buf, k, 1)"
proof (induction n)
  case (Suc n)
  define b where "b = foldl (\<lambda>b i. forward k i b) buf [1..<Suc n]"
  have "length b = 16" unfolding b_def by (induction n) (simp_all add: assms(2) length_forward)
  then have undo: "backward k (Suc n) (forward k (Suc n) b) = b" by (rule backward_forward)
  have step: "dec_round (Suc n) (forward k (Suc n) b, sched k (Suc (Suc n) div 2)) = (b, sched k (Suc n div 2))"
  proof (cases "even (Suc n)")
    case True
    then have "Suc (Suc n) div 2 = Suc n div 2" by presburger
    then show ?thesis using dec_round_backward(1)[OF True, of "forward k (Suc n) b" k] undo by simp
  next
    case False
    then have "Suc (Suc n) div 2 = Suc (Suc n div 2)" by presburger
    then show ?thesis using dec_round_backward(2)[OF False assms(1), of "forward k (Suc n) b"] undo by simp
  qed
  have "[1..<Suc (Suc n)] = [1..<Suc n] @ [Suc n]" by simp
  then show ?case using Suc step unfolding b_def by (simp del: upt_Suc)
qed (simp add: sched_simps)

subsection \<open>The interface\<close>

definition ctx_ok :: "aes256_context \<Rightarrow> bool" where
  "ctx_ok ctx \<longleftrightarrow> length (key ctx) = 32 \<and> length (enckey ctx) = 32 \<and> length (deckey ctx) = 32"

text \<open>A context that \<open>aes256_init\<close> has set up for the key \<open>k\<close>, whatever its working key holds.\<close>

definition set_up :: "u8 list \<Rightarrow> aes256_context \<Rightarrow> bool" where
  "set_up k ctx \<longleftrightarrow> ctx_ok ctx \<and> enckey ctx = k \<and> deckey ctx = fst (sched k 7)"

lemma aes256_init_ok:
  assumes "length k = 32" "ctx_ok ctx"
  shows "set_up k (aes256_init k ctx)"
proof -
  have "foldl (\<lambda>ctx i. ctx\<lparr>deckey := (deckey ctx)[i := k ! i], enckey := (enckey ctx)[i := k ! i]\<rparr>) ctx [0..<n] =
    ctx\<lparr>deckey := take n k @ drop n (deckey ctx), enckey := take n k @ drop n (enckey ctx)\<rparr>" if "n \<le> 32" for n
    using that
  proof (induction n)
    case (Suc n)
    then show ?case using assms
      by (simp add: ctx_ok_def take_Suc_conv_app_nth list_update_append min_def Cons_nth_drop_Suc[symmetric])
  qed simp
  from this[of 32] show ?thesis
    using assms length_sched[of k 7] by (simp add: aes256_init_def set_up_def ctx_ok_def sched_def)
qed

definition encrypted :: "u8 list \<Rightarrow> u8 list \<Rightarrow> u8 list" where
  "encrypted k buf =
     aes_addRoundKey (fst (sched k 7)) (aes_shiftRows (aes_subBytes
       (foldl (\<lambda>b i. forward k i b) (aes_addRoundKey k buf) [1..<14])))"

lemma length_rounds: "length b = 16 \<Longrightarrow> length (foldl (\<lambda>b i. forward k i b) b is) = 16"
  by (induction "is" arbitrary: b) (simp_all add: length_forward)

lemma encrypt_ok:
  assumes "set_up k ctx" "length buf = 16"
  shows "aes256_encrypt_ecb ctx buf = (encrypted k buf, ctx\<lparr>key := fst (sched k 7)\<rparr>)"
    "length (encrypted k buf) = 16"
proof -
  have k: "length k = 32" "enckey ctx = k" "length (key ctx) = 32" using assms(1) by (auto simp: set_up_def ctx_ok_def)
  have r: "foldl (\<lambda>s i. enc_round i s) (aes_addRoundKey k buf, k, 1) [1..<14] =
    (foldl (\<lambda>b i. forward k i b) (aes_addRoundKey k buf) [1..<14], sched k 6)"
    using enc_rounds[of "aes_addRoundKey k buf" k 13] by simp
  have "sched k 7 = aes_expandEncKey (sched k 6)" using sched_simps(2)[of k 6] by simp
  then show "aes256_encrypt_ecb ctx buf = (encrypted k buf, ctx\<lparr>key := fst (sched k 7)\<rparr>)"
    using k assms(2) r cpyaddRoundKey_ops[of buf k "key ctx"]
    by (simp add: aes256_encrypt_ecb_def encrypted_def split_beta Let_def)
  show "length (encrypted k buf) = 16"
    using assms(2) by (simp add: encrypted_def layer_inverses length_rounds)
qed

lemma decrypt_ok:
  assumes "set_up k ctx" "length buf = 16"
  shows "aes256_decrypt_ecb ctx (encrypted k buf) = (buf, ctx\<lparr>key := k\<rparr>)"
proof -
  let ?b = "foldl (\<lambda>b i. forward k i b) (aes_addRoundKey k buf) [1..<14]"
  have k: "length k = 32" "deckey ctx = fst (sched k 7)" "length (key ctx) = 32" "length (fst (sched k 7)) = 32"
    using assms(1) by (auto simp: set_up_def ctx_ok_def)
  have len: "length ?b = 16" using assms(2) by (simp add: length_rounds addRoundKey_twice)
  have "aes_cpyaddRoundKey (deckey ctx) (encrypted k buf, key ctx) = (aes_addRoundKey (fst (sched k 7)) (encrypted k buf), fst (sched k 7))"
    using cpyaddRoundKey_ops[of "encrypted k buf" "fst (sched k 7)" "key ctx"] k encrypt_ok(2)[OF assms] by simp
  moreover have "aes_subBytes_inv (aes_shiftRows_inv (aes_addRoundKey (fst (sched k 7)) (encrypted k buf))) = ?b"
    using len by (simp add: encrypted_def layer_inverses)
  moreover have "(fst (sched k 7), 0x80) = sched k 7" using sched_rcon[of k] by (simp add: prod_eq_iff)
  moreover have "foldl (\<lambda>s i. dec_round i s) (?b, sched k 7) (rev [1..<14]) = (aes_addRoundKey k buf, k, 1)"
    using dec_rounds[of k "aes_addRoundKey k buf" 13] k(1) assms(2) by (simp add: addRoundKey_twice)
  ultimately show ?thesis
    using assms(2) unfolding aes256_decrypt_ecb_def Let_def by (simp add: addRoundKey_twice)
qed

subsection \<open>Properties\<close>

text \<open>
  C8. With a context set up for a 32-byte key, decrypting what encrypting a
  block of 16 bytes has given returns the block, however the context is used in
  between: both functions leave it set up for the same key.
\<close>

theorem aes256_round_trip:
  assumes "length k = 32" "ctx_ok ctx" "length buf = 16"
  shows "\<exists>c ctx1 ctx2. aes256_encrypt_ecb (aes256_init k ctx) buf = (c, ctx1) \<and> length c = 16 \<and>
    aes256_decrypt_ecb ctx1 c = (buf, ctx2) \<and> set_up k ctx1 \<and> set_up k ctx2"
proof -
  have s: "set_up k (aes256_init k ctx)" using aes256_init_ok[OF assms(1,2)] .
  have keep: "set_up k (c\<lparr>key := k'\<rparr>)" if "set_up k c" "length k' = 32" for c k'
    using that by (auto simp: set_up_def ctx_ok_def)
  note e = encrypt_ok[OF s assms(3)]
  note s1 = keep[OF s length_sched[OF assms(1), of 7]]
  show ?thesis
    using e decrypt_ok[OF s1 assms(3)] s1 keep[OF s1 assms(1)] by auto
qed

lemma aes256_round_trip_witness:
  "\<exists>c ctx1 ctx2. aes256_encrypt_ecb (aes256_init (replicate 32 7)
       \<lparr>key = replicate 32 0, enckey = replicate 32 0, deckey = replicate 32 0\<rparr>) (replicate 16 1) = (c, ctx1) \<and>
     length c = 16 \<and> aes256_decrypt_ecb ctx1 c = (replicate 16 1, ctx2)"
  using aes256_round_trip[of "replicate 32 7" "\<lparr>key = replicate 32 0, enckey = replicate 32 0, deckey = replicate 32 0\<rparr>" "replicate 16 1"]
  by (auto simp: ctx_ok_def)

lemma aes256_done_clears:
  assumes "ctx_ok ctx"
  shows "aes256_done ctx = ctx\<lparr>key := replicate 32 0, enckey := replicate 32 0, deckey := replicate 32 0\<rparr>"
proof -
  have "foldl (\<lambda>ctx i. ctx\<lparr>deckey := (deckey ctx)[i := 0], enckey := (enckey ctx)[i := 0], key := (key ctx)[i := 0]\<rparr>) ctx [0..<n] =
    ctx\<lparr>key := replicate n 0 @ drop n (key ctx), enckey := replicate n 0 @ drop n (enckey ctx),
      deckey := replicate n 0 @ drop n (deckey ctx)\<rparr>" if "n \<le> 32" for n
    using that
  proof (induction n)
    case (Suc n)
    then show ?case using assms
      by (simp add: ctx_ok_def list_update_append Cons_nth_drop_Suc[symmetric] replicate_append_same[symmetric])
  qed simp
  from this[of 32] show ?thesis using assms by (simp add: aes256_done_def ctx_ok_def)
qed

end
