(* ===== verification/Spec2Isabelle.thy ===== *)
theory Spec2Isabelle
  imports SysLow Legal EmuSpec Z80Spec AllocSpec SortSpec TreeSpec LibNum LibTime AesSpec
begin

text \<open>
  Parts of Fuzemsys: the 6809 emulator and the Z80 disassembler of the second
  emulator (\<open>src/emulators\<close>), and functions of the C library (\<open>src/libs\<close>) of the FUZIX programs it runs.

  The emulator: a program that runs FUZIX
  binaries for the 6809 on the host. \<open>main\<close> (\<open>emu6809.c\<close>) reads options, loads a
  binary into 64K of memory, puts arguments and environment on its stack and then
  executes one instruction after the other. The processor (\<open>e6809.c\<close>) calls the
  memory functions of \<open>emu6809.c\<close>, where some addresses have side effects, the
  monitor (\<open>emumon.c\<close>) at a breakpoint, and \<open>do_syscall\<close> (\<open>syscalls.c\<close>) for the
  instruction SWI. The monitor runs single instructions itself, disassembles
  (\<open>d6809.c\<close>) and names addresses through the symbol table (\<open>mapfile.c\<close>). The
  system call \<open>execve\<close> calls \<open>main\<close> again.

  State. \<open>Machine.machine\<close> is a record of the static variables of \<open>e6809.c\<close>, the
  memory, the breakpoint table (\<open>Breakpoints.brkstate\<close>), the symbol table
  (\<open>Mapfile.mapstate\<close>) and what has been written to the terminal and the log.
  \<open>Monitor.console\<close> extends it by the lines that are still to be read,
  \<open>Syscalls.process\<close> by the static variables of \<open>syscalls.c\<close> and the state of the
  host, \<open>Emulator.emulator\<close> by the state of \<open>getopt\<close> and the argument array of
  \<open>execve\<close>. An operation returns \<open>Inr\<close> with a value and the new state, or \<open>Inl\<close>
  with the reason for which the run ends: \<open>exit\<close>, undefined behaviour of C
  (\<open>Fault\<close>), a new call of \<open>main\<close>, or a host program that takes the place of the
  process. C's \<open>int\<close> and \<open>unsigned\<close> are words of 32 bits.

  Theories, with the files they model:
  \<open>Prelude\<close>, \<open>Cstring\<close>: words, results, switch tables, C strings and the library
  functions on them. \<open>Disasm\<close>: \<open>d6809.c\<close>. \<open>Breakpoints\<close> and \<open>Monitor\<close>:
  \<open>emumon.c\<close>. \<open>Mapfile\<close>: \<open>mapfile.c\<close>. \<open>Machine\<close> (registers, memory, addressing
  modes), \<open>Alu\<close> (arithmetic), \<open>Instructions\<close> and \<open>Step\<close> (one entry for each case
  label of the three opcode switches): \<open>e6809.c\<close> and the memory of \<open>emu6809.c\<close>.
  \<open>Syscalls\<close>: \<open>syscalls.c\<close>, one definition for each case with a body of its own.
  \<open>Emulator\<close>: \<open>main\<close> and the loader of \<open>emu6809.c\<close>.

  What the lemmas show:
  \<open>AluSpec\<close>: the flag tricks compute 8-bit and 16-bit arithmetic; flags are a
  \<open>flag_register\<close>. \<open>Garbage\<close>, \<open>SysLow\<close>: the bits above a register's width do not
  matter to an instruction, an interrupt or a system call, only to the number that
  SWI hands over; the handlers for which a step can be shown so are the locale
  \<open>blind_handler\<close>, interpreted on \<open>do_syscall\<close>.
  \<open>Stack\<close>: pushes and pulls, interrupts and RTI, JSR and RTS are inverse.
  \<open>Len\<close>, \<open>Agree\<close>, \<open>Legal\<close>: the disassembler and the processor agree on lengths
  and on the set of opcodes. \<open>BrkSpec\<close>: the breakpoint table is a bounded set.
  \<open>MapSpec\<close>: sorting and lookups of the symbol table. \<open>Frame\<close>, \<open>MonSpec\<close>,
  \<open>MonProps\<close>: what a step and a monitor session leave alone, by the locales
  \<open>respected\<close>, \<open>respected_monitor\<close> and \<open>respected_console\<close>, interpreted on the
  relations of the model; the equation of the monitor loop; addresses; faults.
  \<open>SysSpec\<close>, \<open>SysProps\<close>, \<open>ArgSpec\<close>: what a system call leaves alone, the break,
  structures and vectors in memory. \<open>EmuSpec\<close>: the loader, whole runs, a loop that
  ends. Several theorems show what the code gets wrong.

  The second emulator. \<open>Z80dis\<close>: the Z80 disassembler \<open>z80dis.c\<close>, and from
  \<open>emuz80.c\<close> the memory, the ports and the trace that calls it and the symbol table
  (\<open>Mapfile\<close>). \<open>Z80Spec\<close>: the bytes it reads are those of one instruction; when it
  returns.

  The C library. The target is the 6809: \<open>int\<close>, pointers and \<open>size_t\<close> have 16 bits,
  \<open>long\<close> has 32. \<open>LibBase\<close>: the integers, and the contract (the locale
  \<open>comparator\<close>) between a comparison function, such as \<open>strcmp\<close>, and the functions
  that are passed one. \<open>LibAlloc\<close>: \<open>malloc.c\<close> and \<open>realloc.c\<close>, a circular list of free
  blocks in an explicit memory of headers; \<open>AllocSpec\<close>: every operation by the set
  of free units it leaves, the tiling of the heap by live and free blocks under
  any sequence of calls, and \<open>realloc\<close>. \<open>LibSort\<close>, \<open>SortSpec\<close>: \<open>qsort.c\<close> and
  \<open>bsearch.c\<close>, index by index. \<open>LibTree\<close>, \<open>TreeSpec\<close>: \<open>tsearch.c\<close> and \<open>tfind.c\<close>
  over a store of linked nodes, as a set of keys, and the order of \<open>twalk\<close>. \<open>LibNum\<close>: \<open>lrand48.c\<close>, \<open>strtol.c\<close>,
  \<open>sputl.c\<close> and \<open>sgetl.c\<close>. \<open>LibTime\<close>: \<open>gmtime_r.c\<close> against the Gregorian calendar.
  \<open>LibAes\<close>, \<open>AesSpec\<close>: \<open>aes256.c\<close>, decryption as the inverse of encryption.
  Loops that follow links or could run forever are partial functions with \<open>None\<close>
  for a run that does not end or reads what is not there; the theorems show that
  a result is returned.

  Bounds. The monitor loop carries the number of input lines left as a bound on
  its rounds, because each round reads a line and a nested monitor reads lines of
  the same input; \<open>MonSpec.monitor_recursion\<close> shows that the bound never matters.
  \<open>Emulator.emulate\<close> counts processor steps and starts of \<open>main\<close>, since a program
  need not end; theorems about it hold for every count, or compute the count that
  is enough. All other recursion follows the data or a measure of it.

  Parameters. The host operating system is a function from calls and its own state
  to replies; nothing is assumed of it unless a theorem says so. The environment
  variable FUZIXROOT and the real size of a block of \<open>malloc\<close> are arguments of
  \<open>main_start\<close>. \<open>qsort\<close>, \<open>strtol\<close>, \<open>strstr\<close>, \<open>fgets\<close>, \<open>getopt\<close> and the
  conversions of \<open>printf\<close> are defined as the C library documents them.

  Not modelled. Code under DEBUG and \<open>#if 0\<close>, the trace switch and the OS-9 patch,
  which nothing turns on, and the prompt of \<open>readline\<close>. The loader and \<open>main\<close> of
  \<open>emuz80.c\<close>, which repeat those of \<open>emu6809.c\<close> and then run \<open>libz80\<close>, a processor
  taken over from another project whose opcodes the build generates, and with them
  the Z80 variants of the monitor and of the system calls. The rest of the C
  library: standard input and output, floating point, the wrappers of system
  calls, \<open>calloc\<close> and the part of \<open>malloc.c\<close> under \<open>USE_SYSMALLOC\<close>, which no build
  defines, time zones and \<open>drand48\<close>. The compiler, the assembler and linker and
  the commands under \<open>src/cmds\<close> are imported from FUZIX and from the Fuzix Compiler
  Kit: programs that run under the emulator, separate projects of their own.
\<close>

end
